(* ===== verification/Prelude.thy ===== *)
theory Prelude
  imports Main "HOL-Library.Char_ord" "HOL-Library.List_Lexorder"
begin

text \<open>
  The foundation every component theory builds on: the exceptions the code throws, the
  shape of an asynchronous method (a function from the world to a result or a thrown
  exception, together with the world it leaves behind), the combinators that stand for
  \<open>await\<close>, \<open>throw\<close>, \<open>try/catch\<close>, \<open>try/finally\<close> and \<open>for ... of\<close>, a weakest-precondition
  calculus for them (collection \<open>wp_simps\<close>), and the relational effect calculus
  (\<open>within\<close>, locale \<open>effect_order\<close>) by which frame conditions and invariants are
  carried through a whole method body.
\<close>

section \<open>Collections of facts\<close>

named_theorems wp_simps \<open>weakest preconditions of the combinators and store operations\<close>
named_theorems wlp_intros \<open>partial-correctness rules: what holds if the method returns\<close>
named_theorems row_simps \<open>reading a table after it was written\<close>

section \<open>JSON values\<close>

text \<open>
  The values of the \<open>Json\<close> columns, of provider payloads and of audit metadata. \<open>JDec\<close> is a
  JSON number with up to four decimals, as an integer number of ten-thousandths; \<open>JNum\<close> keeps
  the text of any other number. A payload
  is an object: its field names with their values, in insertion order.
\<close>

datatype json =
    JNull
  | JBool bool
  | JInt int
  | JDec int
  | JNum string
  | JStr string
  | JArr "json list"
  | JObj "(string \<times> json) list"

type_synonym payload = "(string \<times> json) list"

text \<open>A string that is present and not empty, as \<open>if (s)\<close> tests it.\<close>

definition truthy :: "string option \<Rightarrow> bool" where
  "truthy s = (case s of None \<Rightarrow> False | Some t \<Rightarrow> t \<noteq> [])"

definition payload_get :: "payload \<Rightarrow> string \<Rightarrow> json option" where
  "payload_get p k = map_of p k"

section \<open>Exceptions\<close>

text \<open>
  The Nest HTTP exceptions the code throws, Prisma's known request errors (code and the
  \<open>meta.target\<close> fields), Prisma's validation errors, the Stripe library's errors (message
  and raw body), every other JavaScript \<open>Error\<close>, and thrown values that are no \<open>Error\<close>.
\<close>

datatype http_kind =
    BadRequestException
  | UnauthorizedException
  | ForbiddenException
  | NotFoundException
  | ConflictException
  | UnprocessableEntityException
  | BadGatewayException
  | ServiceUnavailableException

datatype exn =
    HttpExn http_kind string
  | PrismaKnown string "string list"
  | PrismaValidation
  | StripeError string json
  | JsError string
  | ThrownValue string

section \<open>Methods as state transformers\<close>

type_synonym ('w, 'a) prog = "'w \<Rightarrow> (exn + 'a) \<times> 'w"

definition ret :: "'a \<Rightarrow> ('w, 'a) prog" where
  "ret a w = (Inr a, w)"

definition throw :: "exn \<Rightarrow> ('w, 'a) prog" where
  "throw e w = (Inl e, w)"

definition bindP :: "('w, 'a) prog \<Rightarrow> ('a \<Rightarrow> ('w, 'b) prog) \<Rightarrow> ('w, 'b) prog" where
  "bindP m f w = (case m w of (Inl e, w') \<Rightarrow> (Inl e, w') | (Inr a, w') \<Rightarrow> f a w')"

definition thenP :: "('w, 'a) prog \<Rightarrow> ('w, 'b) prog \<Rightarrow> ('w, 'b) prog" where
  "thenP m k = bindP m (\<lambda>_. k)"

definition catchP :: "('w, 'a) prog \<Rightarrow> (exn \<Rightarrow> ('w, 'a) prog) \<Rightarrow> ('w, 'a) prog" where
  "catchP m h w = (case m w of (Inl e, w') \<Rightarrow> h e w' | (Inr a, w') \<Rightarrow> (Inr a, w'))"

text \<open>\<open>finally\<close>: the clean-up runs in both cases, and its own exception wins.\<close>

definition finallyP :: "('w, 'a) prog \<Rightarrow> ('w, unit) prog \<Rightarrow> ('w, 'a) prog" where
  "finallyP m c w = (case m w of (r, w') \<Rightarrow>
     (case c w' of (Inl e, w'') \<Rightarrow> (Inl e, w'') | (Inr _, w'') \<Rightarrow> (r, w'')))"

definition getP :: "('w \<Rightarrow> 'a) \<Rightarrow> ('w, 'a) prog" where
  "getP f w = (Inr (f w), w)"

definition modP :: "('w \<Rightarrow> 'w) \<Rightarrow> ('w, unit) prog" where
  "modP f w = (Inr (), f w)"

definition whenP :: "bool \<Rightarrow> ('w, unit) prog \<Rightarrow> ('w, unit) prog" where
  "whenP b m = (if b then m else ret ())"

fun forP :: "'a list \<Rightarrow> ('a \<Rightarrow> ('w, unit) prog) \<Rightarrow> ('w, unit) prog" where
  "forP [] f = ret ()"
| "forP (x # xs) f = thenP (f x) (forP xs f)"

text \<open>Did the method return, and where did it leave the world.\<close>

definition returns :: "(exn + 'a) \<times> 'w \<Rightarrow> bool" where
  "returns r = (case fst r of Inl _ \<Rightarrow> False | Inr _ \<Rightarrow> True)"

lemma returns_simps [simp]:
  "returns (Inr a, w)"
  "\<not> returns (Inl e, w)"
  by (simp_all add: returns_def)

lemma returnsE: "returns r \<Longrightarrow> (\<And>a w. r = (Inr a, w) \<Longrightarrow> P) \<Longrightarrow> P"
  by (cases r; cases "fst r") (auto simp: returns_def)

section \<open>Weakest preconditions\<close>

text \<open>
  \<open>wp m Q E w\<close>: running \<open>m\<close> from \<open>w\<close> either returns a value and a world that satisfy
  \<open>Q\<close>, or throws an exception in a world that satisfy \<open>E\<close>.
\<close>

definition wp :: "('w, 'a) prog \<Rightarrow> ('a \<Rightarrow> 'w \<Rightarrow> bool) \<Rightarrow> (exn \<Rightarrow> 'w \<Rightarrow> bool) \<Rightarrow> 'w \<Rightarrow> bool" where
  "wp m Q E w = (case m w of (Inr a, w') \<Rightarrow> Q a w' | (Inl e, w') \<Rightarrow> E e w')"

lemma wp_ret [wp_simps]: "wp (ret a) Q E w = Q a w"
  by (simp add: wp_def ret_def)

lemma wp_ret_fun [wp_simps]: "wp (ret a) Q E = Q a"
  by (rule ext) (rule wp_ret)

lemma wp_throw [wp_simps]: "wp (throw e) Q E w = E e w"
  by (simp add: wp_def throw_def)

lemma wp_bindP [wp_simps]: "wp (bindP m f) Q E w = wp m (\<lambda>a. wp (f a) Q E) E w"
  by (simp add: wp_def bindP_def split: prod.splits sum.splits)

lemma wp_thenP [wp_simps]: "wp (thenP m k) Q E w = wp m (\<lambda>_. wp k Q E) E w"
  by (simp add: thenP_def wp_bindP)

lemma wp_catchP [wp_simps]: "wp (catchP m h) Q E w = wp m Q (\<lambda>e. wp (h e) Q E) w"
  by (simp add: wp_def catchP_def split: prod.splits sum.splits)

lemma wp_finallyP [wp_simps]:
  "wp (finallyP m c) Q E w =
     wp m (\<lambda>a. wp c (\<lambda>_. Q a) E) (\<lambda>e. wp c (\<lambda>_. E e) E) w"
  by (simp add: wp_def finallyP_def split: prod.splits sum.splits)

lemma wp_getP [wp_simps]: "wp (getP f) Q E w = Q (f w) w"
  by (simp add: wp_def getP_def)

lemma wp_modP [wp_simps]: "wp (modP f) Q E w = Q () (f w)"
  by (simp add: wp_def modP_def)

lemma wp_whenP [wp_simps]: "wp (whenP b m) Q E w = (if b then wp m Q E w else Q () w)"
  by (simp add: whenP_def wp_ret)

lemma wp_if [wp_simps]: "wp (if b then m else n) Q E w = (if b then wp m Q E w else wp n Q E w)"
  by simp

lemma wp_case_option [wp_simps]:
  "wp (case x of None \<Rightarrow> m | Some y \<Rightarrow> f y) Q E w =
     (case x of None \<Rightarrow> wp m Q E w | Some y \<Rightarrow> wp (f y) Q E w)"
  by (cases x) simp_all

lemma wp_Let [wp_simps]: "wp (Let x f) Q E w = wp (f x) Q E w"
  by simp

lemma wp_returnsD: "wp m Q E w \<Longrightarrow> m w = (Inr a, w') \<Longrightarrow> Q a w'"
  by (simp add: wp_def)

lemma wp_throwsD: "wp m Q E w \<Longrightarrow> m w = (Inl e, w') \<Longrightarrow> E e w'"
  by (simp add: wp_def)

lemma wp_mono:
  assumes "wp m Q E w" and "\<And>a w'. Q a w' \<Longrightarrow> Q' a w'" and "\<And>e w'. E e w' \<Longrightarrow> E' e w'"
  shows "wp m Q' E' w"
  using assms by (auto simp: wp_def split: prod.splits sum.splits)

lemma wp_conj: "wp m Q E w \<Longrightarrow> wp m Q' E' w \<Longrightarrow> wp m (\<lambda>a w. Q a w \<and> Q' a w) (\<lambda>e w. E e w \<and> E' e w) w"
  by (auto simp: wp_def split: prod.splits sum.splits)

lemma wp_True: "wp m (\<lambda>_ _. True) (\<lambda>_ _. True) w"
  by (simp add: wp_def split: prod.splits sum.splits)

text \<open>
  Partial correctness, for the inside of a transaction block: an exception undoes the
  block, so only a run that returns matters.
\<close>

lemma wlp_ret [wlp_intros]: "Q a w \<Longrightarrow> wp (ret a) Q (\<lambda>_ _. True) w"
  by (simp add: wp_ret)

lemma wlp_throw [wlp_intros]: "wp (throw e) Q (\<lambda>_ _. True) w"
  by (simp add: wp_throw)

lemma wlp_bindP [wlp_intros]:
  "wp m (\<lambda>a. wp (f a) Q (\<lambda>_ _. True)) (\<lambda>_ _. True) w \<Longrightarrow> wp (bindP m f) Q (\<lambda>_ _. True) w"
  by (simp add: wp_bindP)

lemma wlp_thenP [wlp_intros]:
  "wp m (\<lambda>_. wp k Q (\<lambda>_ _. True)) (\<lambda>_ _. True) w \<Longrightarrow> wp (thenP m k) Q (\<lambda>_ _. True) w"
  by (simp add: wp_thenP)

lemma wlp_getP [wlp_intros]: "Q (f w) w \<Longrightarrow> wp (getP f) Q (\<lambda>_ _. True) w"
  by (simp add: wp_getP)

lemma wlp_if [wlp_intros]:
  "(b \<Longrightarrow> wp m Q (\<lambda>_ _. True) w) \<Longrightarrow> (\<not> b \<Longrightarrow> wp n Q (\<lambda>_ _. True) w) \<Longrightarrow>
   wp (if b then m else n) Q (\<lambda>_ _. True) w"
  by simp

lemma wlp_whenP [wlp_intros]:
  "(b \<Longrightarrow> wp m Q (\<lambda>_ _. True) w) \<Longrightarrow> (\<not> b \<Longrightarrow> Q () w) \<Longrightarrow> wp (whenP b m) Q (\<lambda>_ _. True) w"
  by (simp add: wp_whenP)

lemma wlp_case_option [wlp_intros]:
  "(x = None \<Longrightarrow> wp m Q (\<lambda>_ _. True) w) \<Longrightarrow> (\<And>y. x = Some y \<Longrightarrow> wp (f y) Q (\<lambda>_ _. True) w) \<Longrightarrow>
   wp (case x of None \<Rightarrow> m | Some y \<Rightarrow> f y) Q (\<lambda>_ _. True) w"
  by (cases x) simp_all

lemma wlp_case_prod [wlp_intros]:
  "wp (f a b) Q (\<lambda>_ _. True) w \<Longrightarrow> wp (case (a, b) of (x, y) \<Rightarrow> f x y) Q (\<lambda>_ _. True) w"
  by simp

section \<open>Effects bounded by a preorder\<close>

text \<open>
  \<open>within R m\<close>: whatever world \<open>m\<close> starts in, the world it leaves (returning or throwing)
  is related to it by \<open>R\<close>. An invariant \<open>I\<close> is the relation \<open>keeps_rel I\<close>; a frame
  condition is an equality of components; monotonicity is an order. The locale gives the
  rules by which \<open>within\<close> is derived for a method from its parts.
\<close>

definition within :: "('w \<Rightarrow> 'w \<Rightarrow> bool) \<Rightarrow> ('w, 'a) prog \<Rightarrow> bool" where
  "within R m \<longleftrightarrow> (\<forall>w. R w (snd (m w)))"

definition keeps_rel :: "('w \<Rightarrow> bool) \<Rightarrow> 'w \<Rightarrow> 'w \<Rightarrow> bool" where
  "keeps_rel I w w' \<longleftrightarrow> (I w \<longrightarrow> I w')"

lemma withinD: "within R m \<Longrightarrow> m w = (r, w') \<Longrightarrow> R w w'"
  by (metis snd_conv within_def)

lemma within_keepsD: "within (keeps_rel I) m \<Longrightarrow> I w \<Longrightarrow> m w = (r, w') \<Longrightarrow> I w'"
  by (metis keeps_rel_def withinD)

lemma wp_same: "wp m (\<lambda>_. Q) (\<lambda>_. Q) w = Q (snd (m w))"
  by (cases "m w"; cases "fst (m w)") (auto simp: wp_def)

lemma within_wp: "within R m \<longleftrightarrow> (\<forall>w. wp m (\<lambda>_. R w) (\<lambda>_. R w) w)"
  by (simp add: within_def wp_same)

lemmas within_wpI = within_wp [THEN iffD2, rule_format]

lemma wp_withinI: "within R m \<Longrightarrow> wp m (\<lambda>_. R w) (\<lambda>_. R w) w"
  by (simp add: within_wp)

lemma within_returnsD: "(\<And>w. R w (snd (m w))) \<Longrightarrow> within R m"
  by (simp add: within_def)

locale effect_order =
  fixes R :: "'w \<Rightarrow> 'w \<Rightarrow> bool"
  assumes R_refl: "R w w"
    and R_trans: "R u v \<Longrightarrow> R v w \<Longrightarrow> R u w"
begin

lemma within_ret: "within R (ret a)"
  by (simp add: within_def ret_def R_refl)

lemma within_throw: "within R (throw e)"
  by (simp add: within_def throw_def R_refl)

lemma within_getP: "within R (getP f)"
  by (simp add: within_def getP_def R_refl)

lemma within_bindP: "within R m \<Longrightarrow> (\<And>a. within R (f a)) \<Longrightarrow> within R (bindP m f)"
proof (rule within_wpI, unfold wp_bindP)
  fix w assume m: "within R m" and f: "\<And>a. within R (f a)"
  have "wp m (\<lambda>_. R w) (\<lambda>_. R w) w" by (rule wp_withinI [OF m])
  then show "wp m (\<lambda>a. wp (f a) (\<lambda>_. R w) (\<lambda>_. R w)) (\<lambda>_. R w) w"
    by (rule wp_mono) (use f R_trans in \<open>auto simp: wp_same within_def\<close>)
qed

lemma within_thenP: "within R m \<Longrightarrow> within R k \<Longrightarrow> within R (thenP m k)"
  by (simp add: thenP_def within_bindP)

lemma within_catchP: "within R m \<Longrightarrow> (\<And>e. within R (h e)) \<Longrightarrow> within R (catchP m h)"
proof (rule within_wpI, unfold wp_catchP)
  fix w assume m: "within R m" and h: "\<And>e. within R (h e)"
  have "wp m (\<lambda>_. R w) (\<lambda>_. R w) w" by (rule wp_withinI [OF m])
  then show "wp m (\<lambda>_. R w) (\<lambda>e. wp (h e) (\<lambda>_. R w) (\<lambda>_. R w)) w"
    by (rule wp_mono) (use h R_trans in \<open>auto simp: wp_same within_def\<close>)
qed

lemma within_finallyP: "within R m \<Longrightarrow> within R c \<Longrightarrow> within R (finallyP m c)"
proof (rule within_wpI, unfold wp_finallyP)
  fix w assume m: "within R m" and c: "within R c"
  have "wp m (\<lambda>_. R w) (\<lambda>_. R w) w" by (rule wp_withinI [OF m])
  then show "wp m (\<lambda>_. wp c (\<lambda>_. R w) (\<lambda>_. R w)) (\<lambda>_. wp c (\<lambda>_. R w) (\<lambda>_. R w)) w"
    by (rule wp_mono) (use c R_trans in \<open>auto simp: wp_same within_def\<close>)
qed

lemma within_whenP: "within R m \<Longrightarrow> within R (whenP b m)"
  by (simp add: whenP_def within_ret)

lemma within_if: "within R m \<Longrightarrow> within R n \<Longrightarrow> within R (if b then m else n)"
  by simp

lemma within_case_option: "within R m \<Longrightarrow> (\<And>y. within R (f y)) \<Longrightarrow>
    within R (case x of None \<Rightarrow> m | Some y \<Rightarrow> f y)"
  by (cases x) simp_all

lemma within_Let: "(\<And>y. within R (f y)) \<Longrightarrow> within R (Let x f)"
  by simp

lemma within_forP: "(\<And>x. within R (f x)) \<Longrightarrow> within R (forP xs f)"
  by (induction xs) (simp_all add: within_ret within_thenP)

lemmas within_intros =
  within_ret within_throw within_getP within_bindP within_thenP within_catchP
  within_finallyP within_whenP within_if within_case_option within_Let within_forP

end

lemma effect_order_keeps: "effect_order (keeps_rel I)"
  by unfold_locales (auto simp: keeps_rel_def)

section \<open>Lists as tables\<close>

lemma find_Some_iff_hd: "find P xs = Some x \<Longrightarrow> P x \<and> x \<in> set xs"
  by (induction xs) (auto split: if_splits)

lemma find_None_iff_all: "find P xs = None \<longleftrightarrow> (\<forall>x \<in> set xs. \<not> P x)"
  by (induction xs) auto

lemma find_append: "find P (xs @ ys) = (case find P xs of None \<Rightarrow> find P ys | Some x \<Rightarrow> Some x)"
  by (induction xs) auto

lemma find_map_if:
  assumes "\<And>x. P (g x) = P x"
  shows "find P (map g xs) = map_option g (find P xs)"
  using assms by (induction xs) auto

lemma find_distinct_key:
  assumes "distinct (map k xs)" and "x \<in> set xs"
  shows "find (\<lambda>y. k y = k x) xs = Some x"
  using assms by (induction xs) (auto simp: image_iff)

lemma distinct_map_keep:
  assumes "distinct (map k xs)" and "\<And>x. k (g x) = k x"
  shows "distinct (map k (map g xs))"
  using assms by (simp add: comp_def)

lemma sum_list_map_append [simp]: "sum_list (map f (xs @ [x])) = sum_list (map f xs) + f (x :: 'b)"
  for f :: "'b \<Rightarrow> 'a :: comm_monoid_add"
  by simp

text \<open>Changing the one row whose key is \<open>c\<close> changes a sum over the table by that row's share.\<close>

lemma sum_list_update_key:
  fixes f :: "'b \<Rightarrow> int"
  assumes "distinct (map k xs)" and "x \<in> set xs" and "k x = c"
  shows "sum_list (map f (map (\<lambda>y. if k y = c then g y else y) xs)) =
    sum_list (map f xs) - f x + f (g x)"
  using assms
proof (induction xs)
  case Nil
  then show ?case by simp
next
  case (Cons y ys)
  show ?case
  proof (cases "x = y")
    case True
    with Cons.prems have "\<And>z. z \<in> set ys \<Longrightarrow> k z \<noteq> c" by (metis distinct.simps(2) image_eqI list.set_map list.simps(9))
    then have "map (\<lambda>z. if k z = c then g z else z) ys = ys" by (simp add: map_idI)
    with True Cons.prems show ?thesis by simp
  next
    case False
    with Cons.prems have "x \<in> set ys" "k y \<noteq> c" by (auto simp: image_iff)
    with Cons show ?thesis by simp
  qed
qed

lemma sum_list_map_same:
  fixes f :: "'b \<Rightarrow> int"
  assumes "\<And>x. x \<in> set xs \<Longrightarrow> f (g x) = f x"
  shows "sum_list (map f (map g xs)) = sum_list (map f xs)"
  using assms by (induction xs) auto

lemma sum_list_nonneg_int: "(\<And>x. x \<in> set xs \<Longrightarrow> 0 \<le> f x) \<Longrightarrow> 0 \<le> (sum_list (map f xs) :: int)"
  by (induction xs) auto

lemma sum_list_member_le:
  fixes f :: "'b \<Rightarrow> int"
  assumes "x \<in> set xs" and "\<And>y. y \<in> set xs \<Longrightarrow> 0 \<le> f y"
  shows "f x \<le> sum_list (map f xs)"
  using assms by (induction xs) (auto simp: add_increasing sum_list_nonneg_int add.commute add_increasing2)

end
