(* ===== verification/Schema.thy ===== *)
theory Schema
  imports Prelude
begin

text \<open>
  The data model: the enums and tables of \<open>prisma/schema.prisma\<close> (one datatype per enum,
  one record per model with the schema's columns)
  and the database as a record of its tables. A \<open>Decimal(18,4)\<close> column is an integer
  number of ten-thousandths; instants are integer milliseconds; ids are strings.
\<close>

section \<open>Enums\<close>

datatype role = USER | ADMIN

datatype account_status = ACTIVE | FROZEN | SUSPENDED | CLOSED

datatype currency = USD | EUR | GBP

datatype transaction_type = DEPOSIT | WITHDRAWAL | TRANSFER

datatype transaction_status = INITIATED | AUTHORIZED | PROCESSING | SETTLED | FAILED | REVERSED

datatype entry_direction = CREDIT | DEBIT

datatype provider = STRIPE | PAYPAL | INTERNAL

section \<open>Scalars\<close>

type_synonym uuid = string
type_synonym instant = int
type_synonym decimal = int

text \<open>\<open>Decimal(18,4)\<close>: eighteen digits in all, four of them after the point.\<close>

definition decimal_fits :: "decimal \<Rightarrow> bool" where
  "decimal_fits d \<longleftrightarrow> \<bar>d\<bar> < 10 ^ 18"

section \<open>Tables\<close>

record user =
  u_id :: uuid
  u_name :: string
  u_email :: string
  u_phone :: string
  u_password :: string
  u_role :: role
  u_status :: account_status
  braintreeCustomerId :: "string option"
  stripeConnectAccountId :: "string option"
  paypalEmail :: "string option"
  u_createdAt :: instant
  u_updatedAt :: instant

record refresh_token =
  rt_id :: uuid
  rt_userId :: uuid
  tokenHash :: string
  rt_createdAt :: instant
  expiresAt :: instant
  revokedAt :: "instant option"

record wallet =
  w_id :: uuid
  w_userId :: uuid
  w_currency :: currency
  w_status :: account_status
  availableBalance :: decimal
  lockedBalance :: decimal
  pendingBalance :: decimal
  w_createdAt :: instant
  w_updatedAt :: instant

record transaction =
  tx_id :: uuid
  idempotencyKey :: string
  tx_type :: transaction_type
  tx_status :: transaction_status
  tx_amount :: decimal
  tx_currency :: currency
  tx_description :: "string option"
  senderWalletId :: "uuid option"
  receiverWalletId :: "uuid option"
  tx_provider :: "provider option"
  tx_providerRef :: "string option"
  tx_createdAt :: instant
  tx_updatedAt :: instant
  settledAt :: "instant option"

record ledger_entry =
  le_id :: uuid
  le_walletId :: uuid
  le_transactionId :: uuid
  direction :: entry_direction
  le_amount :: decimal
  le_currency :: currency
  balanceAfter :: decimal
  le_createdAt :: instant

record payment_log =
  pl_id :: uuid
  pl_transactionId :: uuid
  pl_provider :: provider
  pl_providerRef :: "string option"
  pl_payload :: payload
  pl_status :: transaction_status
  pl_createdAt :: instant

record outbox_event =
  oe_id :: uuid
  oe_transactionId :: uuid
  eventType :: string
  oe_payload :: payload
  deliveredAt :: "instant option"
  retryCount :: nat
  oe_createdAt :: instant

record db =
  users :: "user list"
  refreshTokens :: "refresh_token list"
  wallets :: "wallet list"
  transactions :: "transaction list"
  ledgerEntries :: "ledger_entry list"
  paymentLogs :: "payment_log list"
  outboxEvents :: "outbox_event list"

definition empty_db :: db where
  "empty_db = \<lparr>users = [], refreshTokens = [], wallets = [], transactions = [],
     ledgerEntries = [], paymentLogs = [], outboxEvents = []\<rparr>"

section \<open>Text of enum values\<close>

text \<open>The enum members' string values, as template literals and JSON print them.\<close>

fun role_str :: "role \<Rightarrow> string" where
  "role_str USER = ''USER''"
| "role_str ADMIN = ''ADMIN''"

fun status_str :: "account_status \<Rightarrow> string" where
  "status_str ACTIVE = ''ACTIVE''"
| "status_str FROZEN = ''FROZEN''"
| "status_str SUSPENDED = ''SUSPENDED''"
| "status_str CLOSED = ''CLOSED''"

fun currency_str :: "currency \<Rightarrow> string" where
  "currency_str USD = ''USD''"
| "currency_str EUR = ''EUR''"
| "currency_str GBP = ''GBP''"

fun type_str :: "transaction_type \<Rightarrow> string" where
  "type_str DEPOSIT = ''DEPOSIT''"
| "type_str WITHDRAWAL = ''WITHDRAWAL''"
| "type_str TRANSFER = ''TRANSFER''"

fun provider_str :: "provider \<Rightarrow> string" where
  "provider_str STRIPE = ''STRIPE''"
| "provider_str PAYPAL = ''PAYPAL''"
| "provider_str INTERNAL = ''INTERNAL''"

section \<open>Strings\<close>

text \<open>\<open>toLowerCase\<close>, \<open>toUpperCase\<close> and \<open>trim\<close> on the ASCII characters the code's inputs use.\<close>

definition lower_char :: "char \<Rightarrow> char" where
  "lower_char c = (if CHR ''A'' \<le> c \<and> c \<le> CHR ''Z'' then char_of (of_char c + 32 :: nat) else c)"

definition upper_char :: "char \<Rightarrow> char" where
  "upper_char c = (if CHR ''a'' \<le> c \<and> c \<le> CHR ''z'' then char_of (of_char c - 32 :: nat) else c)"

definition toLowerCase :: "string \<Rightarrow> string" where
  "toLowerCase s = map lower_char s"

definition toUpperCase :: "string \<Rightarrow> string" where
  "toUpperCase s = map upper_char s"

definition is_space :: "char \<Rightarrow> bool" where
  "is_space c \<longleftrightarrow> c \<in> {CHR '' '', CHR 0x09, CHR 0x0A, CHR 0x0B, CHR 0x0C, CHR 0x0D}"

definition trim :: "string \<Rightarrow> string" where
  "trim s = rev (dropWhile is_space (rev (dropWhile is_space s)))"

fun str_includes :: "string \<Rightarrow> string \<Rightarrow> bool" where
  "str_includes s [] = True"
| "str_includes [] (c # cs) = False"
| "str_includes (x # xs) (c # cs) = (take (length (c # cs)) (x # xs) = c # cs \<or> str_includes xs (c # cs))"

lemma lower_char_idem [simp]: "lower_char (lower_char c) = lower_char c"
  by (cases "CHR ''A'' \<le> c \<and> c \<le> CHR ''Z''")
     (auto simp: lower_char_def less_eq_char_def)

lemma toLowerCase_idem [simp]: "toLowerCase (toLowerCase s) = toLowerCase s"
  by (simp add: toLowerCase_def comp_def)

lemma dropWhile_head: "dropWhile P xs = y # ys \<Longrightarrow> \<not> P y"
  by (induction xs) (auto split: if_splits)

lemma dropWhile_id: "xs = [] \<or> \<not> P (hd xs) \<Longrightarrow> dropWhile P xs = xs"
  by (cases xs) auto

lemma trim_idem [simp]: "trim (trim s) = trim s"
proof -
  let ?a = "dropWhile is_space s"
  let ?b = "dropWhile is_space (rev ?a)"
  have b: "dropWhile is_space ?b = ?b"
    by (simp add: dropWhile_idem)
  have "dropWhile is_space (rev ?b) = rev ?b"
  proof (cases "rev ?b = []")
    case False
    obtain p where p: "rev ?a = p @ ?b" by (metis takeWhile_dropWhile_id)
    then have ab: "?a = rev ?b @ rev p" by (metis rev_append rev_rev_ident)
    with False have "hd (rev ?b) = hd ?a" by (metis hd_append2)
    moreover have "?a \<noteq> []" using ab False by (metis append_is_Nil_conv)
    ultimately show ?thesis by (metis dropWhile_id hd_dropWhile)
  next
    case True
    show ?thesis by (simp only: True dropWhile.simps)
  qed
  then show ?thesis unfolding trim_def by (simp only: rev_rev_ident b)
qed

end
