(* ===== verification/World.thy ===== *)
theory World
  imports Schema
begin

text \<open>
  The world a method runs in: the database, the Redis keyspace, the clock, the supply of
  fresh ids, the audit trail, and the request context of the asynchronous local storage.
  A method runs at one clock reading; the clock moves between methods.
\<close>

section \<open>Audit events and request context\<close>

datatype audit_event =
    USER_REGISTERED | USER_LOGIN | LOGIN_BLOCKED_ACCOUNT | TOKEN_REFRESHED
  | SESSION_EVICTED | GRACE_PERIOD_REPLAYED | GRACE_PERIOD_CACHE_MISS
  | LOGOUT | LOGOUT_ALL
  | TOKEN_REUSE_DETECTED | LOGOUT_IDENTITY_MISMATCH | SESSION_HIJACKING_ATTEMPT
  | USER_PROFILE_UPDATED | USER_PASSWORD_CHANGED | USER_ACCOUNT_CLOSED
  | DEPOSIT_INITIATED | DEPOSIT_SETTLED | DEPOSIT_FAILED
  | WITHDRAWAL_INITIATED | WITHDRAWAL_SETTLED | WITHDRAWAL_FAILED
  | TRANSFER_INITIATED | TRANSFER_SETTLED | TRANSFER_FAILED
  | IDEMPOTENT_REPLAY
  | ADMIN_USER_STATUS_UPDATED
  | DENYLIST_FAILURE
  | STRIPE_CONNECT_ACCOUNT_CREATED | STRIPE_CONNECT_ONBOARDING_COMPLETED
  | STRIPE_CONNECT_ACCOUNT_DEAUTHORIZED

datatype log_level = LogLevel | WarnLevel | ErrorLevel

record audit_context =
  ac_userId :: "string option"
  ac_userAgent :: "string option"
  ac_meta :: payload

record request_context =
  rc_requestId :: string
  rc_ip :: string
  rc_userId :: "string option"
  rc_userAgent :: "string option"

record audit_record =
  ar_level :: log_level
  ar_event :: audit_event
  ar_requestId :: "string option"
  ar_userId :: "string option"
  ar_userAgent :: "string option"
  ar_ipAddress :: "string option"
  ar_timestamp :: instant
  ar_meta :: payload

section \<open>The world\<close>

text \<open>
  A Redis cell holds a value and, when it was written with \<open>EX\<close>, the instant it expires.
  \<open>redis_ok n\<close> says whether the \<open>n\<close>-th call to Redis succeeds: the code has a policy for
  a call that fails, and any pattern of failures is possible. \<open>wire\<close> is the list of requests
  sent to payment providers (the endpoint and the body); \<open>paypalToken\<close> is the in-process cache
  of the PayPal token client. \<open>decimal_text\<close> is the \<open>toString\<close> of the Decimal library, which is
  not code of the repository.
\<close>

record world =
  db :: db
  redis :: "string \<Rightarrow> (string \<times> instant option) option"
  redis_ok :: "nat \<Rightarrow> bool"
  redis_calls :: nat
  clock :: instant
  uuids :: "nat \<Rightarrow> uuid"
  uuid_next :: nat
  audits :: "audit_record list"
  wire :: "(string \<times> payload) list"
  paypalToken :: "(string \<times> instant) option"
  ctx :: "request_context option"
  decimal_text :: "decimal \<Rightarrow> string"

definition now :: "(world, instant) prog" where
  "now = getP clock"

definition decimal_toString :: "decimal \<Rightarrow> (world, string) prog" where
  "decimal_toString d = getP (\<lambda>w. decimal_text w d)"

lemma wp_decimal_toString [wp_simps]: "wp (decimal_toString d) Q E w = Q (decimal_text w d) w"
  by (simp add: decimal_toString_def wp_simps)

lemma wlp_decimal_toString [wlp_intros]: "Q (decimal_text w d) w \<Longrightarrow> wp (decimal_toString d) Q (\<lambda>_ _. True) w"
  by (simp add: wp_decimal_toString)

section \<open>Redis\<close>

definition redis_live :: "world \<Rightarrow> string \<Rightarrow> string option" where
  "redis_live w k = (case redis w k of
     None \<Rightarrow> None
   | Some (v, None) \<Rightarrow> Some v
   | Some (v, Some t) \<Rightarrow> (if clock w < t then Some v else None))"

definition redis_call :: "(world \<Rightarrow> 'a \<times> (string \<Rightarrow> (string \<times> instant option) option)) \<Rightarrow> (world, 'a) prog" where
  "redis_call f w =
     (let w' = w\<lparr>redis_calls := Suc (redis_calls w)\<rparr> in
      if redis_ok w (redis_calls w) then (Inr (fst (f w)), w'\<lparr>redis := snd (f w)\<rparr>)
      else (Inl (JsError ''redis unavailable''), w'))"

text \<open>\<open>SET key value EX ttl\<close>, \<open>SET ... NX\<close> (true when acquired), \<open>GET\<close> and \<open>DEL\<close>.\<close>

definition redis_set_ex :: "string \<Rightarrow> string \<Rightarrow> int \<Rightarrow> (world, unit) prog" where
  "redis_set_ex k v ttl = redis_call (\<lambda>w. ((), (redis w)(k \<mapsto> (v, Some (clock w + ttl * 1000)))))"

definition redis_set_nx :: "string \<Rightarrow> string \<Rightarrow> int \<Rightarrow> (world, bool) prog" where
  "redis_set_nx k v ttl = redis_call (\<lambda>w.
     if redis_live w k = None then (True, (redis w)(k \<mapsto> (v, Some (clock w + ttl * 1000))))
     else (False, redis w))"

definition redis_get :: "string \<Rightarrow> (world, string option) prog" where
  "redis_get k = redis_call (\<lambda>w. (redis_live w k, redis w))"

definition redis_del :: "string \<Rightarrow> (world, unit) prog" where
  "redis_del k = redis_call (\<lambda>w. ((), (redis w)(k := None)))"

lemma wp_redis_call [wp_simps]:
  "wp (redis_call f) Q E w =
     (if redis_ok w (redis_calls w)
      then Q (fst (f w)) (w\<lparr>redis_calls := Suc (redis_calls w), redis := snd (f w)\<rparr>)
      else E (JsError ''redis unavailable'') (w\<lparr>redis_calls := Suc (redis_calls w)\<rparr>))"
  by (simp add: wp_def redis_call_def Let_def)

lemmas redis_ops = redis_set_ex_def redis_set_nx_def redis_get_def redis_del_def

section \<open>Prisma transactions\<close>

text \<open>
  \<open>prisma.$transaction\<close>: the callback's database writes are kept when it returns and
  undone when it throws. Everything else the callback did (an audit line, a Redis call,
  a consumed id) stays.
\<close>

definition withTransaction :: "(world, 'a) prog \<Rightarrow> (world, 'a) prog" where
  "withTransaction m w = (case m w of
     (Inr a, w') \<Rightarrow> (Inr a, w')
   | (Inl e, w') \<Rightarrow> (Inl e, w'\<lparr>db := db w\<rparr>))"

lemma wp_withTransaction [wp_simps]:
  "wp (withTransaction m) Q E w = wp m Q (\<lambda>e w'. E e (w'\<lparr>db := db w\<rparr>)) w"
  by (simp add: wp_def withTransaction_def split: prod.splits sum.splits)

lemma wp_now [wp_simps]: "wp now Q E w = Q (clock w) w"
  by (simp add: now_def wp_getP)

section \<open>Effect orders used throughout\<close>

text \<open>A method that only touches the database rolls back to exactly the old database.\<close>

definition same_db :: "world \<Rightarrow> world \<Rightarrow> bool" where
  "same_db w w' \<longleftrightarrow> db w' = db w"

definition same_env :: "world \<Rightarrow> world \<Rightarrow> bool" where
  "same_env w w' \<longleftrightarrow> clock w' = clock w \<and> uuids w' = uuids w \<and> redis_ok w' = redis_ok w
     \<and> ctx w' = ctx w \<and> uuid_next w \<le> uuid_next w' \<and> (\<exists>tr. audits w' = audits w @ tr)"

definition same_redis :: "world \<Rightarrow> world \<Rightarrow> bool" where
  "same_redis w w' \<longleftrightarrow> redis w' = redis w \<and> redis_calls w' = redis_calls w"

interpretation sdb: effect_order same_db
  by unfold_locales (auto simp: same_db_def)

interpretation senv: effect_order same_env
  by unfold_locales (auto simp: same_env_def)

interpretation sredis: effect_order same_redis
  by unfold_locales (auto simp: same_redis_def)

lemma within_withTransaction:
  assumes "within R m" and "\<And>w w'. R w w' \<Longrightarrow> R w (w'\<lparr>db := db w\<rparr>)"
  shows "within R (withTransaction m)"
proof (rule within_wpI)
  fix w
  have "wp m (\<lambda>_. R w) (\<lambda>_. R w) w" by (rule wp_withinI [OF assms(1)])
  then show "wp (withTransaction m) (\<lambda>_. R w) (\<lambda>_. R w) w"
    unfolding wp_withTransaction by (rule wp_mono) (simp_all add: assms(2))
qed

lemma withTransaction_throws_same_db: "withTransaction m w = (Inl e, w') \<Longrightarrow> db w' = db w"
  by (auto simp: withTransaction_def split: prod.splits sum.splits)

end
