(* ===== verification/Store.thy ===== *)
theory Store
  imports World
begin

text \<open>
  The Prisma model delegates (\<open>prisma.wallet\<close>, \<open>tx.transaction\<close>, ...) over the tables of
  the database: \<open>findUnique\<close>/\<open>findFirst\<close>, \<open>findMany\<close>, \<open>count\<close>, \<open>create\<close>, \<open>update\<close> and
  \<open>updateMany\<close>, with the constraints the schema declares: unique columns (P2002), foreign
  keys (P2003), a missing row on update (P2025), a decimal out of range (P2020), the
  \<open>@default(uuid())\<close>/\<open>@default(now())\<close> columns and the \<open>@updatedAt\<close> stamp. The locale
  \<open>table_laws\<close> states what a delegate promises and derives what the repositories rely on;
  it is interpreted for the seven tables.
\<close>

section \<open>Table descriptors\<close>

record 'r table =
  t_get :: "db \<Rightarrow> 'r list"
  t_put :: "'r list \<Rightarrow> db \<Rightarrow> db"
  t_id :: "'r \<Rightarrow> uuid"
  t_unique :: "(string \<times> ('r \<Rightarrow> string option)) list"
  t_fits :: "'r \<Rightarrow> bool"
  t_refs :: "db \<Rightarrow> 'r \<Rightarrow> bool"
  t_touch :: "instant \<Rightarrow> 'r \<Rightarrow> 'r"

definition has_user :: "db \<Rightarrow> uuid \<Rightarrow> bool" where
  "has_user d i \<longleftrightarrow> list_ex (\<lambda>u. u_id u = i) (users d)"

definition has_wallet :: "db \<Rightarrow> uuid \<Rightarrow> bool" where
  "has_wallet d i \<longleftrightarrow> list_ex (\<lambda>x. w_id x = i) (wallets d)"

definition has_transaction :: "db \<Rightarrow> uuid \<Rightarrow> bool" where
  "has_transaction d i \<longleftrightarrow> list_ex (\<lambda>t. tx_id t = i) (transactions d)"

definition users_t :: "user table" where
  "users_t = \<lparr>t_get = users, t_put = (\<lambda>rs d. d\<lparr>users := rs\<rparr>), t_id = u_id,
     t_unique = [(''id'', Some \<circ> u_id), (''email'', Some \<circ> u_email), (''phone'', Some \<circ> u_phone),
       (''braintreeCustomerId'', braintreeCustomerId),
       (''stripeConnectAccountId'', stripeConnectAccountId), (''paypalEmail'', paypalEmail)],
     t_fits = (\<lambda>_. True), t_refs = (\<lambda>_ _. True),
     t_touch = (\<lambda>t u. u\<lparr>u_updatedAt := t\<rparr>)\<rparr>"

definition refreshTokens_t :: "refresh_token table" where
  "refreshTokens_t = \<lparr>t_get = refreshTokens, t_put = (\<lambda>rs d. d\<lparr>refreshTokens := rs\<rparr>), t_id = rt_id,
     t_unique = [(''id'', Some \<circ> rt_id), (''tokenHash'', Some \<circ> tokenHash)],
     t_fits = (\<lambda>_. True), t_refs = (\<lambda>d r. has_user d (rt_userId r)),
     t_touch = (\<lambda>_ r. r)\<rparr>"

definition wallets_t :: "wallet table" where
  "wallets_t = \<lparr>t_get = wallets, t_put = (\<lambda>rs d. d\<lparr>wallets := rs\<rparr>), t_id = w_id,
     t_unique = [(''id'', Some \<circ> w_id), (''userId'', Some \<circ> w_userId)],
     t_fits = (\<lambda>x. decimal_fits (availableBalance x) \<and> decimal_fits (lockedBalance x)
       \<and> decimal_fits (pendingBalance x)),
     t_refs = (\<lambda>d x. has_user d (w_userId x)),
     t_touch = (\<lambda>t x. x\<lparr>w_updatedAt := t\<rparr>)\<rparr>"

definition transactions_t :: "transaction table" where
  "transactions_t = \<lparr>t_get = transactions, t_put = (\<lambda>rs d. d\<lparr>transactions := rs\<rparr>), t_id = tx_id,
     t_unique = [(''id'', Some \<circ> tx_id), (''idempotencyKey'', Some \<circ> idempotencyKey)],
     t_fits = (\<lambda>t. decimal_fits (tx_amount t)),
     t_refs = (\<lambda>d t. (case senderWalletId t of None \<Rightarrow> True | Some i \<Rightarrow> has_wallet d i)
       \<and> (case receiverWalletId t of None \<Rightarrow> True | Some i \<Rightarrow> has_wallet d i)),
     t_touch = (\<lambda>c t. t\<lparr>tx_updatedAt := c\<rparr>)\<rparr>"

definition ledgerEntries_t :: "ledger_entry table" where
  "ledgerEntries_t = \<lparr>t_get = ledgerEntries, t_put = (\<lambda>rs d. d\<lparr>ledgerEntries := rs\<rparr>), t_id = le_id,
     t_unique = [(''id'', Some \<circ> le_id)],
     t_fits = (\<lambda>e. decimal_fits (le_amount e) \<and> decimal_fits (balanceAfter e)),
     t_refs = (\<lambda>d e. has_wallet d (le_walletId e) \<and> has_transaction d (le_transactionId e)),
     t_touch = (\<lambda>_ e. e)\<rparr>"

definition paymentLogs_t :: "payment_log table" where
  "paymentLogs_t = \<lparr>t_get = paymentLogs, t_put = (\<lambda>rs d. d\<lparr>paymentLogs := rs\<rparr>), t_id = pl_id,
     t_unique = [(''id'', Some \<circ> pl_id), (''transactionId'', Some \<circ> pl_transactionId)],
     t_fits = (\<lambda>_. True), t_refs = (\<lambda>d p. has_transaction d (pl_transactionId p)),
     t_touch = (\<lambda>_ p. p)\<rparr>"

definition outboxEvents_t :: "outbox_event table" where
  "outboxEvents_t = \<lparr>t_get = outboxEvents, t_put = (\<lambda>rs d. d\<lparr>outboxEvents := rs\<rparr>), t_id = oe_id,
     t_unique = [(''id'', Some \<circ> oe_id)],
     t_fits = (\<lambda>_. True), t_refs = (\<lambda>d e. has_transaction d (oe_transactionId e)),
     t_touch = (\<lambda>_ e. e)\<rparr>"

lemmas table_defs = users_t_def refreshTokens_t_def wallets_t_def transactions_t_def
  ledgerEntries_t_def paymentLogs_t_def outboxEvents_t_def

section \<open>Delegate operations\<close>

definition t_find :: "'r table \<Rightarrow> ('r \<Rightarrow> bool) \<Rightarrow> (world, 'r option) prog" where
  "t_find T P = getP (\<lambda>w. find P (t_get T (db w)))"

definition t_filter :: "'r table \<Rightarrow> ('r \<Rightarrow> bool) \<Rightarrow> (world, 'r list) prog" where
  "t_filter T P = getP (\<lambda>w. filter P (t_get T (db w)))"

definition t_count :: "'r table \<Rightarrow> ('r \<Rightarrow> bool) \<Rightarrow> (world, nat) prog" where
  "t_count T P = getP (\<lambda>w. length (filter P (t_get T (db w))))"

text \<open>The first unique column of a new row whose value another row already holds.\<close>

definition violated :: "(string \<times> ('r \<Rightarrow> string option)) list \<Rightarrow> 'r \<Rightarrow> 'r list \<Rightarrow> string option" where
  "violated us r rows = map_option fst (find (\<lambda>(_, k). k r \<noteq> None \<and> list_ex (\<lambda>x. k x = k r) rows) us)"

definition t_create :: "'r table \<Rightarrow> (uuid \<Rightarrow> instant \<Rightarrow> 'r) \<Rightarrow> (world, 'r) prog" where
  "t_create T mk w =
     (let r = mk (uuids w (uuid_next w)) (clock w);
          w' = w\<lparr>uuid_next := Suc (uuid_next w)\<rparr>
      in if \<not> t_fits T r then (Inl (PrismaKnown ''P2020'' []), w')
         else (case violated (t_unique T) r (t_get T (db w)) of
           Some c \<Rightarrow> (Inl (PrismaKnown ''P2002'' [c]), w')
         | None \<Rightarrow>
             if t_refs T (db w) r
             then (Inr r, w'\<lparr>db := t_put T (t_get T (db w) @ [r]) (db w)\<rparr>)
             else (Inl (PrismaKnown ''P2003'' []), w')))"

text \<open>
  An update only rechecks the unique columns it changes, against the rows it leaves alone.
\<close>

definition t_update :: "'r table \<Rightarrow> ('r \<Rightarrow> bool) \<Rightarrow> ('r \<Rightarrow> 'r) \<Rightarrow> (world, 'r) prog" where
  "t_update T P f w =
     (case find P (t_get T (db w)) of
        None \<Rightarrow> (Inl (PrismaKnown ''P2025'' []), w)
      | Some r \<Rightarrow>
          let g = (\<lambda>x. t_touch T (clock w) (f x)) in
          if \<not> t_fits T (g r) then (Inl (PrismaKnown ''P2020'' []), w)
          else (case violated (filter (\<lambda>(_, k). k (g r) \<noteq> k r) (t_unique T)) (g r)
                       (filter (\<lambda>x. \<not> P x) (t_get T (db w))) of
            Some c \<Rightarrow> (Inl (PrismaKnown ''P2002'' [c]), w)
          | None \<Rightarrow> (Inr (g r),
              w\<lparr>db := t_put T (map (\<lambda>x. if P x then g x else x) (t_get T (db w))) (db w)\<rparr>)))"

definition t_updateMany :: "'r table \<Rightarrow> ('r \<Rightarrow> bool) \<Rightarrow> ('r \<Rightarrow> 'r) \<Rightarrow> (world, nat) prog" where
  "t_updateMany T P f w =
     (Inr (length (filter P (t_get T (db w)))),
      w\<lparr>db := t_put T (map (\<lambda>x. if P x then t_touch T (clock w) (f x) else x) (t_get T (db w))) (db w)\<rparr>)"

lemma wp_t_find [wp_simps]: "wp (t_find T P) Q E w = Q (find P (t_get T (db w))) w"
  by (simp add: t_find_def wp_getP)

lemma wp_t_filter [wp_simps]: "wp (t_filter T P) Q E w = Q (filter P (t_get T (db w))) w"
  by (simp add: t_filter_def wp_getP)

lemma wp_t_count [wp_simps]: "wp (t_count T P) Q E w = Q (length (filter P (t_get T (db w)))) w"
  by (simp add: t_count_def wp_getP)

lemma wp_t_updateMany [wp_simps]:
  "wp (t_updateMany T P f) Q E w =
     Q (length (filter P (t_get T (db w))))
       (w\<lparr>db := t_put T (map (\<lambda>x. if P x then t_touch T (clock w) (f x) else x) (t_get T (db w))) (db w)\<rparr>)"
  by (simp add: wp_def t_updateMany_def)

text \<open>
  The rules for \<open>create\<close> and \<open>update\<close> leave the case distinction to the caller: the
  successful row and the world on success, the error otherwise.
\<close>

lemma wp_t_create [wp_simps]:
  "wp (t_create T mk) Q E w =
     (let r = mk (uuids w (uuid_next w)) (clock w); w' = w\<lparr>uuid_next := Suc (uuid_next w)\<rparr> in
      if \<not> t_fits T r then E (PrismaKnown ''P2020'' []) w'
      else (case violated (t_unique T) r (t_get T (db w)) of
        Some c \<Rightarrow> E (PrismaKnown ''P2002'' [c]) w'
      | None \<Rightarrow> if t_refs T (db w) r then Q r (w'\<lparr>db := t_put T (t_get T (db w) @ [r]) (db w)\<rparr>)
                else E (PrismaKnown ''P2003'' []) w'))"
  by (simp add: wp_def t_create_def Let_def split: option.splits)

lemma wp_t_update [wp_simps]:
  "wp (t_update T P f) Q E w =
     (case find P (t_get T (db w)) of
        None \<Rightarrow> E (PrismaKnown ''P2025'' []) w
      | Some r \<Rightarrow>
          let g = (\<lambda>x. t_touch T (clock w) (f x)) in
          if \<not> t_fits T (g r) then E (PrismaKnown ''P2020'' []) w
          else (case violated (filter (\<lambda>(_, k). k (g r) \<noteq> k r) (t_unique T)) (g r)
                       (filter (\<lambda>x. \<not> P x) (t_get T (db w))) of
            Some c \<Rightarrow> E (PrismaKnown ''P2002'' [c]) w
          | None \<Rightarrow> Q (g r)
              (w\<lparr>db := t_put T (map (\<lambda>x. if P x then g x else x) (t_get T (db w))) (db w)\<rparr>)))"
  by (simp add: wp_def t_update_def Let_def split: option.splits)

lemma violated_Nil [simp]: "violated [] r rows = None"
  by (simp add: violated_def)

lemma violated_Cons [simp]:
  "violated ((n, k) # us) r rows =
     (if k r \<noteq> None \<and> list_ex (\<lambda>x. k x = k r) rows then Some n else violated us r rows)"
  by (simp add: violated_def)

lemma violated_NoneD:
  assumes "violated us r rows = None" and "(n, k) \<in> set us" and "x \<in> set rows" and "k r \<noteq> None"
  shows "k x \<noteq> k r"
proof -
  from assms(1) have "\<forall>p \<in> set us. \<not> (case p of (_, k) \<Rightarrow> k r \<noteq> None \<and> list_ex (\<lambda>x. k x = k r) rows)"
    by (simp add: violated_def find_None_iff_all)
  with assms(2-4) show ?thesis by (auto simp: list_ex_iff dest!: bspec)
qed

section \<open>What a delegate promises\<close>

text \<open>
  \<open>unique_rows T d\<close>: no two rows of the table share a value in a unique column. The
  database enforces it, and the lemmas of the locale show that every write keeps it.
\<close>

definition unique_col :: "('r \<Rightarrow> string option) \<Rightarrow> 'r list \<Rightarrow> bool" where
  "unique_col k rows \<longleftrightarrow> distinct (map k (filter (\<lambda>r. k r \<noteq> None) rows))"

definition unique_rows :: "'r table \<Rightarrow> db \<Rightarrow> bool" where
  "unique_rows T d \<longleftrightarrow> (\<forall>(n, k) \<in> set (t_unique T). unique_col k (t_get T d))"

lemma unique_colD: "unique_col k rows \<Longrightarrow> x \<in> set rows \<Longrightarrow> y \<in> set rows \<Longrightarrow> k x = k y \<Longrightarrow> k x \<noteq> None \<Longrightarrow> x = y"
  by (auto simp: unique_col_def distinct_map inj_on_def)

lemma unique_col_snoc:
  "unique_col k rows \<Longrightarrow> \<not> (k r \<noteq> None \<and> list_ex (\<lambda>x. k x = k r) rows) \<Longrightarrow> unique_col k (rows @ [r])"
  by (auto simp: unique_col_def list_ex_iff)

lemma unique_col_keep:
  assumes "unique_col k rows" and "\<And>x. x \<in> set rows \<Longrightarrow> k (g x) = k x"
  shows "unique_col k (map g rows)"
proof -
  have "map k (filter (\<lambda>r. k r \<noteq> None) (map g rows)) = map k (filter (\<lambda>r. k r \<noteq> None) rows)"
    using assms(2) by (induction rows) auto
  with assms(1) show ?thesis by (simp add: unique_col_def)
qed

text \<open>Changing one row, to a value no other row has.\<close>

lemma unique_col_change:
  assumes "unique_col k rows" and "P r" and "r \<in> set rows"
    and "\<And>x. x \<in> set rows \<Longrightarrow> P x \<Longrightarrow> x = r" and "distinct rows"
    and "\<And>x. x \<in> set rows \<Longrightarrow> \<not> P x \<Longrightarrow> k (g r) \<noteq> None \<Longrightarrow> k x \<noteq> k (g r)"
  shows "unique_col k (map (\<lambda>x. if P x then g x else x) rows)"
proof -
  obtain xs ys where rows: "rows = xs @ r # ys" by (meson assms(3) split_list)
  with assms(4,5) have np: "\<And>x. x \<in> set xs \<union> set ys \<Longrightarrow> \<not> P x" by auto
  then have m: "map (\<lambda>x. if P x then g x else x) rows = xs @ g r # ys"
    using assms(2) rows by (auto intro!: map_idI)
  have old: "distinct (map k (filter (\<lambda>r. k r \<noteq> None) (xs @ ys)))"
    using assms(1) rows by (cases "k r") (auto simp: unique_col_def)
  have "\<And>x. x \<in> set xs \<union> set ys \<Longrightarrow> k (g r) \<noteq> None \<Longrightarrow> k x \<noteq> k (g r)"
    using assms(6) np rows by auto
  then show ?thesis unfolding m using old by (auto simp: unique_col_def)
qed

locale table_laws =
  fixes T :: "'r table"
  assumes get_put: "t_get T (t_put T rs d) = rs"
    and put_get: "t_put T (t_get T d) d = d"
    and put_put: "t_put T rs (t_put T rs' d) = t_put T rs d"
    and id_unique: "(''id'', Some \<circ> t_id T) \<in> set (t_unique T)"
    and touch_unique: "(n, k) \<in> set (t_unique T) \<Longrightarrow> k (t_touch T c r) = k r"
begin

lemma unique_ids: "unique_rows T d \<Longrightarrow> distinct (map (t_id T) (t_get T d))"
  using id_unique by (force simp: unique_rows_def unique_col_def comp_def distinct_map inj_on_def)

lemma create_appends:
  "t_create T mk w = (Inr r, w') \<Longrightarrow> t_get T (db w') = t_get T (db w) @ [r] \<and> r = mk (uuids w (uuid_next w)) (clock w)"
  by (auto simp: t_create_def Let_def get_put split: if_splits option.splits)

lemma create_findable:
  assumes "t_create T mk w = (Inr r, w')" and "P r" and "find P (t_get T (db w)) = None"
  shows "find P (t_get T (db w')) = Some r"
  using create_appends [OF assms(1)] assms(2,3) by (simp add: find_append)

lemma create_throws_same_db: "t_create T mk w = (Inl e, w') \<Longrightarrow> db w' = db w"
  by (auto simp: t_create_def Let_def split: if_splits option.splits)

lemma update_throws_same_db: "t_update T P f w = (Inl e, w') \<Longrightarrow> w' = w"
  by (auto simp: t_update_def Let_def split: if_splits option.splits)

lemma create_keeps_unique: "within (keeps_rel (\<lambda>w. unique_rows T (db w))) (t_create T mk)"
proof (rule within_returnsD, unfold keeps_rel_def, rule impI)
  fix w :: world
  assume u: "unique_rows T (db w)"
  obtain res w' where run: "t_create T mk w = (res, w')" by (cases "t_create T mk w")
  show "unique_rows T (db (snd (t_create T mk w)))"
  proof (cases res)
    case (Inl e)
    with run create_throws_same_db u show ?thesis by simp
  next
    case (Inr r)
    with run have ap: "t_get T (db w') = t_get T (db w) @ [r]" using create_appends by blast
    from run Inr have nv: "violated (t_unique T) r (t_get T (db w)) = None"
      by (auto simp: t_create_def Let_def split: if_splits option.splits)
    have "unique_col k (t_get T (db w) @ [r])" if "(n, k) \<in> set (t_unique T)" for n k
    proof (rule unique_col_snoc)
      show "unique_col k (t_get T (db w))" using u that by (auto simp: unique_rows_def)
      show "\<not> (k r \<noteq> None \<and> list_ex (\<lambda>x. k x = k r) (t_get T (db w)))"
        using violated_NoneD [OF nv that] by (auto simp: list_ex_iff)
    qed
    with run ap show ?thesis by (auto simp: unique_rows_def)
  qed
qed

text \<open>An update selected by a unique column touches at most one row, and keeps uniqueness.\<close>

lemma update_keeps_unique:
  assumes sel: "(n0, k0) \<in> set (t_unique T)" "\<And>x. P x \<Longrightarrow> k0 x = Some v"
  shows "within (keeps_rel (\<lambda>w. unique_rows T (db w))) (t_update T P f)"
proof (rule within_returnsD, unfold keeps_rel_def, rule impI)
  fix w :: world
  assume u: "unique_rows T (db w)"
  let ?rows = "t_get T (db w)" and ?g = "\<lambda>x. t_touch T (clock w) (f x)"
  obtain res w' where run: "t_update T P f w = (res, w')" by (cases "t_update T P f w")
  show "unique_rows T (db (snd (t_update T P f w)))"
  proof (cases res)
    case (Inl e)
    with run update_throws_same_db u show ?thesis by fastforce
  next
    case (Inr r')
    with run obtain r where r: "find P ?rows = Some r"
      and nv: "violated (filter (\<lambda>(_, k). k (?g r) \<noteq> k r) (t_unique T)) (?g r) (filter (\<lambda>x. \<not> P x) ?rows) = None"
      and w': "t_get T (db w') = map (\<lambda>x. if P x then ?g x else x) ?rows"
      by (auto simp: t_update_def Let_def get_put split: if_splits option.splits)
    from r have Pr: "P r" and rin: "r \<in> set ?rows" by (auto dest: find_Some_iff_hd)
    have k0: "unique_col k0 ?rows" using u sel(1) by (auto simp: unique_rows_def)
    have one: "x = r" if "x \<in> set ?rows" "P x" for x
      using unique_colD [OF k0 that(1) rin] sel(2) [OF that(2)] sel(2) [OF Pr] by simp
    have dist: "distinct ?rows" using unique_ids [OF u] by (simp add: distinct_map)
    have "unique_col k (map (\<lambda>x. if P x then ?g x else x) ?rows)" if k: "(n, k) \<in> set (t_unique T)" for n k
    proof (rule unique_col_change [where P = P and r = r])
      show uk: "unique_col k ?rows" using u k by (auto simp: unique_rows_def)
      show "P r" "r \<in> set ?rows" "distinct ?rows" by fact+
      show "x = r" if "x \<in> set ?rows" "P x" for x using that by (rule one)
      fix x assume x: "x \<in> set ?rows" "\<not> P x" and some: "k (?g r) \<noteq> None"
      show "k x \<noteq> k (?g r)"
      proof (cases "k (?g r) = k r")
        case True
        with some x Pr unique_colD [OF uk x(1) rin] show ?thesis by auto
      next
        case False
        with k some x show ?thesis by (intro violated_NoneD [OF nv, of n]) auto
      qed
    qed
    with run w' show ?thesis by (auto simp: unique_rows_def)
  qed
qed

end

interpretation users: table_laws users_t
  by unfold_locales (auto simp: users_t_def)

interpretation refreshTokens: table_laws refreshTokens_t
  by unfold_locales (auto simp: refreshTokens_t_def)

interpretation wallets: table_laws wallets_t
  by unfold_locales (auto simp: wallets_t_def)

interpretation transactions: table_laws transactions_t
  by unfold_locales (auto simp: transactions_t_def)

interpretation ledgerEntries: table_laws ledgerEntries_t
  by unfold_locales (auto simp: ledgerEntries_t_def)

interpretation paymentLogs: table_laws paymentLogs_t
  by unfold_locales (auto simp: paymentLogs_t_def)

interpretation outboxEvents: table_laws outboxEvents_t
  by unfold_locales (auto simp: outboxEvents_t_def)

end
