(* ===== verification/Audit_Log.thy ===== *)
theory Audit_Log
  imports Store
begin

text \<open>
  The structured audit logger (\<open>common/audit\<close>): every line combines the request context
  of the asynchronous local storage with the caller's metadata, the context winning.
  Lines are appended to the world's audit trail; they are not part of any database
  transaction.
\<close>

definition getContext :: "world \<Rightarrow> request_context option" where
  "getContext w = ctx w"

text \<open>JavaScript's \<open>a ?? b\<close> on possibly absent values.\<close>

definition nullish :: "'a option \<Rightarrow> 'a option \<Rightarrow> 'a option" where
  "nullish a b = (case a of None \<Rightarrow> b | Some x \<Rightarrow> Some x)"

definition serialize :: "log_level \<Rightarrow> audit_event \<Rightarrow> request_context option \<Rightarrow> audit_context \<Rightarrow> instant \<Rightarrow> audit_record" where
  "serialize lvl event c metadata t =
     \<lparr>ar_level = lvl, ar_event = event,
      ar_requestId = map_option rc_requestId c,
      ar_userId = nullish (Option.bind c rc_userId) (ac_userId metadata),
      ar_userAgent = nullish (Option.bind c rc_userAgent) (ac_userAgent metadata),
      ar_ipAddress = map_option rc_ip c,
      ar_timestamp = t,
      ar_meta = ac_meta metadata\<rparr>"

definition audit_emit :: "log_level \<Rightarrow> audit_event \<Rightarrow> audit_context \<Rightarrow> (world, unit) prog" where
  "audit_emit lvl event metadata =
     modP (\<lambda>w. w\<lparr>audits := audits w @ [serialize lvl event (getContext w) metadata (clock w)]\<rparr>)"

definition audit_log :: "audit_event \<Rightarrow> audit_context \<Rightarrow> (world, unit) prog" where
  "audit_log = audit_emit LogLevel"

definition audit_warn :: "audit_event \<Rightarrow> audit_context \<Rightarrow> (world, unit) prog" where
  "audit_warn = audit_emit WarnLevel"

definition audit_error :: "audit_event \<Rightarrow> audit_context \<Rightarrow> (world, unit) prog" where
  "audit_error = audit_emit ErrorLevel"

lemma wp_audit_emit [wp_simps]:
  "wp (audit_emit lvl ev m) Q E =
     (\<lambda>w. Q () (w\<lparr>audits := audits w @ [serialize lvl ev (getContext w) m (clock w)]\<rparr>))"
  by (rule ext) (simp add: audit_emit_def wp_modP)

lemmas wp_audit [wp_simps] =
  wp_audit_emit [of LogLevel, folded audit_log_def]
  wp_audit_emit [of WarnLevel, folded audit_warn_def]
  wp_audit_emit [of ErrorLevel, folded audit_error_def]

lemma audit_same_db:
  "within same_db (audit_log ev m)" "within same_db (audit_warn ev m)" "within same_db (audit_error ev m)"
  by (auto intro!: within_wpI simp: wp_simps same_db_def)

text \<open>The user an audit line names is the authenticated user of the request, when there is one.\<close>

lemma serialize_prefers_context:
  "c = Some r \<Longrightarrow> rc_userId r = Some u \<Longrightarrow> ar_userId (serialize lvl ev c m t) = Some u"
  by (simp add: serialize_def nullish_def)

lemma serialize_falls_back:
  "Option.bind c rc_userId = None \<Longrightarrow> ar_userId (serialize lvl ev c m t) = ac_userId m"
  by (simp add: serialize_def nullish_def)

end
