(* ===== verification/Decimal.thy ===== *)
theory Decimal
  imports Schema
begin

text \<open>
  Amounts as text: the digits of a number, \<open>String(x)\<close> of a JavaScript number
  (\<open>number_str\<close>) and the two-place string of the wallet API (\<open>serializeDecimal\<close>), with
  how much the latter keeps of the amount. What \<open>Decimal.toString()\<close> prints is up to the
  library and a parameter of the world (\<open>decimal_text\<close>); the NUMERIC columns a raw query
  reads are never looked at as text (\<open>Wallet_Repo\<close>).
\<close>

section \<open>Digits\<close>

definition digit :: "nat \<Rightarrow> char" where
  "digit n = char_of (48 + n)"

definition undigit :: "char \<Rightarrow> nat" where
  "undigit c = of_char c - 48"

definition is_digit :: "char \<Rightarrow> bool" where
  "is_digit c \<longleftrightarrow> 48 \<le> (of_char c :: nat) \<and> (of_char c :: nat) \<le> 57"

fun nat_str :: "nat \<Rightarrow> string" where
  "nat_str n = (if n < 10 then [digit n] else nat_str (n div 10) @ [digit (n mod 10)])"

declare nat_str.simps [simp del]

definition nat_val :: "string \<Rightarrow> nat" where
  "nat_val s = foldl (\<lambda>a c. a * 10 + undigit c) 0 s"

lemma of_char_digit: "n < 10 \<Longrightarrow> (of_char (digit n) :: nat) = 48 + n"
  by (simp add: digit_def)

lemma undigit_digit [simp]: "n < 10 \<Longrightarrow> undigit (digit n) = n"
  by (simp add: undigit_def of_char_digit)

lemma is_digit_digit [simp]: "n < 10 \<Longrightarrow> is_digit (digit n)"
  by (simp add: is_digit_def of_char_digit)

lemma digit_neq_dot [simp]: "n < 10 \<Longrightarrow> digit n \<noteq> CHR ''.''"
proof
  assume n: "n < 10" and "digit n = CHR ''.''"
  then have "(of_char (digit n) :: nat) = of_char (CHR ''.'')" by simp
  then show False using n by (simp add: of_char_digit)
qed

lemma is_digit_neq: "is_digit c \<Longrightarrow> c \<noteq> CHR ''.''" "is_digit c \<Longrightarrow> c \<noteq> CHR ''-''"
  by (auto simp: is_digit_def)

lemma nat_str_digits: "list_all is_digit (nat_str n)"
proof (induction n rule: nat_str.induct)
  case (1 n)
  then show ?case by (subst nat_str.simps) auto
qed

lemma nat_str_nonempty [simp]: "nat_str n \<noteq> []"
  by (subst nat_str.simps) simp

lemma nat_val_snoc [simp]: "nat_val (s @ [c]) = nat_val s * 10 + undigit c"
  by (simp add: nat_val_def)

lemma nat_val_Nil [simp]: "nat_val [] = 0"
  by (simp add: nat_val_def)

lemma nat_val_nat_str [simp]: "nat_val (nat_str n) = n"
proof (induction n rule: nat_str.induct)
  case (1 n)
  show ?case
  proof (cases "n < 10")
    case True
    then show ?thesis by (subst nat_str.simps) (simp add: nat_val_def)
  next
    case False
    with 1 show ?thesis by (subst nat_str.simps) simp
  qed
qed

section \<open>Printing\<close>

text \<open>The four digits after the point.\<close>

definition frac4 :: "nat \<Rightarrow> string" where
  "frac4 n = [digit (n div 1000 mod 10), digit (n div 100 mod 10), digit (n div 10 mod 10), digit (n mod 10)]"

definition sign_str :: "decimal \<Rightarrow> string" where
  "sign_str d = (if d < 0 then ''-'' else '''')"

definition strip_zeros :: "string \<Rightarrow> string" where
  "strip_zeros s = rev (dropWhile (\<lambda>c. c = CHR ''0'') (rev s))"

text \<open>\<open>String(x)\<close> of a number with at most four decimals, below the range that prints an exponent.\<close>

definition number_str :: "decimal \<Rightarrow> string" where
  "number_str d = sign_str d @ nat_str (nat \<bar>d\<bar> div 10000) @
     (let f = strip_zeros (frac4 (nat \<bar>d\<bar> mod 10000)) in if f = [] then [] else CHR ''.'' # f)"

text \<open>\<open>Decimal.toFixed(2)\<close>: rounded half away from zero.\<close>

definition cents :: "decimal \<Rightarrow> nat" where
  "cents d = (nat \<bar>d\<bar> + 50) div 100"

definition serializeDecimal :: "decimal \<Rightarrow> string" where
  "serializeDecimal d = sign_str d @ nat_str (cents d div 100) @ ''.'' @
     [digit (cents d div 10 mod 10), digit (cents d mod 10)]"

section \<open>The two places kept\<close>

text \<open>The API string is off by at most half a cent, and exact for whole cents.\<close>

lemma round_near: "\<bar>int ((n + 50) div 100 * 100) - int n\<bar> \<le> 50"
proof -
  obtain q r where qr: "n + 50 = q * 100 + r" "r < 100" "(n + 50) div 100 = q"
    by (metis div_mult_mod_eq mod_less_divisor zero_less_numeral)
  then show ?thesis by simp
qed

lemma cents_near: "\<bar>int (cents d * 100) - \<bar>d\<bar>\<bar> \<le> 50"
  using round_near [of "nat \<bar>d\<bar>"] by (simp add: cents_def)

lemma cents_exact:
  assumes "100 dvd d"
  shows "int (cents d * 100) = \<bar>d\<bar>"
proof -
  obtain k where d: "d = 100 * k" using assms by (elim dvdE)
  then have "nat \<bar>d\<bar> = 100 * nat \<bar>k\<bar>" by (simp add: abs_mult nat_mult_distrib)
  then have "cents d = nat \<bar>k\<bar>" unfolding cents_def by simp
  with d show ?thesis by (simp add: abs_mult)
qed

lemma frac4_digits: "list_all is_digit (frac4 n)"
  by (simp add: frac4_def)

end
