(* ===== verification/Wallet_Repo.thy ===== *)
theory Wallet_Repo
  imports Audit_Log Decimal
begin

text \<open>
  \<open>wallet/wallet.repository.ts\<close>, the part the money paths use: the wallet look-ups, the
  pessimistic lock with its coercion of the driver's NUMERIC strings, the guards on the
  locked snapshot, and the six balance mutations. The locale \<open>wallet_mutation\<close> is the
  contract the mutations share: one row changes, by the same three amounts whatever the
  row holds, and a failed mutation changes nothing.
\<close>

section \<open>Look-ups\<close>

definition findByUserId :: "uuid \<Rightarrow> (world, wallet option) prog" where
  "findByUserId userId = t_find wallets_t (\<lambda>x. w_userId x = userId)"

definition findById :: "uuid \<Rightarrow> (world, wallet option) prog" where
  "findById i = t_find wallets_t (\<lambda>x. w_id x = i)"

lemma find_wallet_id: "find (\<lambda>x. w_id x = i) xs = Some x \<Longrightarrow> w_id x = i"
  by (auto dest: find_Some_iff_hd)

lemma find_wallet_mem: "find (\<lambda>x. w_id x = i) xs = Some x \<Longrightarrow> x \<in> set xs"
  by (auto dest: find_Some_iff_hd)

section \<open>The row lock\<close>

text \<open>
  \<open>SELECT ... FOR UPDATE\<close> through \<open>$queryRaw\<close> gives the row as the driver reads it, with
  the NUMERIC columns in the driver's own form; \<open>lockWallet\<close> makes a Decimal of each of them.
  The form (a text, in PostgreSQL's case) is only ever given to \<open>new Prisma.Decimal\<close>, so a
  column value is kept as the number it stands for.
\<close>

datatype numeric = Numeric decimal

record wallet_lock_row =
  lr_id :: uuid
  lr_userId :: uuid
  lr_currency :: currency
  lr_status :: account_status
  lr_availableBalance :: numeric
  lr_lockedBalance :: numeric
  lr_pendingBalance :: numeric

record wallet_snapshot =
  ws_id :: uuid
  ws_userId :: uuid
  ws_currency :: currency
  ws_status :: account_status
  ws_availableBalance :: decimal
  ws_lockedBalance :: decimal
  ws_pendingBalance :: decimal

definition lock_row :: "wallet \<Rightarrow> wallet_lock_row" where
  "lock_row x = \<lparr>lr_id = w_id x, lr_userId = w_userId x, lr_currency = w_currency x,
     lr_status = w_status x, lr_availableBalance = Numeric (availableBalance x),
     lr_lockedBalance = Numeric (lockedBalance x),
     lr_pendingBalance = Numeric (pendingBalance x)\<rparr>"

text \<open>\<open>new Prisma.Decimal(value)\<close> of a column value.\<close>

fun new_Decimal :: "numeric \<Rightarrow> (world, decimal) prog" where
  "new_Decimal (Numeric d) = ret d"

lemma new_Decimal_ret: "new_Decimal n = ret (case n of Numeric d \<Rightarrow> d)"
  by (cases n) simp

definition lockWallet :: "uuid \<Rightarrow> (world, wallet_snapshot) prog" where
  "lockWallet walletId =
     bindP (getP (\<lambda>w. map lock_row (filter (\<lambda>x. w_id x = walletId) (wallets (db w))))) (\<lambda>rows.
     case rows of
       [] \<Rightarrow> throw (HttpExn NotFoundException ''Wallet not found'')
     | row # _ \<Rightarrow>
         bindP (new_Decimal (lr_availableBalance row)) (\<lambda>a.
         bindP (new_Decimal (lr_lockedBalance row)) (\<lambda>l.
         bindP (new_Decimal (lr_pendingBalance row)) (\<lambda>p.
         ret \<lparr>ws_id = lr_id row, ws_userId = lr_userId row, ws_currency = lr_currency row,
           ws_status = lr_status row, ws_availableBalance = a, ws_lockedBalance = l,
           ws_pendingBalance = p\<rparr>))))"

definition snapshot :: "wallet \<Rightarrow> wallet_snapshot" where
  "snapshot x = \<lparr>ws_id = w_id x, ws_userId = w_userId x, ws_currency = w_currency x,
     ws_status = w_status x, ws_availableBalance = availableBalance x,
     ws_lockedBalance = lockedBalance x, ws_pendingBalance = pendingBalance x\<rparr>"

lemma snapshot_simps [simp]:
  "ws_id (snapshot x) = w_id x" "ws_userId (snapshot x) = w_userId x"
  "ws_currency (snapshot x) = w_currency x" "ws_status (snapshot x) = w_status x"
  "ws_availableBalance (snapshot x) = availableBalance x"
  "ws_lockedBalance (snapshot x) = lockedBalance x"
  "ws_pendingBalance (snapshot x) = pendingBalance x"
  by (simp_all add: snapshot_def)

lemma wp_findByUserId [wp_simps]:
  "wp (findByUserId i) Q E w = Q (find (\<lambda>x. w_userId x = i) (wallets (db w))) w"
  by (simp add: findByUserId_def wp_simps wallets_t_def)

lemma wp_findById [wp_simps]:
  "wp (findById i) Q E w = Q (find (\<lambda>x. w_id x = i) (wallets (db w))) w"
  by (simp add: findById_def wp_simps wallets_t_def)

lemma filter_find_cases:
  "(case filter P xs of [] \<Rightarrow> a | y # ys \<Rightarrow> f y) = (case find P xs of None \<Rightarrow> a | Some y \<Rightarrow> f y)"
  by (induction xs) auto

text \<open>The coercion is exact: the snapshot holds the balances of the row.\<close>

lemma wp_lockWallet [wp_simps]:
  "wp (lockWallet i) Q E w = (case find (\<lambda>x. w_id x = i) (wallets (db w)) of
     None \<Rightarrow> E (HttpExn NotFoundException ''Wallet not found'') w
   | Some x \<Rightarrow> Q (snapshot x) w)"
proof -
  have "wp (lockWallet i) Q E w = (case filter (\<lambda>x. w_id x = i) (wallets (db w)) of
       [] \<Rightarrow> E (HttpExn NotFoundException ''Wallet not found'') w
     | x # _ \<Rightarrow> Q (snapshot x) w)"
    by (cases "filter (\<lambda>x. w_id x = i) (wallets (db w))")
       (simp_all add: lockWallet_def wp_simps lock_row_def snapshot_def)
  then show ?thesis by (simp only: filter_find_cases)
qed

lemma wlp_findByUserId [wlp_intros]:
  "Q (find (\<lambda>x. w_userId x = i) (wallets (db w))) w \<Longrightarrow> wp (findByUserId i) Q (\<lambda>_ _. True) w"
  by (simp add: wp_findByUserId)

lemma wlp_lockWallet [wlp_intros]:
  assumes "\<And>x. find (\<lambda>x. w_id x = i) (wallets (db w)) = Some x \<Longrightarrow> w_id x = i \<Longrightarrow> Q (snapshot x) w"
  shows "wp (lockWallet i) Q (\<lambda>_ _. True) w"
proof (cases "find (\<lambda>x. w_id x = i) (wallets (db w))")
  case None
  then show ?thesis by (simp add: wp_lockWallet)
next
  case (Some x)
  from assms [OF Some find_wallet_id [OF Some]] Some show ?thesis by (simp add: wp_lockWallet)
qed

section \<open>Guards\<close>

definition assertActive :: "wallet_snapshot \<Rightarrow> (world, unit) prog" where
  "assertActive wallet =
     (if ws_status wallet \<noteq> ACTIVE
      then throw (HttpExn ForbiddenException
        (''Wallet is '' @ toLowerCase (status_str (ws_status wallet)) @ ''. Contact support.''))
      else ret ())"

definition assertCurrencyMatch :: "wallet_snapshot \<Rightarrow> currency \<Rightarrow> (world, unit) prog" where
  "assertCurrencyMatch wallet c =
     (if ws_currency wallet \<noteq> c
      then throw (HttpExn ForbiddenException
        (''Currency mismatch: wallet is '' @ currency_str (ws_currency wallet) @
         '', transaction is '' @ currency_str c @ ''.''))
      else ret ())"

lemma wp_assertActive [wp_simps]:
  "wp (assertActive x) Q E w = (if ws_status x = ACTIVE then Q () w
     else E (HttpExn ForbiddenException
        (''Wallet is '' @ toLowerCase (status_str (ws_status x)) @ ''. Contact support.'')) w)"
  by (simp add: assertActive_def wp_simps)

lemma wp_assertCurrencyMatch [wp_simps]:
  "wp (assertCurrencyMatch x c) Q E w = (if ws_currency x = c then Q () w
     else E (HttpExn ForbiddenException
        (''Currency mismatch: wallet is '' @ currency_str (ws_currency x) @
         '', transaction is '' @ currency_str c @ ''.'')) w)"
  by (simp add: assertCurrencyMatch_def wp_simps)

lemma wlp_assertActive [wlp_intros]:
  "(ws_status x = ACTIVE \<Longrightarrow> Q () w) \<Longrightarrow> wp (assertActive x) Q (\<lambda>_ _. True) w"
  by (simp add: wp_assertActive)

lemma wlp_assertCurrencyMatch [wlp_intros]:
  "(ws_currency x = c \<Longrightarrow> Q () w) \<Longrightarrow> wp (assertCurrencyMatch x c) Q (\<lambda>_ _. True) w"
  by (simp add: wp_assertCurrencyMatch)

section \<open>Balance mutations\<close>

definition creditAvailable :: "uuid \<Rightarrow> decimal \<Rightarrow> (world, decimal) prog" where
  "creditAvailable walletId amount =
     bindP (t_update wallets_t (\<lambda>x. w_id x = walletId)
       (\<lambda>x. x\<lparr>availableBalance := availableBalance x + amount\<rparr>))
     (\<lambda>updated. ret (availableBalance updated))"

definition debitAvailableAndLock :: "uuid \<Rightarrow> decimal \<Rightarrow> (world, decimal \<times> decimal) prog" where
  "debitAvailableAndLock walletId amount =
     bindP (t_update wallets_t (\<lambda>x. w_id x = walletId)
       (\<lambda>x. x\<lparr>availableBalance := availableBalance x - amount,
              lockedBalance := lockedBalance x + amount\<rparr>))
     (\<lambda>updated. ret (availableBalance updated, lockedBalance updated))"

definition creditPending :: "uuid \<Rightarrow> decimal \<Rightarrow> (world, decimal) prog" where
  "creditPending walletId amount =
     bindP (t_update wallets_t (\<lambda>x. w_id x = walletId)
       (\<lambda>x. x\<lparr>pendingBalance := pendingBalance x + amount\<rparr>))
     (\<lambda>updated. ret (pendingBalance updated))"

definition settlePending :: "uuid \<Rightarrow> decimal \<Rightarrow> (world, decimal) prog" where
  "settlePending walletId amount =
     bindP (t_update wallets_t (\<lambda>x. w_id x = walletId)
       (\<lambda>x. x\<lparr>pendingBalance := pendingBalance x - amount,
              availableBalance := availableBalance x + amount\<rparr>))
     (\<lambda>updated. ret (availableBalance updated))"

definition settleWithdrawal :: "uuid \<Rightarrow> decimal \<Rightarrow> (world, decimal) prog" where
  "settleWithdrawal walletId amount =
     bindP (t_update wallets_t (\<lambda>x. w_id x = walletId)
       (\<lambda>x. x\<lparr>lockedBalance := lockedBalance x - amount\<rparr>))
     (\<lambda>updated. ret (lockedBalance updated))"

definition debitAvailable :: "uuid \<Rightarrow> decimal \<Rightarrow> (world, decimal) prog" where
  "debitAvailable walletId amount =
     bindP (t_update wallets_t (\<lambda>x. w_id x = walletId)
       (\<lambda>x. x\<lparr>availableBalance := availableBalance x - amount\<rparr>))
     (\<lambda>updated. ret (availableBalance updated))"

section \<open>The contract of a balance mutation\<close>

text \<open>Adding amounts to the three balances of the wallet \<open>i\<close>.\<close>

definition move :: "decimal \<Rightarrow> decimal \<Rightarrow> decimal \<Rightarrow> instant \<Rightarrow> wallet \<Rightarrow> wallet" where
  "move da dl dp t x = x\<lparr>availableBalance := availableBalance x + da,
     lockedBalance := lockedBalance x + dl, pendingBalance := pendingBalance x + dp,
     w_updatedAt := t\<rparr>"

definition move_wallets :: "uuid \<Rightarrow> decimal \<Rightarrow> decimal \<Rightarrow> decimal \<Rightarrow> instant \<Rightarrow> wallet list \<Rightarrow> wallet list" where
  "move_wallets i da dl dp t = map (\<lambda>x. if w_id x = i then move da dl dp t x else x)"

lemma move_simps [simp]:
  "w_id (move da dl dp t x) = w_id x" "w_userId (move da dl dp t x) = w_userId x"
  "w_currency (move da dl dp t x) = w_currency x" "w_status (move da dl dp t x) = w_status x"
  "availableBalance (move da dl dp t x) = availableBalance x + da"
  "lockedBalance (move da dl dp t x) = lockedBalance x + dl"
  "pendingBalance (move da dl dp t x) = pendingBalance x + dp"
  by (simp_all add: move_def)

lemma move_wallets_ids [simp]: "map w_id (move_wallets i da dl dp t xs) = map w_id xs"
  by (induction xs) (simp_all add: move_wallets_def)

lemma move_wallets_users [simp]: "map w_userId (move_wallets i da dl dp t xs) = map w_userId xs"
  by (induction xs) (simp_all add: move_wallets_def)

lemma find_move_wallets [row_simps]:
  "find (\<lambda>x. w_id x = j) (move_wallets i da dl dp t xs) =
     map_option (\<lambda>x. if w_id x = i then move da dl dp t x else x) (find (\<lambda>x. w_id x = j) xs)"
  unfolding move_wallets_def by (rule find_map_if) simp

lemma set_move_walletsE:
  assumes "y \<in> set (move_wallets i da dl dp t xs)"
  obtains x where "x \<in> set xs" and "y = (if w_id x = i then move da dl dp t x else x)"
  using assms by (auto simp: move_wallets_def)

definition moved :: "uuid \<Rightarrow> decimal \<Rightarrow> decimal \<Rightarrow> decimal \<Rightarrow> world \<Rightarrow> world" where
  "moved i da dl dp w = w\<lparr>db := (db w)\<lparr>wallets := move_wallets i da dl dp (clock w) (wallets (db w))\<rparr>\<rparr>"

lemma moved_simps [simp]:
  "wallets (db (moved i da dl dp w)) = move_wallets i da dl dp (clock w) (wallets (db w))"
  "transactions (db (moved i da dl dp w)) = transactions (db w)"
  "paymentLogs (db (moved i da dl dp w)) = paymentLogs (db w)"
  "ledgerEntries (db (moved i da dl dp w)) = ledgerEntries (db w)"
  "outboxEvents (db (moved i da dl dp w)) = outboxEvents (db w)"
  "users (db (moved i da dl dp w)) = users (db w)"
  "refreshTokens (db (moved i da dl dp w)) = refreshTokens (db w)"
  "uuids (moved i da dl dp w) = uuids w" "uuid_next (moved i da dl dp w) = uuid_next w"
  "clock (moved i da dl dp w) = clock w" "audits (moved i da dl dp w) = audits w"
  by (simp_all add: moved_def)

locale wallet_mutation =
  fixes op :: "uuid \<Rightarrow> decimal \<Rightarrow> (world, 'r) prog"
    and out :: "wallet \<Rightarrow> 'r"
    and da :: "decimal \<Rightarrow> decimal" and dl :: "decimal \<Rightarrow> decimal" and dp :: "decimal \<Rightarrow> decimal"
  assumes op_wp: "wp (op i a) Q E w =
     (case find (\<lambda>x. w_id x = i) (wallets (db w)) of
        None \<Rightarrow> E (PrismaKnown ''P2025'' []) w
      | Some x \<Rightarrow>
          let x' = move (da a) (dl a) (dp a) (clock w) x in
          if t_fits wallets_t x'
          then Q (out x') (moved i (da a) (dl a) (dp a) w)
          else E (PrismaKnown ''P2020'' []) w)"
begin

text \<open>A mutation either moves the three balances of one wallet or leaves the world alone.\<close>

lemma throws_same: "op i a w = (Inl e, w') \<Longrightarrow> w' = w"
  using op_wp [of i a "\<lambda>_ _. True" "\<lambda>_ v. v = w" w]
  by (auto simp: wp_def Let_def split: option.splits if_splits)

lemma returns_moved:
  assumes "op i a w = (Inr r, w')"
  shows "\<exists>x. find (\<lambda>x. w_id x = i) (wallets (db w)) = Some x
    \<and> r = out (move (da a) (dl a) (dp a) (clock w) x)
    \<and> w' = moved i (da a) (dl a) (dp a) w"
  using op_wp [of i a "\<lambda>r' v. \<exists>x. find (\<lambda>x. w_id x = i) (wallets (db w)) = Some x
    \<and> r' = out (move (da a) (dl a) (dp a) (clock w) x)
    \<and> v = moved i (da a) (dl a) (dp a) w"
    "\<lambda>_ _. True" w] assms
  by (auto simp: wp_def Let_def split: option.splits if_splits)

lemma returns_iff:
  "returns (op i a w) \<longleftrightarrow> (\<exists>x. find (\<lambda>x. w_id x = i) (wallets (db w)) = Some x
     \<and> t_fits wallets_t (move (da a) (dl a) (dp a) (clock w) x))"
  using op_wp [of i a "\<lambda>_ _. True" "\<lambda>_ _. False" w]
  by (auto simp: wp_def returns_def Let_def split: option.splits if_splits prod.splits sum.splits)

lemma wlp:
  assumes "\<And>x. find (\<lambda>x. w_id x = i) (wallets (db w)) = Some x \<Longrightarrow> w_id x = i \<Longrightarrow>
     t_fits wallets_t (move (da a) (dl a) (dp a) (clock w) x) \<Longrightarrow>
     Q (out (move (da a) (dl a) (dp a) (clock w) x)) (moved i (da a) (dl a) (dp a) w)"
  shows "wp (op i a) Q (\<lambda>_ _. True) w"
proof (cases "find (\<lambda>x. w_id x = i) (wallets (db w))")
  case None
  then show ?thesis by (simp add: op_wp)
next
  case (Some x)
  from assms [OF Some find_wallet_id [OF Some]] Some show ?thesis by (simp add: op_wp Let_def)
qed

text \<open>The sum of all balances of the system changes by the three deltas.\<close>

lemma changes_total:
  assumes "op i a w = (Inr r, w')" and "distinct (map w_id (wallets (db w)))"
  shows "(\<Sum>x \<leftarrow> wallets (db w'). availableBalance x + lockedBalance x + pendingBalance x) =
    (\<Sum>x \<leftarrow> wallets (db w). availableBalance x + lockedBalance x + pendingBalance x)
      + (da a + dl a + dp a)"
proof -
  let ?f = "\<lambda>x. availableBalance x + lockedBalance x + pendingBalance x"
  from returns_moved [OF assms(1)] obtain x where x: "find (\<lambda>x. w_id x = i) (wallets (db w)) = Some x"
    and w': "wallets (db w') = move_wallets i (da a) (dl a) (dp a) (clock w) (wallets (db w))" by auto
  from x have "x \<in> set (wallets (db w))" "w_id x = i" by (auto dest: find_Some_iff_hd)
  from sum_list_update_key [OF assms(2) this, of ?f "move (da a) (dl a) (dp a) (clock w)"] w'
  show ?thesis by (simp add: move_wallets_def)
qed

end

lemmas mutation_defs = creditAvailable_def debitAvailableAndLock_def creditPending_def
  settlePending_def settleWithdrawal_def debitAvailable_def

lemma wallet_update_move:
  assumes "\<And>c x. t_touch wallets_t c (f x) = move da dl dp c x"
  shows "wp (t_update wallets_t (\<lambda>x. w_id x = i) f) Q E w =
    (case find (\<lambda>x. w_id x = i) (wallets (db w)) of
        None \<Rightarrow> E (PrismaKnown ''P2025'' []) w
      | Some x \<Rightarrow>
          let x' = move da dl dp (clock w) x in
          if t_fits wallets_t x'
          then Q x' (moved i da dl dp w)
          else E (PrismaKnown ''P2020'' []) w)"
proof (cases "find (\<lambda>x. w_id x = i) (wallets (db w))")
  case None
  then show ?thesis by (simp add: wp_t_update) (simp add: wallets_t_def)
next
  case (Some x)
  have get: "t_get wallets_t = wallets" and put: "t_put wallets_t = (\<lambda>rs d. d\<lparr>wallets := rs\<rparr>)"
    by (simp_all add: wallets_t_def)
  have "filter (\<lambda>(_, k). k (move da dl dp (clock w) x) \<noteq> k x) (t_unique wallets_t) = []"
    by (simp add: wallets_t_def)
  with Some show ?thesis
    by (simp add: wp_t_update get put assms Let_def move_wallets_def moved_def)
qed

lemma wallet_mutationI:
  assumes "\<And>i a. op i a = bindP (t_update wallets_t (\<lambda>x. w_id x = i) (f a)) (\<lambda>x. ret (out x))"
    and "\<And>c a x. t_touch wallets_t c (f a x) = move (da a) (dl a) (dp a) c x"
  shows "wallet_mutation op out da dl dp"
proof
  fix i a Q E w
  show "wp (op i a) Q E w = (case find (\<lambda>x. w_id x = i) (wallets (db w)) of
        None \<Rightarrow> E (PrismaKnown ''P2025'' []) w
      | Some x \<Rightarrow>
          let x' = move (da a) (dl a) (dp a) (clock w) x in
          if t_fits wallets_t x'
          then Q (out x') (moved i (da a) (dl a) (dp a) w)
          else E (PrismaKnown ''P2020'' []) w)"
    by (cases "find (\<lambda>x. w_id x = i) (wallets (db w))")
       (simp_all add: assms(1) wp_bindP wp_ret wallet_update_move [OF assms(2)] Let_def)
qed

interpretation creditAvailable: wallet_mutation creditAvailable availableBalance "\<lambda>a. a" "\<lambda>_. 0" "\<lambda>_. 0"
  by (rule wallet_mutationI [OF creditAvailable_def]) (simp add: wallets_t_def move_def)

interpretation debitAvailableAndLock: wallet_mutation debitAvailableAndLock
  "\<lambda>x. (availableBalance x, lockedBalance x)" "\<lambda>a. - a" "\<lambda>a. a" "\<lambda>_. 0"
  by (rule wallet_mutationI [OF debitAvailableAndLock_def]) (simp add: wallets_t_def move_def)

interpretation creditPending: wallet_mutation creditPending pendingBalance "\<lambda>_. 0" "\<lambda>_. 0" "\<lambda>a. a"
  by (rule wallet_mutationI [OF creditPending_def]) (simp add: wallets_t_def move_def)

interpretation settlePending: wallet_mutation settlePending availableBalance "\<lambda>a. a" "\<lambda>_. 0" "\<lambda>a. - a"
  by (rule wallet_mutationI [OF settlePending_def]) (simp add: wallets_t_def move_def)

interpretation settleWithdrawal: wallet_mutation settleWithdrawal lockedBalance "\<lambda>_. 0" "\<lambda>a. - a" "\<lambda>_. 0"
  by (rule wallet_mutationI [OF settleWithdrawal_def]) (simp add: wallets_t_def move_def)

interpretation debitAvailable: wallet_mutation debitAvailable availableBalance "\<lambda>a. - a" "\<lambda>_. 0" "\<lambda>_. 0"
  by (rule wallet_mutationI [OF debitAvailable_def]) (simp add: wallets_t_def move_def)

lemmas wp_mutations [wp_simps] =
  creditAvailable.op_wp debitAvailableAndLock.op_wp creditPending.op_wp
  settlePending.op_wp settleWithdrawal.op_wp debitAvailable.op_wp

lemmas wlp_mutations [wlp_intros] =
  creditAvailable.wlp debitAvailableAndLock.wlp creditPending.wlp
  settlePending.wlp settleWithdrawal.wlp debitAvailable.wlp

end
