(* ===== verification/Transaction_Repo.thy ===== *)
theory Transaction_Repo
  imports Wallet_Repo
begin

text \<open>
  \<open>transaction/transaction.repository.ts\<close>: the rows each money flow writes, the status
  updates, and the queries. The writes run inside the caller's transaction block. The
  lemmas \<open>..._run\<close> say exactly which rows a successful call appended or changed.
\<close>

section \<open>Inputs\<close>

record CreateTransactionInput =
  ti_idempotencyKey :: string
  ti_type :: transaction_type
  ti_status :: transaction_status
  ti_amount :: decimal
  ti_currency :: currency
  ti_description :: "string option"
  ti_senderWalletId :: "uuid option"
  ti_receiverWalletId :: "uuid option"
  ti_provider :: "provider option"

record CreateLedgerEntryInput =
  li_walletId :: "uuid option"
  li_transactionId :: uuid
  li_direction :: entry_direction
  li_amount :: decimal
  li_currency :: currency
  li_balanceAfter :: decimal

record CreateOutboxEventInput =
  oi_transactionId :: uuid
  oi_eventType :: string
  oi_payload :: payload

section \<open>Row creation\<close>

text \<open>
  The \<open>create\<close> calls with their \<open>data\<close> objects; columns left out take the schema's
  defaults. A wallet id asserted with \<open>!\<close> that is absent is rejected by the client before
  any query runs.
\<close>

definition new_transaction ::
  "CreateTransactionInput \<Rightarrow> instant option \<Rightarrow> uuid \<Rightarrow> instant \<Rightarrow> transaction" where
  "new_transaction input settled i t =
     \<lparr>tx_id = i, idempotencyKey = ti_idempotencyKey input, tx_type = ti_type input,
      tx_status = ti_status input, tx_amount = ti_amount input, tx_currency = ti_currency input,
      tx_description = ti_description input, senderWalletId = ti_senderWalletId input,
      receiverWalletId = ti_receiverWalletId input, tx_provider = ti_provider input,
      tx_providerRef = None, tx_createdAt = t, tx_updatedAt = t, settledAt = settled\<rparr>"

definition new_ledgerEntry :: "uuid \<Rightarrow> CreateLedgerEntryInput \<Rightarrow> uuid \<Rightarrow> instant \<Rightarrow> ledger_entry" where
  "new_ledgerEntry walletId input i t =
     \<lparr>le_id = i, le_walletId = walletId, le_transactionId = li_transactionId input,
      direction = li_direction input, le_amount = li_amount input, le_currency = li_currency input,
      balanceAfter = li_balanceAfter input, le_createdAt = t\<rparr>"

definition new_outboxEvent :: "CreateOutboxEventInput \<Rightarrow> uuid \<Rightarrow> instant \<Rightarrow> outbox_event" where
  "new_outboxEvent input i t =
     \<lparr>oe_id = i, oe_transactionId = oi_transactionId input, eventType = oi_eventType input,
      oe_payload = oi_payload input, deliveredAt = None, retryCount = 0, oe_createdAt = t\<rparr>"

definition transaction_create ::
  "CreateTransactionInput \<Rightarrow> instant option \<Rightarrow> (world, transaction) prog" where
  "transaction_create input settled = t_create transactions_t (new_transaction input settled)"

definition ledgerEntry_create :: "CreateLedgerEntryInput \<Rightarrow> (world, ledger_entry) prog" where
  "ledgerEntry_create input = (case li_walletId input of
     None \<Rightarrow> throw PrismaValidation
   | Some walletId \<Rightarrow> t_create ledgerEntries_t (new_ledgerEntry walletId input))"

definition outboxEvent_create :: "CreateOutboxEventInput \<Rightarrow> (world, outbox_event) prog" where
  "outboxEvent_create input = t_create outboxEvents_t (new_outboxEvent input)"

lemma new_transaction_simps [simp]:
  "tx_id (new_transaction inp s i t) = i"
  "idempotencyKey (new_transaction inp s i t) = ti_idempotencyKey inp"
  "tx_type (new_transaction inp s i t) = ti_type inp"
  "tx_status (new_transaction inp s i t) = ti_status inp"
  "tx_amount (new_transaction inp s i t) = ti_amount inp"
  "tx_currency (new_transaction inp s i t) = ti_currency inp"
  "senderWalletId (new_transaction inp s i t) = ti_senderWalletId inp"
  "receiverWalletId (new_transaction inp s i t) = ti_receiverWalletId inp"
  "tx_provider (new_transaction inp s i t) = ti_provider inp"
  "settledAt (new_transaction inp s i t) = s"
  by (simp_all add: new_transaction_def)

section \<open>Idempotency\<close>

definition findByIdempotencyKey :: "string \<Rightarrow> (world, transaction option) prog" where
  "findByIdempotencyKey key = t_find transactions_t (\<lambda>t. idempotencyKey t = key)"

section \<open>Atomic flows\<close>

definition initiateDeposit ::
  "CreateTransactionInput \<Rightarrow> decimal \<Rightarrow> payload \<Rightarrow> (world, transaction) prog" where
  "initiateDeposit input pendingBalanceAfter outboxPayload =
     bindP (transaction_create
       \<lparr>ti_idempotencyKey = ti_idempotencyKey input, ti_type = DEPOSIT, ti_status = INITIATED,
        ti_amount = ti_amount input, ti_currency = ti_currency input,
        ti_description = ti_description input, ti_senderWalletId = None,
        ti_receiverWalletId = ti_receiverWalletId input, ti_provider = ti_provider input\<rparr> None)
     (\<lambda>transaction.
     thenP (ledgerEntry_create
       \<lparr>li_walletId = ti_receiverWalletId input, li_transactionId = tx_id transaction,
        li_direction = CREDIT, li_amount = ti_amount input, li_currency = ti_currency input,
        li_balanceAfter = pendingBalanceAfter\<rparr>)
     (thenP (outboxEvent_create
       \<lparr>oi_transactionId = tx_id transaction, oi_eventType = ''DEPOSIT_INITIATED'',
        oi_payload = outboxPayload\<rparr>)
     (ret transaction)))"

definition settleDeposit ::
  "uuid \<Rightarrow> uuid \<Rightarrow> decimal \<Rightarrow> currency \<Rightarrow> decimal \<Rightarrow> payload \<Rightarrow> (world, transaction) prog" where
  "settleDeposit transactionId walletId amount c availableBalanceAfter outboxPayload =
     bindP now (\<lambda>date.
     bindP (t_update transactions_t (\<lambda>t. tx_id t = transactionId)
       (\<lambda>t. t\<lparr>tx_status := SETTLED, settledAt := Some date\<rparr>)) (\<lambda>transaction.
     thenP (ledgerEntry_create
       \<lparr>li_walletId = Some walletId, li_transactionId = transactionId, li_direction = CREDIT,
        li_amount = amount, li_currency = c, li_balanceAfter = availableBalanceAfter\<rparr>)
     (thenP (outboxEvent_create
       \<lparr>oi_transactionId = transactionId, oi_eventType = ''DEPOSIT_SETTLED'',
        oi_payload = outboxPayload\<rparr>)
     (ret transaction))))"

definition initiateWithdrawal ::
  "CreateTransactionInput \<Rightarrow> decimal \<Rightarrow> payload \<Rightarrow> (world, transaction) prog" where
  "initiateWithdrawal input lockedBalanceAfter outboxPayload =
     bindP (transaction_create
       \<lparr>ti_idempotencyKey = ti_idempotencyKey input, ti_type = WITHDRAWAL, ti_status = INITIATED,
        ti_amount = ti_amount input, ti_currency = ti_currency input,
        ti_description = ti_description input, ti_senderWalletId = ti_senderWalletId input,
        ti_receiverWalletId = None, ti_provider = ti_provider input\<rparr> None)
     (\<lambda>transaction.
     thenP (ledgerEntry_create
       \<lparr>li_walletId = ti_senderWalletId input, li_transactionId = tx_id transaction,
        li_direction = DEBIT, li_amount = ti_amount input, li_currency = ti_currency input,
        li_balanceAfter = lockedBalanceAfter\<rparr>)
     (thenP (outboxEvent_create
       \<lparr>oi_transactionId = tx_id transaction, oi_eventType = ''WITHDRAWAL_INITIATED'',
        oi_payload = outboxPayload\<rparr>)
     (ret transaction)))"

definition executeTransfer ::
  "CreateTransactionInput \<Rightarrow> decimal \<Rightarrow> decimal \<Rightarrow> payload \<Rightarrow> (world, transaction) prog" where
  "executeTransfer input senderBalanceAfter receiverBalanceAfter outboxPayload =
     bindP now (\<lambda>date.
     bindP (transaction_create
       \<lparr>ti_idempotencyKey = ti_idempotencyKey input, ti_type = TRANSFER, ti_status = SETTLED,
        ti_amount = ti_amount input, ti_currency = ti_currency input,
        ti_description = ti_description input, ti_senderWalletId = ti_senderWalletId input,
        ti_receiverWalletId = ti_receiverWalletId input, ti_provider = Some INTERNAL\<rparr> (Some date))
     (\<lambda>transaction.
     thenP (ledgerEntry_create
       \<lparr>li_walletId = ti_senderWalletId input, li_transactionId = tx_id transaction,
        li_direction = DEBIT, li_amount = ti_amount input, li_currency = ti_currency input,
        li_balanceAfter = senderBalanceAfter\<rparr>)
     (thenP (ledgerEntry_create
       \<lparr>li_walletId = ti_receiverWalletId input, li_transactionId = tx_id transaction,
        li_direction = CREDIT, li_amount = ti_amount input, li_currency = ti_currency input,
        li_balanceAfter = receiverBalanceAfter\<rparr>)
     (thenP (outboxEvent_create
       \<lparr>oi_transactionId = tx_id transaction, oi_eventType = ''TRANSFER_SETTLED'',
        oi_payload = outboxPayload\<rparr>)
     (ret transaction)))))"

section \<open>Status and outbox updates\<close>

definition updateStatus :: "uuid \<Rightarrow> transaction_status \<Rightarrow> (world, unit) prog" where
  "updateStatus transactionId status =
     bindP now (\<lambda>date.
     thenP (t_update transactions_t (\<lambda>t. tx_id t = transactionId)
       (\<lambda>t. if status = SETTLED then t\<lparr>tx_status := status, settledAt := Some date\<rparr>
            else t\<lparr>tx_status := status\<rparr>))
     (ret ()))"

definition markOutboxDelivered :: "uuid \<Rightarrow> (world, unit) prog" where
  "markOutboxDelivered i =
     bindP now (\<lambda>date.
     thenP (t_update outboxEvents_t (\<lambda>e. oe_id e = i) (\<lambda>e. e\<lparr>deliveredAt := Some date\<rparr>)) (ret ()))"

definition incrementOutboxRetry :: "uuid \<Rightarrow> (world, unit) prog" where
  "incrementOutboxRetry i =
     thenP (t_update outboxEvents_t (\<lambda>e. oe_id e = i) (\<lambda>e. e\<lparr>retryCount := retryCount e + 1\<rparr>)) (ret ())"

section \<open>Queries\<close>

definition findTransactionById :: "uuid \<Rightarrow> (world, transaction option) prog" where
  "findTransactionById i = t_find transactions_t (\<lambda>t. tx_id t = i)"

definition touches_wallet :: "uuid \<Rightarrow> transaction \<Rightarrow> bool" where
  "touches_wallet walletId t \<longleftrightarrow> senderWalletId t = Some walletId \<or> receiverWalletId t = Some walletId"

text \<open>Newest first; rows created at the same instant keep the table's order.\<close>

definition newest_first :: "transaction list \<Rightarrow> transaction list" where
  "newest_first ts = sort_key (\<lambda>t. - tx_createdAt t) ts"

definition findByWalletPaginated :: "uuid \<Rightarrow> int \<Rightarrow> int \<Rightarrow> (world, transaction list \<times> int) prog" where
  "findByWalletPaginated walletId page limit =
     (let skip = (page - 1) * limit in
      bindP (t_filter transactions_t (touches_wallet walletId)) (\<lambda>rows.
      bindP (t_count transactions_t (touches_wallet walletId)) (\<lambda>total.
      ret (take (nat limit) (drop (nat skip) (newest_first rows)), int total))))"

definition oldest_first :: "outbox_event list \<Rightarrow> outbox_event list" where
  "oldest_first es = sort_key oe_createdAt es"

definition findPendingOutboxEvents :: "nat \<Rightarrow> (world, outbox_event list) prog" where
  "findPendingOutboxEvents limit =
     bindP (t_filter outboxEvents_t (\<lambda>e. deliveredAt e = None \<and> retryCount e < 5)) (\<lambda>rows.
     ret (take limit (oldest_first rows)))"

section \<open>Partial-correctness rules\<close>

text \<open>
  Inside a transaction block only a run that returns matters. These rules give the row
  that was created, with what the database checked.
\<close>

lemma wp_partial_create:
  assumes "\<And>r. r = mk (uuids w (uuid_next w)) (clock w) \<Longrightarrow> t_fits T r \<Longrightarrow>
      violated (t_unique T) r (t_get T (db w)) = None \<Longrightarrow> t_refs T (db w) r \<Longrightarrow>
      Q r (w\<lparr>uuid_next := Suc (uuid_next w), db := t_put T (t_get T (db w) @ [r]) (db w)\<rparr>)"
  shows "wp (t_create T mk) Q (\<lambda>_ _. True) w"
  using assms by (auto simp: wp_t_create Let_def split: option.splits)

lemma wp_findByIdempotencyKey [wp_simps]:
  "wp (findByIdempotencyKey k) Q E w = Q (find (\<lambda>t. idempotencyKey t = k) (transactions (db w))) w"
  by (simp add: findByIdempotencyKey_def wp_simps transactions_t_def)

lemma wp_findTransactionById [wp_simps]:
  "wp (findTransactionById i) Q E w = Q (find (\<lambda>t. tx_id t = i) (transactions (db w))) w"
  by (simp add: findTransactionById_def wp_simps transactions_t_def)

text \<open>A new transaction row: its id and its idempotency key were not in the table.\<close>

definition fresh_row :: "transaction \<Rightarrow> db \<Rightarrow> bool" where
  "fresh_row t d \<longleftrightarrow> (\<forall>s \<in> set (transactions d). tx_id s \<noteq> tx_id t \<and> idempotencyKey s \<noteq> idempotencyKey t)
     \<and> t_fits transactions_t t \<and> t_refs transactions_t d t"

lemma wp_partial_transaction_create:
  assumes "let r = new_transaction input s (uuids w (uuid_next w)) (clock w) in fresh_row r (db w) \<longrightarrow>
      Q r (w\<lparr>uuid_next := Suc (uuid_next w), db := (db w)\<lparr>transactions := transactions (db w) @ [r]\<rparr>\<rparr>)"
  shows "wp (transaction_create input s) Q (\<lambda>_ _. True) w"
  unfolding transaction_create_def
proof (rule wp_partial_create, goal_cases)
  case (1 r)
  have "fresh_row r (db w)"
    using 1(2,3,4) by (auto simp: fresh_row_def transactions_t_def list_ex_iff split: if_splits)
  with 1(1) assms show ?case by (simp add: transactions_t_def Let_def)
qed

lemma wp_partial_ledgerEntry_create:
  assumes "\<And>i. li_walletId input = Some i \<Longrightarrow>
      let r = new_ledgerEntry i input (uuids w (uuid_next w)) (clock w) in
      Q r (w\<lparr>uuid_next := Suc (uuid_next w), db := (db w)\<lparr>ledgerEntries := ledgerEntries (db w) @ [r]\<rparr>\<rparr>)"
  shows "wp (ledgerEntry_create input) Q (\<lambda>_ _. True) w"
proof (cases "li_walletId input")
  case None
  then show ?thesis by (simp add: ledgerEntry_create_def wp_throw)
next
  case (Some i)
  with assms [of i] have "wp (t_create ledgerEntries_t (new_ledgerEntry i input)) Q (\<lambda>_ _. True) w"
    by (intro wp_partial_create) (simp add: ledgerEntries_t_def Let_def)
  with Some show ?thesis by (simp add: ledgerEntry_create_def)
qed

lemma wp_partial_outboxEvent_create:
  assumes "let r = new_outboxEvent input (uuids w (uuid_next w)) (clock w) in
      Q r (w\<lparr>uuid_next := Suc (uuid_next w), db := (db w)\<lparr>outboxEvents := outboxEvents (db w) @ [r]\<rparr>\<rparr>)"
  shows "wp (outboxEvent_create input) Q (\<lambda>_ _. True) w"
  unfolding outboxEvent_create_def
  by (intro wp_partial_create) (use assms in \<open>simp add: outboxEvents_t_def Let_def\<close>)

lemmas wp_partial_rows =
  wp_partial_transaction_create wp_partial_ledgerEntry_create wp_partial_outboxEvent_create

section \<open>What a successful flow wrote\<close>

text \<open>The transaction row, the ledger rows and the outbox row, with the ids they were given.\<close>

definition posted ::
  "transaction \<Rightarrow> (uuid \<times> CreateLedgerEntryInput) list \<Rightarrow> CreateOutboxEventInput \<Rightarrow> world \<Rightarrow> world \<Rightarrow> bool" where
  "posted t ls ev w w' \<longleftrightarrow> fresh_row t (db w) \<and>
     w' = w\<lparr>uuid_next := uuid_next w + length ls + 2,
            db := (db w)\<lparr>transactions := transactions (db w) @ [t],
              ledgerEntries := ledgerEntries (db w) @
                map (\<lambda>(n, (i, l)). new_ledgerEntry i l (uuids w (uuid_next w + 1 + n)) (clock w))
                  (zip [0..<length ls] ls),
              outboxEvents := outboxEvents (db w) @
                [new_outboxEvent ev (uuids w (uuid_next w + 1 + length ls)) (clock w)]\<rparr>\<rparr>"

lemma postedD:
  assumes "posted t ls ev w w'"
  shows "fresh_row t (db w)" "wallets (db w') = wallets (db w)"
    "transactions (db w') = transactions (db w) @ [t]" "paymentLogs (db w') = paymentLogs (db w)"
    "users (db w') = users (db w)" "refreshTokens (db w') = refreshTokens (db w)"
  using assms by (auto simp: posted_def)

lemma initiateDeposit_run:
  assumes "\<And>t i w'. ti_receiverWalletId input = Some i \<Longrightarrow>
      t = new_transaction (input\<lparr>ti_type := DEPOSIT, ti_status := INITIATED, ti_senderWalletId := None\<rparr>)
        None (uuids w (uuid_next w)) (clock w) \<Longrightarrow>
      posted t [(i, \<lparr>li_walletId = Some i, li_transactionId = tx_id t, li_direction = CREDIT,
          li_amount = ti_amount input, li_currency = ti_currency input, li_balanceAfter = b\<rparr>)]
        \<lparr>oi_transactionId = tx_id t, oi_eventType = ''DEPOSIT_INITIATED'', oi_payload = p\<rparr> w w' \<Longrightarrow>
      Q t w'"
  shows "wp (initiateDeposit input b p) Q (\<lambda>_ _. True) w"
  unfolding initiateDeposit_def wp_bindP wp_thenP wp_ret
  apply (rule wp_partial_transaction_create, simp only: Let_def, rule impI)
  apply (rule wp_partial_ledgerEntry_create, simp only: Let_def)
  apply (rule wp_partial_outboxEvent_create, simp only: Let_def)
  apply (rule assms)
    apply (auto simp: posted_def new_transaction_def numeral_2_eq_2)
  done

lemma initiateWithdrawal_run:
  assumes "\<And>t i w'. ti_senderWalletId input = Some i \<Longrightarrow>
      t = new_transaction (input\<lparr>ti_type := WITHDRAWAL, ti_status := INITIATED, ti_receiverWalletId := None\<rparr>)
        None (uuids w (uuid_next w)) (clock w) \<Longrightarrow>
      posted t [(i, \<lparr>li_walletId = Some i, li_transactionId = tx_id t, li_direction = DEBIT,
          li_amount = ti_amount input, li_currency = ti_currency input, li_balanceAfter = b\<rparr>)]
        \<lparr>oi_transactionId = tx_id t, oi_eventType = ''WITHDRAWAL_INITIATED'', oi_payload = p\<rparr> w w' \<Longrightarrow>
      Q t w'"
  shows "wp (initiateWithdrawal input b p) Q (\<lambda>_ _. True) w"
  unfolding initiateWithdrawal_def wp_bindP wp_thenP wp_ret
  apply (rule wp_partial_transaction_create, simp only: Let_def, rule impI)
  apply (rule wp_partial_ledgerEntry_create, simp only: Let_def)
  apply (rule wp_partial_outboxEvent_create, simp only: Let_def)
  apply (rule assms)
    apply (auto simp: posted_def new_transaction_def numeral_2_eq_2)
  done

lemma executeTransfer_run:
  assumes "\<And>t i j w'. ti_senderWalletId input = Some i \<Longrightarrow> ti_receiverWalletId input = Some j \<Longrightarrow>
      t = new_transaction (input\<lparr>ti_type := TRANSFER, ti_status := SETTLED, ti_provider := Some INTERNAL\<rparr>)
        (Some (clock w)) (uuids w (uuid_next w)) (clock w) \<Longrightarrow>
      posted t
        [(i, \<lparr>li_walletId = Some i, li_transactionId = tx_id t, li_direction = DEBIT,
          li_amount = ti_amount input, li_currency = ti_currency input, li_balanceAfter = b\<rparr>),
         (j, \<lparr>li_walletId = Some j, li_transactionId = tx_id t, li_direction = CREDIT,
          li_amount = ti_amount input, li_currency = ti_currency input, li_balanceAfter = c\<rparr>)]
        \<lparr>oi_transactionId = tx_id t, oi_eventType = ''TRANSFER_SETTLED'', oi_payload = p\<rparr> w w' \<Longrightarrow>
      Q t w'"
  shows "wp (executeTransfer input b c p) Q (\<lambda>_ _. True) w"
  unfolding executeTransfer_def wp_bindP wp_thenP wp_ret wp_now
  apply (rule wp_partial_transaction_create, simp only: Let_def, rule impI)
  apply (rule wp_partial_ledgerEntry_create, simp only: Let_def)
  apply (rule wp_partial_ledgerEntry_create, simp only: Let_def)
  apply (rule wp_partial_outboxEvent_create, simp only: Let_def)
  apply (rule assms)
     apply (auto simp: posted_def new_transaction_def numeral_2_eq_2 upt_rec)
  done

end
