(* ===== verification/Transaction_Service.thy ===== *)
theory Transaction_Service
  imports Transaction_Repo
begin

text \<open>
  \<open>transaction/transaction.service.ts\<close>: deposit, withdrawal and transfer, the history and
  the single-transaction query. The block each method runs inside \<open>withTransaction\<close> is a
  definition of its own (\<open>..._block\<close>): between the idempotency check that precedes it and
  the block, other requests may commit. The lemmas \<open>..._block_run\<close> give the exact effect
  of a block that commits.
\<close>

section \<open>Inputs and results\<close>

text \<open>
  A validated request body: the amount is a JSON number with at most four decimals, so an
  integer number of ten-thousandths.
\<close>

record DepositDto =
  amount :: decimal
  dto_currency :: currency
  dto_idempotencyKey :: string
  description :: "string option"

record TransferDto = DepositDto +
  recipientUserId :: uuid

text \<open>\<open>@IsPositive() @Min(0.0001)\<close>: at least one ten-thousandth.\<close>

definition MoneyDto_valid :: "decimal \<Rightarrow> bool" where
  "MoneyDto_valid a \<longleftrightarrow> 0 < a \<and> 1 \<le> a"

record TransactionResult =
  tr_id :: uuid
  tr_idempotencyKey :: string
  tr_type :: transaction_type
  tr_status :: transaction_status
  tr_amount :: decimal
  tr_currency :: currency
  tr_description :: "string option"
  tr_createdAt :: instant
  tr_settledAt :: "instant option"

record MutationResult =
  mr_data :: TransactionResult
  mr_replayed :: bool

definition toResult :: "transaction \<Rightarrow> TransactionResult" where
  "toResult t = \<lparr>tr_id = tx_id t, tr_idempotencyKey = idempotencyKey t, tr_type = tx_type t,
     tr_status = tx_status t, tr_amount = tx_amount t, tr_currency = tx_currency t,
     tr_description = tx_description t, tr_createdAt = tx_createdAt t, tr_settledAt = settledAt t\<rparr>"

definition idempotent_replay :: "uuid \<Rightarrow> string \<Rightarrow> transaction \<Rightarrow> (world, unit) prog" where
  "idempotent_replay userId key existing = audit_log IDEMPOTENT_REPLAY
     \<lparr>ac_userId = Some userId, ac_userAgent = None,
      ac_meta = [(''idempotencyKey'', JStr key), (''transactionId'', JStr (tx_id existing))]\<rparr>"

section \<open>Guards\<close>

definition assertSufficientBalance :: "decimal \<Rightarrow> decimal \<Rightarrow> uuid \<Rightarrow> (world, unit) prog" where
  "assertSufficientBalance available required userId =
     (if available < required
      then bindP (decimal_toString available) (\<lambda>availableText.
        bindP (decimal_toString required) (\<lambda>requiredText.
        thenP (audit_warn WITHDRAWAL_FAILED
          \<lparr>ac_userId = Some userId, ac_userAgent = None,
           ac_meta = [(''reason'', JStr ''INSUFFICIENT_BALANCE''),
             (''available'', JStr availableText), (''required'', JStr requiredText)]\<rparr>)
        (throw (HttpExn UnprocessableEntityException ''Insufficient balance.''))))
      else ret ())"

section \<open>Deposit\<close>

definition wallet_payload :: "uuid \<Rightarrow> uuid \<Rightarrow> string \<Rightarrow> currency \<Rightarrow> payload" where
  "wallet_payload walletId userId a c =
     [(''walletId'', JStr walletId), (''userId'', JStr userId),
      (''amount'', JStr a), (''currency'', JStr (currency_str c))]"

definition deposit_block :: "uuid \<Rightarrow> DepositDto \<Rightarrow> (world, transaction) prog" where
  "deposit_block userId dto = withTransaction (
     bindP (findByUserId userId) (\<lambda>wallet.
     case wallet of
       None \<Rightarrow> throw (HttpExn ForbiddenException ''Wallet not found'')
     | Some wallet \<Rightarrow>
         bindP (lockWallet (w_id wallet)) (\<lambda>locked.
         thenP (assertActive locked)
         (thenP (assertCurrencyMatch locked (dto_currency dto))
         (bindP (creditPending (ws_id locked) (amount dto)) (\<lambda>pendingBalanceAfter.
         bindP (decimal_toString (amount dto)) (\<lambda>amountText.
         initiateDeposit
           \<lparr>ti_idempotencyKey = dto_idempotencyKey dto, ti_type = DEPOSIT, ti_status = INITIATED,
            ti_amount = amount dto, ti_currency = dto_currency dto,
            ti_description = description dto, ti_senderWalletId = None,
            ti_receiverWalletId = Some (ws_id locked), ti_provider = Some INTERNAL\<rparr>
           pendingBalanceAfter
           (wallet_payload (ws_id locked) userId amountText (dto_currency dto)))))))))"

definition deposit :: "uuid \<Rightarrow> DepositDto \<Rightarrow> (world, MutationResult) prog" where
  "deposit userId dto =
     bindP (findByIdempotencyKey (dto_idempotencyKey dto)) (\<lambda>existing.
     case existing of
       Some existing \<Rightarrow>
         thenP (idempotent_replay userId (dto_idempotencyKey dto) existing)
         (ret \<lparr>mr_data = toResult existing, mr_replayed = True\<rparr>)
     | None \<Rightarrow>
         bindP (deposit_block userId dto) (\<lambda>result.
         thenP (audit_log DEPOSIT_INITIATED
           \<lparr>ac_userId = Some userId, ac_userAgent = None,
            ac_meta = [(''transactionId'', JStr (tx_id result)), (''amount'', JDec (amount dto)),
              (''currency'', JStr (currency_str (dto_currency dto)))]\<rparr>)
         (ret \<lparr>mr_data = toResult result, mr_replayed = False\<rparr>)))"

section \<open>Withdrawal\<close>

definition withdraw_block :: "uuid \<Rightarrow> DepositDto \<Rightarrow> (world, transaction) prog" where
  "withdraw_block userId dto = withTransaction (
     bindP (findByUserId userId) (\<lambda>wallet.
     case wallet of
       None \<Rightarrow> throw (HttpExn ForbiddenException ''Wallet not found'')
     | Some wallet \<Rightarrow>
         bindP (lockWallet (w_id wallet)) (\<lambda>locked.
         thenP (assertActive locked)
         (thenP (assertCurrencyMatch locked (dto_currency dto))
         (thenP (assertSufficientBalance (ws_availableBalance locked) (amount dto) userId)
         (bindP (debitAvailableAndLock (ws_id locked) (amount dto)) (\<lambda>(_, lockedBalanceAfter).
         bindP (decimal_toString (amount dto)) (\<lambda>amountText.
         initiateWithdrawal
           \<lparr>ti_idempotencyKey = dto_idempotencyKey dto, ti_type = WITHDRAWAL, ti_status = INITIATED,
            ti_amount = amount dto, ti_currency = dto_currency dto,
            ti_description = description dto, ti_senderWalletId = Some (ws_id locked),
            ti_receiverWalletId = None, ti_provider = Some INTERNAL\<rparr>
           lockedBalanceAfter
           (wallet_payload (ws_id locked) userId amountText (dto_currency dto))))))))))"

definition withdraw :: "uuid \<Rightarrow> DepositDto \<Rightarrow> (world, MutationResult) prog" where
  "withdraw userId dto =
     bindP (findByIdempotencyKey (dto_idempotencyKey dto)) (\<lambda>existing.
     case existing of
       Some existing \<Rightarrow>
         thenP (idempotent_replay userId (dto_idempotencyKey dto) existing)
         (ret \<lparr>mr_data = toResult existing, mr_replayed = True\<rparr>)
     | None \<Rightarrow>
         bindP (withdraw_block userId dto) (\<lambda>result.
         thenP (audit_log WITHDRAWAL_INITIATED
           \<lparr>ac_userId = Some userId, ac_userAgent = None,
            ac_meta = [(''transactionId'', JStr (tx_id result)), (''amount'', JDec (amount dto)),
              (''currency'', JStr (currency_str (dto_currency dto)))]\<rparr>)
         (ret \<lparr>mr_data = toResult result, mr_replayed = False\<rparr>)))"

section \<open>Transfer\<close>

text \<open>The lower wallet id is locked first, whoever sends.\<close>

definition lock_order :: "uuid \<Rightarrow> uuid \<Rightarrow> uuid \<times> uuid" where
  "lock_order senderId receiverId =
     (if senderId < receiverId then (senderId, receiverId) else (receiverId, senderId))"

definition transfer_block ::
  "uuid \<Rightarrow> TransferDto \<Rightarrow> wallet \<Rightarrow> wallet \<Rightarrow> (world, transaction) prog" where
  "transfer_block userId dto senderWallet receiverWallet = withTransaction (
     let (firstId, secondId) = lock_order (w_id senderWallet) (w_id receiverWallet) in
     bindP (lockWallet firstId) (\<lambda>firstLocked.
     bindP (lockWallet secondId) (\<lambda>secondLocked.
     let lockedSender = (if ws_id firstLocked = w_id senderWallet then firstLocked else secondLocked);
         lockedReceiver = (if ws_id firstLocked = w_id receiverWallet then firstLocked else secondLocked) in
     thenP (assertActive lockedSender)
     (thenP (assertActive lockedReceiver)
     (thenP (assertCurrencyMatch lockedSender (dto_currency dto))
     (thenP (assertCurrencyMatch lockedReceiver (dto_currency dto))
     (thenP (assertSufficientBalance (ws_availableBalance lockedSender) (amount dto) userId)
     (bindP (debitAvailable (ws_id lockedSender) (amount dto)) (\<lambda>senderBalanceAfter.
     bindP (creditAvailable (ws_id lockedReceiver) (amount dto)) (\<lambda>receiverBalanceAfter.
     bindP (decimal_toString (amount dto)) (\<lambda>amountText.
     executeTransfer
       \<lparr>ti_idempotencyKey = dto_idempotencyKey dto, ti_type = TRANSFER, ti_status = SETTLED,
        ti_amount = amount dto, ti_currency = dto_currency dto,
        ti_description = description dto, ti_senderWalletId = Some (ws_id lockedSender),
        ti_receiverWalletId = Some (ws_id lockedReceiver), ti_provider = None\<rparr>
       senderBalanceAfter receiverBalanceAfter
       [(''senderWalletId'', JStr (ws_id lockedSender)), (''senderUserId'', JStr userId),
        (''receiverWalletId'', JStr (ws_id lockedReceiver)),
        (''receiverUserId'', JStr (recipientUserId dto)),
        (''amount'', JStr amountText),
        (''currency'', JStr (currency_str (dto_currency dto)))])))))))))))"

definition transfer :: "uuid \<Rightarrow> TransferDto \<Rightarrow> (world, MutationResult) prog" where
  "transfer userId dto =
     (if userId = recipientUserId dto
      then throw (HttpExn BadRequestException ''Cannot transfer to yourself.'')
      else bindP (findByIdempotencyKey (dto_idempotencyKey dto)) (\<lambda>existing.
     case existing of
       Some existing \<Rightarrow>
         thenP (idempotent_replay userId (dto_idempotencyKey dto) existing)
         (ret \<lparr>mr_data = toResult existing, mr_replayed = True\<rparr>)
     | None \<Rightarrow>
         bindP (findByUserId userId) (\<lambda>senderWallet.
         bindP (findByUserId (recipientUserId dto)) (\<lambda>receiverWallet.
         case senderWallet of
           None \<Rightarrow> throw (HttpExn ForbiddenException ''Sender wallet not found'')
         | Some senderWallet \<Rightarrow> (case receiverWallet of
           None \<Rightarrow> throw (HttpExn ForbiddenException ''Recipient wallet not found'')
         | Some receiverWallet \<Rightarrow>
             bindP (transfer_block userId dto senderWallet receiverWallet) (\<lambda>result.
             thenP (audit_log TRANSFER_SETTLED
               \<lparr>ac_userId = Some userId, ac_userAgent = None,
                ac_meta = [(''transactionId'', JStr (tx_id result)),
                  (''recipientUserId'', JStr (recipientUserId dto)), (''amount'', JDec (amount dto)),
                  (''currency'', JStr (currency_str (dto_currency dto)))]\<rparr>)
             (ret \<lparr>mr_data = toResult result, mr_replayed = False\<rparr>)))))))"

section \<open>Queries\<close>

record PageMeta =
  pm_total :: int
  pm_page :: int
  pm_limit :: int
  pm_totalPages :: int

record TransactionQueryDto =
  page :: int
  limit :: int

text \<open>\<open>Math.ceil(a / b)\<close> of two integers.\<close>

definition ceil_div :: "int \<Rightarrow> int \<Rightarrow> int" where
  "ceil_div a b = - ((- a) div b)"

definition getTransactionHistory ::
  "uuid \<Rightarrow> TransactionQueryDto \<Rightarrow> (world, TransactionResult list \<times> PageMeta) prog" where
  "getTransactionHistory userId query =
     bindP (findByUserId userId) (\<lambda>wallet.
     case wallet of
       None \<Rightarrow> throw (HttpExn ForbiddenException ''Wallet not found'')
     | Some wallet \<Rightarrow>
         bindP (findByWalletPaginated (w_id wallet) (page query) (limit query)) (\<lambda>(items, total).
         ret (map toResult items,
           \<lparr>pm_total = total, pm_page = page query, pm_limit = limit query,
            pm_totalPages = ceil_div total (limit query)\<rparr>)))"

definition getTransaction :: "uuid \<Rightarrow> uuid \<Rightarrow> (world, TransactionResult) prog" where
  "getTransaction userId transactionId =
     bindP (findByUserId userId) (\<lambda>wallet.
     case wallet of
       None \<Rightarrow> throw (HttpExn ForbiddenException ''Wallet not found'')
     | Some wallet \<Rightarrow>
         bindP (findTransactionById transactionId) (\<lambda>transaction.
         case transaction of
           None \<Rightarrow> throw (HttpExn ForbiddenException ''Transaction not found.'')
         | Some t \<Rightarrow>
             if senderWalletId t \<noteq> Some (w_id wallet) \<and> receiverWalletId t \<noteq> Some (w_id wallet)
             then throw (HttpExn ForbiddenException ''Transaction not found.'')
             else ret (toResult t)))"

section \<open>What a committed block did\<close>

lemma wp_withTransaction_db:
  "wp (withTransaction m) Q (\<lambda>_ w'. db w' = db w) w = wp m Q (\<lambda>_ _. True) w"
  by (simp add: wp_withTransaction)

lemma wlp_assertSufficientBalance [wlp_intros]:
  "(r \<le> a \<Longrightarrow> Q () w) \<Longrightarrow> wp (assertSufficientBalance a r u) Q (\<lambda>_ _. True) w"
  by (simp add: assertSufficientBalance_def wp_simps)

lemma deposit_block_run:
  "wp (deposit_block userId dto) (\<lambda>t w'. \<exists>x y ls ev.
       find (\<lambda>x. w_userId x = userId) (wallets (db w)) = Some x
     \<and> find (\<lambda>y. w_id y = w_id x) (wallets (db w)) = Some y \<and> w_id y = w_id x
     \<and> w_status y = ACTIVE \<and> w_currency y = dto_currency dto
     \<and> tx_type t = DEPOSIT \<and> tx_status t = INITIATED \<and> tx_amount t = amount dto
     \<and> tx_currency t = dto_currency dto
     \<and> senderWalletId t = None \<and> receiverWalletId t = Some (w_id y)
     \<and> idempotencyKey t = dto_idempotencyKey dto
     \<and> posted t ls ev (moved (w_id y) 0 0 (amount dto) w) w')
   (\<lambda>_ w'. db w' = db w) w"
  unfolding deposit_block_def wp_withTransaction_db
  apply (intro wlp_intros initiateDeposit_run)
  apply (auto simp: new_transaction_def)
  done

lemma withdraw_block_run:
  "wp (withdraw_block userId dto) (\<lambda>t w'. \<exists>x y ls ev.
       find (\<lambda>x. w_userId x = userId) (wallets (db w)) = Some x
     \<and> find (\<lambda>y. w_id y = w_id x) (wallets (db w)) = Some y \<and> w_id y = w_id x
     \<and> w_status y = ACTIVE \<and> w_currency y = dto_currency dto
     \<and> amount dto \<le> availableBalance y
     \<and> tx_type t = WITHDRAWAL \<and> tx_status t = INITIATED \<and> tx_amount t = amount dto
     \<and> tx_currency t = dto_currency dto
     \<and> senderWalletId t = Some (w_id y) \<and> receiverWalletId t = None
     \<and> idempotencyKey t = dto_idempotencyKey dto
     \<and> posted t ls ev (moved (w_id y) (- amount dto) (amount dto) 0 w) w')
   (\<lambda>_ w'. db w' = db w) w"
  unfolding withdraw_block_def wp_withTransaction_db
  apply (intro wlp_intros initiateWithdrawal_run)
  apply (auto simp: new_transaction_def)
  done

definition transfer_entries ::
  "wallet \<Rightarrow> wallet \<Rightarrow> transaction \<Rightarrow> (uuid \<times> CreateLedgerEntryInput) list" where
  "transfer_entries s r t =
     [(w_id s, \<lparr>li_walletId = Some (w_id s), li_transactionId = tx_id t, li_direction = DEBIT,
        li_amount = tx_amount t, li_currency = tx_currency t,
        li_balanceAfter = availableBalance s - tx_amount t\<rparr>),
      (w_id r, \<lparr>li_walletId = Some (w_id r), li_transactionId = tx_id t, li_direction = CREDIT,
        li_amount = tx_amount t, li_currency = tx_currency t,
        li_balanceAfter = availableBalance r + tx_amount t\<rparr>)]"

lemma transfer_block_run:
  assumes "w_id sw \<noteq> w_id rw"
  shows "wp (transfer_block userId dto sw rw) (\<lambda>t w'. \<exists>s r ev.
       find (\<lambda>x. w_id x = w_id sw) (wallets (db w)) = Some s
     \<and> find (\<lambda>x. w_id x = w_id rw) (wallets (db w)) = Some r
     \<and> w_id s = w_id sw \<and> w_id r = w_id rw
     \<and> w_status s = ACTIVE \<and> w_status r = ACTIVE
     \<and> w_currency s = dto_currency dto \<and> w_currency r = dto_currency dto
     \<and> amount dto \<le> availableBalance s
     \<and> tx_type t = TRANSFER \<and> tx_status t = SETTLED \<and> tx_amount t = amount dto
     \<and> tx_currency t = dto_currency dto
     \<and> senderWalletId t = Some (w_id s) \<and> receiverWalletId t = Some (w_id r)
     \<and> idempotencyKey t = dto_idempotencyKey dto
     \<and> posted t (transfer_entries s r t) ev
         (moved (w_id r) (amount dto) 0 0 (moved (w_id s) (- amount dto) 0 0 w)) w')
   (\<lambda>_ w'. db w' = db w) w"
proof (cases "w_id sw < w_id rw")
  case True
  then have lo: "lock_order (w_id sw) (w_id rw) = (w_id sw, w_id rw)" by (simp add: lock_order_def)
  show ?thesis
    unfolding transfer_block_def wp_withTransaction_db lo
    apply (simp only: Let_def prod.case)
    apply (intro wlp_intros executeTransfer_run)
    apply (use assms in \<open>auto simp: new_transaction_def transfer_entries_def row_simps\<close>)
    done
next
  case False
  then have lo: "lock_order (w_id sw) (w_id rw) = (w_id rw, w_id sw)" by (simp add: lock_order_def)
  show ?thesis
    unfolding transfer_block_def wp_withTransaction_db lo
    apply (simp only: Let_def prod.case)
    apply (intro wlp_intros executeTransfer_run)
    apply (use assms in \<open>auto simp: new_transaction_def transfer_entries_def row_simps\<close>)
    done
qed

end
