(* ===== verification/Row_Locks.thy ===== *)
theory Row_Locks
  imports Transaction_Service
begin

text \<open>
  Database transactions statement by statement. A block is the tree of its statements on
  wallet rows: \<open>SELECT ... FOR UPDATE\<close>, an \<open>UPDATE\<close> that adds to the balances, a plain read,
  commit and rollback. Several transactions interleave under the row locks of the database
  (read committed): a write is visible to others only after the commit, and a row locked or
  written by one transaction makes the others wait. Shown is that blocks that read under
  their locks are serialisable in the order of their commits, and that blocks that lock in
  ascending order never deadlock.
\<close>

section \<open>Statements\<close>

datatype stmt =
    LockRow uuid "wallet_snapshot option \<Rightarrow> stmt"
  | ReadRow uuid "wallet_snapshot option \<Rightarrow> stmt"
  | AddRow uuid decimal decimal decimal stmt
  | Commit
  | Rollback

type_synonym rows = "uuid \<Rightarrow> wallet_snapshot option"

definition add_balances :: "decimal \<Rightarrow> decimal \<Rightarrow> decimal \<Rightarrow> wallet_snapshot \<Rightarrow> wallet_snapshot" where
  "add_balances da dl dp s = s\<lparr>ws_availableBalance := ws_availableBalance s + da,
     ws_lockedBalance := ws_lockedBalance s + dl, ws_pendingBalance := ws_pendingBalance s + dp\<rparr>"

text \<open>The block run alone; \<open>None\<close> when it rolls back.\<close>

primrec alone :: "stmt \<Rightarrow> rows \<Rightarrow> rows option" where
  "alone (LockRow i f) m = alone (f (m i)) m"
| "alone (ReadRow i f) m = alone (f (m i)) m"
| "alone (AddRow i da dl dp s) m = (case m i of
     None \<Rightarrow> None | Some x \<Rightarrow> alone s (m(i \<mapsto> add_balances da dl dp x)))"
| "alone Commit m = Some m"
| "alone Rollback m = None"

fun serially :: "stmt list \<Rightarrow> rows \<Rightarrow> rows option" where
  "serially [] m = Some m"
| "serially (b # bs) m = Option.bind (alone b m) (serially bs)"

text \<open>No plain read of a row; locks in ascending order; at most \<open>n\<close> statements.\<close>

primrec reads_locked :: "stmt \<Rightarrow> bool" where
  "reads_locked (LockRow i f) = (\<forall>x. reads_locked (f x))"
| "reads_locked (ReadRow i f) = False"
| "reads_locked (AddRow i da dl dp s) = reads_locked s"
| "reads_locked Commit = True"
| "reads_locked Rollback = True"

definition may_lock :: "uuid \<Rightarrow> uuid set \<Rightarrow> bool" where
  "may_lock i H \<longleftrightarrow> i \<in> H \<or> (\<forall>h \<in> H. h < i)"

primrec ascending :: "stmt \<Rightarrow> uuid set \<Rightarrow> bool" where
  "ascending (LockRow i f) H = (may_lock i H \<and> (\<forall>x. ascending (f x) (insert i H)))"
| "ascending (ReadRow i f) H = (\<forall>x. ascending (f x) H)"
| "ascending (AddRow i da dl dp s) H = (may_lock i H \<and> ascending s (insert i H))"
| "ascending Commit H = True"
| "ascending Rollback H = True"

primrec short :: "stmt \<Rightarrow> nat \<Rightarrow> bool" where
  "short (LockRow i f) n = (case n of 0 \<Rightarrow> False | Suc k \<Rightarrow> \<forall>x. short (f x) k)"
| "short (ReadRow i f) n = (case n of 0 \<Rightarrow> False | Suc k \<Rightarrow> \<forall>x. short (f x) k)"
| "short (AddRow i da dl dp s) n = (case n of 0 \<Rightarrow> False | Suc k \<Rightarrow> short s k)"
| "short Commit n = (0 < n)"
| "short Rollback n = (0 < n)"

section \<open>Transactions side by side\<close>

text \<open>
  A running transaction: the block it runs, what is left of it, the rows it has locked, and
  the rows it has written and not yet committed.
\<close>

record running =
  block :: stmt
  rest :: stmt
  held :: "uuid set"
  own :: rows

definition begun :: "stmt \<Rightarrow> running" where
  "begun b = \<lparr>block = b, rest = b, held = {}, own = (\<lambda>_. None)\<rparr>"

text \<open>Committed rows, running transactions, and the blocks committed so far.\<close>

type_synonym dbms = "rows \<times> running list \<times> stmt list"

definition unlocked :: "uuid \<Rightarrow> running list \<Rightarrow> bool" where
  "unlocked i ts \<longleftrightarrow> (\<forall>t \<in> set ts. i \<notin> held t)"

text \<open>A statement of a transaction; a statement that needs a row another one holds waits.\<close>

inductive work :: "dbms \<Rightarrow> dbms \<Rightarrow> bool" where
  lock_row: "rest t = LockRow i f \<Longrightarrow> unlocked i (as @ bs) \<Longrightarrow>
    work (m, as @ t # bs, l) (m, as @ t\<lparr>rest := f ((m ++ own t) i), held := insert i (held t)\<rparr> # bs, l)"
| read_row: "rest t = ReadRow i f \<Longrightarrow>
    work (m, as @ t # bs, l) (m, as @ t\<lparr>rest := f ((m ++ own t) i)\<rparr> # bs, l)"
| add_row: "rest t = AddRow i da dl dp s \<Longrightarrow> unlocked i (as @ bs) \<Longrightarrow> (m ++ own t) i = Some x \<Longrightarrow>
    work (m, as @ t # bs, l)
      (m, as @ t\<lparr>rest := s, held := insert i (held t), own := (own t)(i \<mapsto> add_balances da dl dp x)\<rparr> # bs, l)"
| no_row: "rest t = AddRow i da dl dp s \<Longrightarrow> unlocked i (as @ bs) \<Longrightarrow> (m ++ own t) i = None \<Longrightarrow>
    work (m, as @ t # bs, l) (m, as @ bs, l)"
| commit: "rest t = Commit \<Longrightarrow> work (m, as @ t # bs, l) (m ++ own t, as @ bs, l @ [block t])"
| rollback: "rest t = Rollback \<Longrightarrow> work (m, as @ t # bs, l) (m, as @ bs, l)"

text \<open>
  The database: transactions begin with a block of the given kind, work, or are aborted at
  any point (a constraint, a lost connection).
\<close>

inductive turn :: "(stmt \<Rightarrow> bool) \<Rightarrow> dbms \<Rightarrow> dbms \<Rightarrow> bool" for kind where
  begins: "kind b \<Longrightarrow> turn kind (m, ts, l) (m, begun b # ts, l)"
| works: "work s s' \<Longrightarrow> turn kind s s'"
| aborts: "turn kind (m, as @ t # bs, l) (m, as @ bs, l)"

inductive running_from :: "(stmt \<Rightarrow> bool) \<Rightarrow> rows \<Rightarrow> dbms \<Rightarrow> bool" for kind m0 where
  idle: "running_from kind m0 (m0, [], [])"
| next_turn: "running_from kind m0 s \<Longrightarrow> turn kind s s' \<Longrightarrow> running_from kind m0 s'"

section \<open>Serialisability\<close>

text \<open>
  What a running transaction has done is what its block would do on any rows that agree
  with the committed ones where it holds locks.
\<close>

definition isolated :: "rows \<Rightarrow> running \<Rightarrow> bool" where
  "isolated m t \<longleftrightarrow> reads_locked (rest t) \<and> dom (own t) \<subseteq> held t
     \<and> (\<forall>n. (\<forall>i \<in> held t. n i = m i) \<longrightarrow> alone (block t) n = alone (rest t) (n ++ own t))"

definition apart :: "running \<Rightarrow> running \<Rightarrow> bool" where
  "apart t u \<longleftrightarrow> (\<forall>i. \<not> (i \<in> held t \<and> i \<in> held u))"

fun disjoint_locks :: "running list \<Rightarrow> bool" where
  "disjoint_locks [] = True"
| "disjoint_locks (t # ts) = ((\<forall>u \<in> set ts. apart t u) \<and> disjoint_locks ts)"

definition serial_so_far :: "rows \<Rightarrow> dbms \<Rightarrow> bool" where
  "serial_so_far m0 s \<longleftrightarrow> (case s of (m, ts, l) \<Rightarrow>
     serially l m0 = Some m \<and> disjoint_locks ts \<and> (\<forall>t \<in> set ts. isolated m t))"

lemma serially_snoc: "serially (bs @ [b]) m = Option.bind (serially bs m) (alone b)"
  by (induction bs arbitrary: m) (auto split: Option.bind_splits)

lemma apart_sym: "apart t u = apart u t"
  by (auto simp: apart_def)

lemma disjoint_middle:
  "disjoint_locks (as @ t # bs) \<longleftrightarrow> disjoint_locks (as @ bs) \<and> (\<forall>u \<in> set (as @ bs). apart t u)"
  by (induction as) (auto simp: apart_sym)

lemma disjoint_insert:
  assumes "disjoint_locks (as @ t # bs)" and "unlocked i (as @ bs)" and "held t' = insert i (held t)"
  shows "disjoint_locks (as @ t' # bs)"
proof -
  have "apart t' u" if "u \<in> set (as @ bs)" for u
  proof -
    have "apart t u" "i \<notin> held u" using assms(1,2) that by (simp_all add: disjoint_middle unlocked_def)
    then show ?thesis by (auto simp: apart_def assms(3))
  qed
  with assms(1) show ?thesis by (simp add: disjoint_middle)
qed

lemma isolated_others:
  assumes "isolated m u" and "\<And>i. i \<in> held u \<Longrightarrow> m' i = m i"
  shows "isolated m' u"
  using assms by (auto simp: isolated_def)

lemma own_off: "dom (own t) \<subseteq> held t \<Longrightarrow> i \<notin> held t \<Longrightarrow> (m ++ own t) i = m i"
  by (auto simp: map_add_def split: option.splits)

lemma isolatedD:
  "isolated m t \<Longrightarrow> (\<And>i. i \<in> held t \<Longrightarrow> n i = m i) \<Longrightarrow> alone (block t) n = alone (rest t) (n ++ own t)"
  by (simp add: isolated_def)

lemma same_view: "n i = m i \<Longrightarrow> (n ++ p) i = ((m :: rows) ++ p) i"
  by (simp add: map_add_def split: option.split)

lemma isolated_lock:
  assumes "isolated m t" and "rest t = LockRow i f"
  shows "isolated m (t\<lparr>rest := f ((m ++ own t) i), held := insert i (held t)\<rparr>)"
proof -
  have "alone (block t) n = alone (f ((m ++ own t) i)) (n ++ own t)" if "\<forall>j \<in> insert i (held t). n j = m j" for n
  proof -
    have "alone (block t) n = alone (rest t) (n ++ own t)" by (rule isolatedD [OF assms(1)]) (use that in blast)
    moreover have "(n ++ own t) i = (m ++ own t) i" by (rule same_view) (use that in blast)
    ultimately show ?thesis using assms(2) by simp
  qed
  moreover have "reads_locked (f ((m ++ own t) i))" "dom (own t) \<subseteq> insert i (held t)"
    using assms by (auto simp: isolated_def)
  ultimately show ?thesis by (simp add: isolated_def)
qed

lemma isolated_add:
  assumes "isolated m t" and "rest t = AddRow i da dl dp s" and "(m ++ own t) i = Some x"
  shows "isolated m (t\<lparr>rest := s, held := insert i (held t), own := (own t)(i \<mapsto> add_balances da dl dp x)\<rparr>)"
proof -
  have "alone (block t) n = alone s (n ++ (own t)(i \<mapsto> add_balances da dl dp x))"
    if "\<forall>j \<in> insert i (held t). n j = m j" for n
  proof -
    have "alone (block t) n = alone (rest t) (n ++ own t)" by (rule isolatedD [OF assms(1)]) (use that in blast)
    moreover have "(n ++ own t) i = Some x" using same_view [of n i m] that assms(3) by simp
    ultimately show ?thesis using assms(2) by simp
  qed
  moreover have "reads_locked s" "dom ((own t)(i \<mapsto> add_balances da dl dp x)) \<subseteq> insert i (held t)"
    using assms by (auto simp: isolated_def)
  ultimately show ?thesis by (simp add: isolated_def)
qed

lemma serial_replace:
  assumes "serial_so_far m0 (m, as @ t # bs, l)" and "disjoint_locks (as @ t' # bs)" and "isolated m t'"
  shows "serial_so_far m0 (m, as @ t' # bs, l)"
  using assms by (simp add: serial_so_far_def)

lemma serial_drop: "serial_so_far m0 (m, as @ t # bs, l) \<Longrightarrow> serial_so_far m0 (m, as @ bs, l)"
  by (simp add: serial_so_far_def disjoint_middle)

lemma serial_parts:
  assumes "serial_so_far m0 (m, as @ t # bs, l)"
  shows "isolated m t" and "disjoint_locks (as @ t # bs)"
  using assms by (simp_all add: serial_so_far_def)

lemma serial_commit:
  assumes s: "serial_so_far m0 (m, as @ t # bs, l)" and c: "rest t = Commit"
  shows "serial_so_far m0 (m ++ own t, as @ bs, l @ [block t])"
proof -
  note t = serial_parts [OF s]
  have "alone (block t) m = Some (m ++ own t)" using isolatedD [OF t(1), of m] c by simp
  then have "serially (l @ [block t]) m0 = Some (m ++ own t)"
    using s by (simp add: serial_so_far_def serially_snoc)
  moreover have "isolated (m ++ own t) u" if "u \<in> set (as @ bs)" for u
  proof (rule isolated_others [of m])
    show "isolated m u" using s that by (auto simp: serial_so_far_def)
    fix i assume "i \<in> held u"
    moreover have "apart t u" using t(2) that by (simp add: disjoint_middle)
    ultimately have "i \<notin> held t" by (auto simp: apart_def)
    then show "(m ++ own t) i = m i" using t(1) by (intro own_off) (simp_all add: isolated_def)
  qed
  ultimately show ?thesis using t(2) by (simp add: serial_so_far_def disjoint_middle)
qed

lemma work_serial:
  assumes "work s s'" and "serial_so_far m0 s"
  shows "serial_so_far m0 s'"
  using assms
proof (induction rule: work.induct)
  case (lock_row t i f as bs m l)
  note t = serial_parts [OF lock_row(3)]
  show ?case
    by (rule serial_replace [OF lock_row(3) disjoint_insert [OF t(2) lock_row(2)] isolated_lock [OF t(1) lock_row(1)]]) simp
next
  case (read_row t i f m as bs l)
  then show ?case using serial_parts(1) [OF read_row(2)] by (simp add: isolated_def)
next
  case (add_row t i da dl dp s as bs m x l)
  note t = serial_parts [OF add_row(4)]
  show ?case
    by (rule serial_replace [OF add_row(4) disjoint_insert [OF t(2) add_row(2)] isolated_add [OF t(1) add_row(1,3)]]) simp
qed (blast intro: serial_drop serial_commit)+

lemma running_serial:
  assumes "running_from kind m0 s" and "\<And>b. kind b \<Longrightarrow> reads_locked b"
  shows "serial_so_far m0 s"
  using assms(1)
proof (induction rule: running_from.induct)
  case idle
  show ?case by (simp add: serial_so_far_def)
next
  case (next_turn s s')
  from next_turn.hyps(2) show ?case
  proof cases
    case (begins b m ts l)
    have "isolated m (begun b)" using assms(2) begins(3) by (simp add: isolated_def begun_def)
    with next_turn.IH begins show ?thesis by (simp add: serial_so_far_def apart_def begun_def)
  next
    case works
    with next_turn.IH show ?thesis by (blast intro: work_serial)
  next
    case (aborts m as t bs l)
    with next_turn.IH show ?thesis by (blast intro: serial_drop)
  qed
qed

section \<open>No deadlock\<close>

text \<open>What every running transaction keeps, and the row its next statement waits for.\<close>

definition orderly :: "running list \<Rightarrow> bool" where
  "orderly ts \<longleftrightarrow> disjoint_locks ts \<and> (\<forall>t \<in> set ts. ascending (rest t) (held t))"

definition wanted :: "stmt \<Rightarrow> uuid option" where
  "wanted s = (case s of LockRow i f \<Rightarrow> Some i | AddRow i da dl dp s \<Rightarrow> Some i | _ \<Rightarrow> None)"

lemma orderly_middle:
  "orderly (as @ t # bs) \<longleftrightarrow> orderly (as @ bs) \<and> ascending (rest t) (held t) \<and> (\<forall>u \<in> set (as @ bs). apart t u)"
  by (auto simp: orderly_def disjoint_middle)

lemma orderly_grow:
  assumes "orderly (as @ t # bs)" and "unlocked i (as @ bs)" and "held t' = insert i (held t)"
    and "ascending (rest t') (held t')"
  shows "orderly (as @ t' # bs)"
proof -
  from assms(1) have "disjoint_locks (as @ t # bs)" by (simp add: orderly_def)
  from disjoint_insert [OF this assms(2,3)] assms(1,4) show ?thesis by (simp add: orderly_def)
qed

lemma work_orderly:
  assumes "work s s'" and "orderly (fst (snd s))"
  shows "orderly (fst (snd s'))"
  using assms
proof (induction rule: work.induct)
  case (lock_row t i f as bs m l)
  then have "orderly (as @ t # bs)" by simp
  moreover from this lock_row(1) have "ascending (f x) (insert i (held t))" for x
    by (simp add: orderly_middle)
  ultimately show ?case using orderly_grow [OF _ lock_row(2)] by simp
next
  case (read_row t i f m as bs l)
  then show ?case by (simp add: orderly_middle apart_def)
next
  case (add_row t i da dl dp s as bs m x l)
  then have "orderly (as @ t # bs)" by simp
  moreover from this add_row(1) have "ascending s (insert i (held t))" by (simp add: orderly_middle)
  ultimately show ?case using orderly_grow [OF _ add_row(2)] by simp
qed (simp_all add: orderly_middle)

lemma running_orderly:
  assumes "running_from kind m0 s" and "\<And>b. kind b \<Longrightarrow> ascending b {}"
  shows "orderly (fst (snd s))"
  using assms(1)
proof (induction rule: running_from.induct)
  case idle
  show ?case by (simp add: orderly_def)
next
  case (next_turn s s')
  from next_turn.hyps(2) show ?case
  proof cases
    case (begins b m ts l)
    with next_turn.IH assms(2) show ?thesis by (simp add: orderly_def apart_def begun_def)
  next
    case works
    with next_turn.IH show ?thesis by (blast intro: work_orderly)
  next
    case (aborts m as t bs l)
    with next_turn.IH show ?thesis by (simp add: orderly_middle)
  qed
qed

lemma stuck_waits:
  assumes o: "orderly (as @ t # bs)" and stuck: "\<And>s'. \<not> work (m, as @ t # bs, l) s'"
  shows "\<exists>i u. wanted (rest t) = Some i \<and> (\<forall>h \<in> held t. h < i) \<and> u \<in> set (as @ bs) \<and> i \<in> held u"
proof -
  have blocked: "\<exists>u \<in> set (as @ bs). i \<in> held u" if "wanted (rest t) = Some i" for i
  proof (rule ccontr)
    assume "\<not> (\<exists>u \<in> set (as @ bs). i \<in> held u)"
    then have free: "unlocked i (as @ bs)" by (auto simp: unlocked_def)
    show False
    proof (cases "rest t")
      case (LockRow j f)
      with that free stuck show False by (auto simp: wanted_def intro: lock_row)
    next
      case (AddRow j da dl dp s)
      with that have add: "rest t = AddRow i da dl dp s" by (simp add: wanted_def)
      show False
      proof (cases "(m ++ own t) i")
        case None
        from stuck no_row [OF add free None] show False by (rule notE)
      next
        case (Some x)
        from stuck add_row [OF add free Some] show False by (rule notE)
      qed
    qed (use that in \<open>simp_all add: wanted_def\<close>)
  qed
  have waits: "\<exists>i. wanted (rest t) = Some i \<and> may_lock i (held t)"
  proof (cases "rest t")
    case (ReadRow j f)
    with stuck show ?thesis by (blast intro: read_row)
  next
    case Commit
    with stuck show ?thesis by (blast intro: commit)
  next
    case Rollback
    with stuck show ?thesis by (blast intro: rollback)
  qed (use o in \<open>simp_all add: orderly_middle wanted_def\<close>)
  then obtain i where i: "wanted (rest t) = Some i" "may_lock i (held t)" by blast
  from blocked [OF i(1)] obtain u where u: "u \<in> set (as @ bs)" "i \<in> held u" by blast
  from o u(1) have "apart t u" by (simp add: orderly_middle)
  with i u show ?thesis by (auto simp: apart_def may_lock_def)
qed

lemma no_deadlock:
  assumes o: "orderly ts" and "ts \<noteq> []"
  shows "\<exists>s'. work (m, ts, l) s'"
proof (rule ccontr)
  assume stuck: "\<not> (\<exists>s'. work (m, ts, l) s')"
  have waits: "\<exists>i. wanted (rest t) = Some i \<and> (\<forall>h \<in> held t. h < i) \<and> (\<exists>u \<in> set ts. i \<in> held u)"
    if t: "t \<in> set ts" for t
  proof -
    from t obtain as bs where ts: "ts = as @ t # bs" by (auto simp: in_set_conv_decomp)
    from stuck_waits [of as t bs m l] o stuck show ?thesis unfolding ts by auto
  qed
  define want where "want t = the (wanted (rest t))" for t :: running
  let ?W = "want ` set ts"
  have "Max ?W \<in> ?W" using assms(2) by (intro Max_in) simp_all
  then obtain t where t: "t \<in> set ts" "want t = Max ?W" by (metis imageE)
  from waits [OF t(1)] obtain u where u: "u \<in> set ts" "want t \<in> held u" by (auto simp: want_def)
  from waits [OF u(1)] u(2) have "want t < want u" by (auto simp: want_def)
  moreover have "want u \<le> Max ?W" using u(1) by (intro Max_ge) simp_all
  ultimately show False using t(2) by simp
qed

section \<open>Every schedule ends\<close>

text \<open>\<open>left_over ts ns\<close>: the transactions have at most so many statements left.\<close>

definition left_over :: "running list \<Rightarrow> nat list \<Rightarrow> bool" where
  "left_over ts ns \<longleftrightarrow> list_all2 (\<lambda>t n. short (rest t) n) ts ns"

lemma left_over_middle:
  "left_over (as @ t # bs) ns \<longleftrightarrow>
     (\<exists>ks n js. ns = ks @ n # js \<and> left_over as ks \<and> short (rest t) n \<and> left_over bs js)"
  unfolding left_over_def
  by (rule iffI, force simp: list_all2_append1 list_all2_Cons1) (auto intro!: list_all2_appendI)

lemma left_over_join: "left_over as ks \<Longrightarrow> left_over bs js \<Longrightarrow> left_over (as @ bs) (ks @ js)"
  by (simp add: left_over_def list_all2_appendI)

lemma left_over_step:
  assumes "left_over (as @ t # bs) ns" and "\<And>n. short (rest t) n \<Longrightarrow> \<exists>k < n. short (rest t') k"
  shows "\<exists>ns'. left_over (as @ t' # bs) ns' \<and> sum_list ns' < sum_list ns"
proof -
  from assms(1) obtain ks n js where ns: "ns = ks @ n # js" "left_over as ks" "short (rest t) n" "left_over bs js"
    by (auto simp: left_over_middle)
  from assms(2) [OF ns(3)] obtain k where "k < n" "short (rest t') k" by blast
  with ns show ?thesis by (intro exI [of _ "ks @ k # js"]) (auto simp: left_over_middle)
qed

lemma left_over_leave:
  assumes "left_over (as @ t # bs) ns"
  shows "\<exists>ns'. left_over (as @ bs) ns' \<and> sum_list ns' < sum_list ns"
proof -
  from assms obtain ks n js where ns: "ns = ks @ n # js" "left_over as ks" "short (rest t) n" "left_over bs js"
    by (auto simp: left_over_middle)
  have "0 < n" using ns(3) by (cases "rest t"; cases n) simp_all
  with ns show ?thesis by (intro exI [of _ "ks @ js"]) (auto intro: left_over_join)
qed

lemma work_uses_budget:
  assumes "work s s'" and "left_over (fst (snd s)) ns"
  shows "\<exists>ns'. left_over (fst (snd s')) ns' \<and> sum_list ns' < sum_list ns"
  using assms
proof (induction rule: work.induct)
  case (lock_row t i f as bs m l)
  then show ?case by (simp, intro left_over_step [of as t]) (auto split: nat.splits)
next
  case (read_row t i f m as bs l)
  then show ?case by (simp, intro left_over_step [of as t]) (auto split: nat.splits)
next
  case (add_row t i da dl dp s as bs m x l)
  then show ?case by (simp, intro left_over_step [of as t]) (auto split: nat.splits)
qed (simp_all add: left_over_leave)

lemma work_bounded: "(work ^^ n) s s' \<Longrightarrow> left_over (fst (snd s)) ns \<Longrightarrow> n \<le> sum_list ns"
proof (induction n arbitrary: s ns)
  case (Suc n)
  from Suc.prems(1) obtain v where v: "work s v" "(work ^^ n) v s'" using relpowp_Suc_D2 [of n work s s'] by blast
  from work_uses_budget [OF v(1) Suc.prems(2)] obtain ns'
    where "left_over (fst (snd v)) ns'" "sum_list ns' < sum_list ns" by blast
  with Suc.IH [OF v(2)] show ?case by fastforce
qed simp

lemma short_Suc: "short b n \<Longrightarrow> short b (Suc n)"
proof (induction b arbitrary: n)
  case (LockRow i f)
  from LockRow.prems obtain k where "n = Suc k" "\<forall>x. short (f x) k" by (simp split: nat.splits)
  then show ?case using LockRow.IH by simp
next
  case (ReadRow i f)
  from ReadRow.prems obtain k where "n = Suc k" "\<forall>x. short (f x) k" by (simp split: nat.splits)
  then show ?case using ReadRow.IH by simp
next
  case (AddRow i da dl dp b)
  from AddRow.prems obtain k where "n = Suc k" "short b k" by (simp split: nat.splits)
  then show ?case using AddRow.IH by simp
qed simp_all

definition all_short :: "nat \<Rightarrow> running list \<Rightarrow> bool" where
  "all_short n ts \<longleftrightarrow> (\<forall>t \<in> set ts. short (rest t) n)"

lemma all_short_left_over: "all_short n ts \<Longrightarrow> left_over ts (replicate (length ts) n)"
  by (simp add: all_short_def left_over_def list_all2_conv_all_nth)

lemma work_all_short:
  assumes "work s s'" and "all_short n (fst (snd s))"
  shows "all_short n (fst (snd s'))"
  using assms
proof (induction rule: work.induct)
  case (lock_row t i f as bs m l)
  then show ?case by (auto simp: all_short_def split: nat.splits intro: short_Suc)
next
  case (read_row t i f m as bs l)
  then show ?case by (auto simp: all_short_def split: nat.splits intro: short_Suc)
next
  case (add_row t i da dl dp s as bs m x l)
  then show ?case by (auto simp: all_short_def split: nat.splits intro: short_Suc)
qed (simp_all add: all_short_def)

lemma running_short:
  assumes "running_from kind m0 s" and "\<And>b. kind b \<Longrightarrow> short b n"
  shows "all_short n (fst (snd s))"
  using assms(1)
proof (induction rule: running_from.induct)
  case idle
  show ?case by (simp add: all_short_def)
next
  case (next_turn s s')
  from next_turn.hyps(2) show ?case
  proof cases
    case (begins b m ts l)
    with next_turn.IH assms(2) show ?thesis by (simp add: all_short_def begun_def)
  next
    case works
    with next_turn.IH show ?thesis by (blast intro: work_all_short)
  next
    case (aborts m as t bs l)
    with next_turn.IH show ?thesis by (simp add: all_short_def)
  qed
qed

lemma running_bounded:
  assumes "running_from kind m0 (m, ts, l)" and "\<And>b. kind b \<Longrightarrow> short b k" and "(work ^^ n) (m, ts, l) s"
  shows "n \<le> k * length ts"
  using work_bounded [OF assms(3)] all_short_left_over [of k ts] running_short [OF assms(1,2)]
  by (fastforce simp: sum_list_replicate mult.commute)

lemma running_works:
  assumes "running_from kind m0 s" and "(work ^^ n) s s'"
  shows "running_from kind m0 s'"
  using assms(2)
proof (induction n arbitrary: s')
  case 0
  then show ?case using assms(1) by simp
next
  case (Suc n)
  then show ?case by (auto intro: next_turn works)
qed

lemma running_progress:
  assumes "running_from kind m0 s" and "\<And>b. kind b \<Longrightarrow> ascending b {}"
  shows "(\<exists>s'. work s s') \<or> fst (snd s) = []"
proof (cases s)
  case (fields m ts l)
  show ?thesis using no_deadlock [of ts m l] running_orderly [OF assms(1,2)] fields by auto
qed

lemma work_kinds:
  assumes "work s s'" and "\<forall>t \<in> set (fst (snd s)). kind (block t)" and "\<forall>b \<in> set (snd (snd s)). kind b"
  shows "(\<forall>t \<in> set (fst (snd s')). kind (block t)) \<and> (\<forall>b \<in> set (snd (snd s')). kind b)"
  using assms by (induction rule: work.induct) auto

lemma running_kinds:
  assumes "running_from kind m0 s"
  shows "(\<forall>t \<in> set (fst (snd s)). kind (block t)) \<and> (\<forall>b \<in> set (snd (snd s)). kind b)"
  using assms
proof (induction rule: running_from.induct)
  case (next_turn s s')
  from next_turn.hyps(2) show ?case
  proof cases
    case works
    with next_turn.IH show ?thesis by (blast dest: work_kinds [of s s' kind])
  qed (use next_turn.IH in \<open>auto simp: begun_def\<close>)
qed simp

section \<open>Running a schedule\<close>

text \<open>The next statement of \<open>t\<close>, computed; \<open>None\<close> when it waits.\<close>

definition statement :: "rows \<Rightarrow> running list \<Rightarrow> running \<Rightarrow> running list \<Rightarrow> stmt list \<Rightarrow> dbms option" where
  "statement m as t bs l = (case rest t of
       LockRow i f \<Rightarrow> if unlocked i (as @ bs)
         then Some (m, as @ t\<lparr>rest := f ((m ++ own t) i), held := insert i (held t)\<rparr> # bs, l) else None
     | ReadRow i f \<Rightarrow> Some (m, as @ t\<lparr>rest := f ((m ++ own t) i)\<rparr> # bs, l)
     | AddRow i da dl dp s \<Rightarrow> if unlocked i (as @ bs)
         then Some (case (m ++ own t) i of
             None \<Rightarrow> (m, as @ bs, l)
           | Some x \<Rightarrow> (m, as @ t\<lparr>rest := s, held := insert i (held t),
               own := (own t)(i \<mapsto> add_balances da dl dp x)\<rparr> # bs, l)) else None
     | Commit \<Rightarrow> Some (m ++ own t, as @ bs, l @ [block t])
     | Rollback \<Rightarrow> Some (m, as @ bs, l))"

definition work_at :: "nat \<Rightarrow> dbms \<Rightarrow> dbms option" where
  "work_at k s = (case s of (m, ts, l) \<Rightarrow>
     if k < length ts then statement m (take k ts) (ts ! k) (drop (Suc k) ts) l else None)"

lemma statement_works:
  assumes "statement m as t bs l = Some s'"
  shows "work (m, as @ t # bs, l) s'"
proof (cases "rest t")
  case (AddRow i da dl dp q)
  show ?thesis
  proof (cases "(m ++ own t) i")
    case None
    with AddRow assms no_row [OF AddRow _ None] show ?thesis
      by (auto simp: statement_def simp del: map_add_None split: if_splits)
  next
    case (Some x)
    with AddRow assms add_row [OF AddRow _ Some] show ?thesis
      by (auto simp: statement_def simp del: map_add_Some_iff split: if_splits)
  qed
qed (use assms in \<open>auto simp: statement_def intro: work.intros split: if_splits\<close>)

lemma work_at_works: "work_at k s = Some s' \<Longrightarrow> work s s'"
  using statement_works [of _ "take k (fst (snd s))" "fst (snd s) ! k" "drop (Suc k) (fst (snd s))" _ s']
  by (auto simp: work_at_def id_take_nth_drop [symmetric] split: prod.splits if_splits)

lemma work_at_middle: "work_at (length as) (m, as @ t # bs, l) = statement m as t bs l"
  by (simp add: work_at_def)

lemma work_at_complete: "work s s' \<Longrightarrow> \<exists>k. work_at k s = Some s'"
proof (induction rule: work.induct)
  case (no_row t i da dl dp s as bs m l)
  then show ?case by (intro exI [of _ "length as"]) (simp add: work_at_middle statement_def del: map_add_None)
next
  case (add_row t i da dl dp s as bs m x l)
  then show ?case by (intro exI [of _ "length as"]) (simp add: work_at_middle statement_def del: map_add_Some_iff)
qed (rule exI, rule trans [OF work_at_middle], simp add: statement_def)+

lemma work_iff: "work s s' \<longleftrightarrow> (\<exists>k. work_at k s = Some s')"
  using work_at_works work_at_complete by blast

fun schedule :: "nat list \<Rightarrow> dbms \<Rightarrow> dbms option" where
  "schedule [] s = Some s"
| "schedule (k # ks) s = Option.bind (work_at k s) (schedule ks)"

lemma schedule_works: "schedule ks s = Some s' \<Longrightarrow> (work ^^ length ks) s s'"
proof (induction ks arbitrary: s)
  case (Cons k ks)
  then obtain v where v: "work_at k s = Some v" "schedule ks v = Some s'" by (auto simp: bind_eq_Some_conv)
  show ?case using relpowp_Suc_I2 [OF work_at_works [OF v(1)] Cons.IH [OF v(2)]] by simp
qed simp

lemma begin_all: "\<forall>b \<in> set bs. kind b \<Longrightarrow> running_from kind m (m, map begun bs, [])"
proof (induction bs)
  case (Cons b bs)
  then show ?case by (auto intro: next_turn begins)
qed (simp add: idle)

lemma schedule_running:
  "\<forall>b \<in> set bs. kind b \<Longrightarrow> schedule ks (m, map begun bs, []) = Some s \<Longrightarrow> running_from kind m s"
  by (rule running_works [OF begin_all schedule_works])

end
