(* ===== verification/Users_Repo.thy ===== *)
theory Users_Repo
  imports Wallet_Repo
begin

text \<open>
  \<open>user/users.repository.ts\<close> and \<open>stripe-connect/stripe-connect.repository.ts\<close>: the two
  repositories over the user table. Projections are records of the selected columns.
\<close>

section \<open>Projections\<close>

record UserProfile =
  up_id :: uuid
  up_name :: string
  up_email :: string
  up_phone :: string
  up_role :: role
  up_status :: account_status
  up_createdAt :: instant
  up_updatedAt :: instant

record WalletSummary =
  wsu_id :: uuid
  wsu_currency :: currency
  wsu_status :: account_status
  wsu_availableBalance :: decimal
  wsu_lockedBalance :: decimal
  wsu_pendingBalance :: decimal

record UserWithWallet = UserProfile +
  uw_wallet :: "WalletSummary option"

definition user_profile :: "user \<Rightarrow> UserProfile" where
  "user_profile u = \<lparr>up_id = u_id u, up_name = u_name u, up_email = u_email u, up_phone = u_phone u,
     up_role = u_role u, up_status = u_status u, up_createdAt = u_createdAt u,
     up_updatedAt = u_updatedAt u\<rparr>"

definition wallet_summary :: "wallet \<Rightarrow> WalletSummary" where
  "wallet_summary x = \<lparr>wsu_id = w_id x, wsu_currency = w_currency x, wsu_status = w_status x,
     wsu_availableBalance = availableBalance x, wsu_lockedBalance = lockedBalance x,
     wsu_pendingBalance = pendingBalance x\<rparr>"

definition user_with_wallet :: "wallet option \<Rightarrow> user \<Rightarrow> UserWithWallet" where
  "user_with_wallet x u = \<lparr>up_id = u_id u, up_name = u_name u, up_email = u_email u, up_phone = u_phone u,
     up_role = u_role u, up_status = u_status u, up_createdAt = u_createdAt u,
     up_updatedAt = u_updatedAt u, uw_wallet = map_option wallet_summary x\<rparr>"

section \<open>Reads\<close>

definition find_user :: "uuid \<Rightarrow> (world, user option) prog" where
  "find_user i = t_find users_t (\<lambda>u. u_id u = i)"

lemma wp_find_user [wp_simps]: "wp (find_user i) Q E w = Q (find (\<lambda>u. u_id u = i) (users (db w))) w"
  by (simp add: find_user_def wp_simps users_t_def)

definition users_findById :: "uuid \<Rightarrow> (world, UserWithWallet option) prog" where
  "users_findById i =
     bindP (find_user i) (\<lambda>u. bindP (findByUserId i) (\<lambda>x. ret (map_option (user_with_wallet x) u)))"

definition findByIdWithPassword :: "uuid \<Rightarrow> (world, (uuid \<times> string) option) prog" where
  "findByIdWithPassword i =
     bindP (find_user i) (\<lambda>u. ret (map_option (\<lambda>u. (u_id u, u_password u)) u))"

record UserFilters =
  uf_status :: "account_status option"
  uf_role :: "role option"

definition user_matches :: "UserFilters \<Rightarrow> user \<Rightarrow> bool" where
  "user_matches filters u \<longleftrightarrow>
     (case uf_status filters of None \<Rightarrow> True | Some s \<Rightarrow> u_status u = s) \<and>
     (case uf_role filters of None \<Rightarrow> True | Some r \<Rightarrow> u_role u = r)"

definition users_findAll :: "UserFilters \<Rightarrow> int \<Rightarrow> int \<Rightarrow> (world, UserProfile list \<times> int) prog" where
  "users_findAll filters page limit =
     (let skip = (page - 1) * limit in
      bindP (t_filter users_t (user_matches filters)) (\<lambda>rows.
      bindP (t_count users_t (user_matches filters)) (\<lambda>total.
      ret (map user_profile (take (nat limit) (drop (nat skip) (sort_key (\<lambda>u. - u_createdAt u) rows))),
           int total))))"

definition checkPhoneTaken :: "string \<Rightarrow> (world, string option) prog" where
  "checkPhoneTaken phone =
     bindP (t_find users_t (\<lambda>u. u_phone u = phone)) (\<lambda>u. ret (map_option u_phone u))"

definition findPaymentInternalById :: "uuid \<Rightarrow> (world, (uuid \<times> string option) option) prog" where
  "findPaymentInternalById i =
     bindP (find_user i) (\<lambda>u. ret (map_option (\<lambda>u. (u_id u, braintreeCustomerId u)) u))"

section \<open>Writes\<close>

definition updateProfile_repo :: "uuid \<Rightarrow> string option \<Rightarrow> string option \<Rightarrow> (world, UserProfile) prog" where
  "updateProfile_repo i name phone =
     catchP
       (bindP (t_update users_t (\<lambda>u. u_id u = i)
          (\<lambda>u. u\<lparr>u_name := (case name of None \<Rightarrow> u_name u | Some n \<Rightarrow> n),
                 u_phone := (case phone of None \<Rightarrow> u_phone u | Some p \<Rightarrow> p)\<rparr>))
        (\<lambda>u. ret (user_profile u)))
       (\<lambda>error. case error of
          PrismaKnown code _ \<Rightarrow>
            (if code = ''P2002'' then throw (HttpExn ConflictException ''Phone number already in use'')
             else throw error)
        | _ \<Rightarrow> throw error)"

definition revokeActive :: "uuid \<Rightarrow> (world, nat) prog" where
  "revokeActive userId =
     bindP now (\<lambda>date.
     t_updateMany refreshTokens_t (\<lambda>r. rt_userId r = userId \<and> revokedAt r = None)
       (\<lambda>r. r\<lparr>revokedAt := Some date\<rparr>))"

definition updatePasswordAndRevokeSessions :: "uuid \<Rightarrow> string \<Rightarrow> (world, unit) prog" where
  "updatePasswordAndRevokeSessions i hashedPassword = withTransaction (
     thenP (t_update users_t (\<lambda>u. u_id u = i) (\<lambda>u. u\<lparr>u_password := hashedPassword\<rparr>))
     (thenP (revokeActive i) (ret ())))"

definition updateStatusOrRole ::
  "uuid \<Rightarrow> account_status option \<Rightarrow> role option \<Rightarrow> (world, UserProfile) prog" where
  "updateStatusOrRole i status r =
     bindP (t_update users_t (\<lambda>u. u_id u = i)
       (\<lambda>u. u\<lparr>u_status := (case status of None \<Rightarrow> u_status u | Some s \<Rightarrow> s),
              u_role := (case r of None \<Rightarrow> u_role u | Some x \<Rightarrow> x)\<rparr>))
     (\<lambda>u. ret (user_profile u))"

definition upsertBraintreeCustomerId :: "uuid \<Rightarrow> string \<Rightarrow> (world, unit) prog" where
  "upsertBraintreeCustomerId userId customerId =
     bindP (find_user userId) (\<lambda>current.
     if Option.bind current braintreeCustomerId = Some customerId then ret ()
     else thenP (t_update users_t (\<lambda>u. u_id u = userId) (\<lambda>u. u\<lparr>braintreeCustomerId := Some customerId\<rparr>))
            (ret ()))"

text \<open>
  \<open>closeAccount\<close> reads the wallet without locking its row, and its transaction runs at the
  default isolation: other transactions may commit between the check and the writes. The
  two halves are definitions of their own, so that what holds of a closed account can be
  stated for any state the writes find (\<open>Session_Properties\<close>, \<open>Isolation\<close>).
\<close>

definition closeAccount_check :: "uuid \<Rightarrow> (world, unit) prog" where
  "closeAccount_check userId =
     bindP (t_find wallets_t (\<lambda>x. w_userId x = userId)) (\<lambda>wallet.
     case wallet of
         None \<Rightarrow> ret ()
       | Some wallet \<Rightarrow>
           if availableBalance wallet > 0 \<or> lockedBalance wallet > 0 \<or> pendingBalance wallet > 0
           then throw (HttpExn ConflictException
             ''Account cannot be closed while funds remain. Please withdraw all funds before closing your account.'')
           else ret ())"

definition closeAccount_writes :: "uuid \<Rightarrow> (world, unit) prog" where
  "closeAccount_writes userId =
     thenP (t_update users_t (\<lambda>u. u_id u = userId) (\<lambda>u. u\<lparr>u_status := CLOSED\<rparr>))
     (thenP (revokeActive userId) (ret ()))"

definition closeAccount_repo :: "uuid \<Rightarrow> (world, unit) prog" where
  "closeAccount_repo userId = withTransaction
     (thenP (closeAccount_check userId) (closeAccount_writes userId))"

lemmas closeAccount_defs = closeAccount_repo_def closeAccount_check_def closeAccount_writes_def

section \<open>Stripe Connect columns\<close>

definition connect_findById :: "uuid \<Rightarrow> (world, (uuid \<times> string option) option) prog" where
  "connect_findById userId =
     bindP (find_user userId) (\<lambda>u. ret (map_option (\<lambda>u. (u_id u, stripeConnectAccountId u)) u))"

definition findByConnectAccountId :: "string \<Rightarrow> (world, (uuid \<times> string option) option) prog" where
  "findByConnectAccountId acct =
     bindP (t_find users_t (\<lambda>u. stripeConnectAccountId u = Some acct)) (\<lambda>u.
     ret (map_option (\<lambda>u. (u_id u, stripeConnectAccountId u)) u))"

definition setConnectAccountId :: "uuid \<Rightarrow> string \<Rightarrow> (world, unit) prog" where
  "setConnectAccountId userId acct =
     thenP (t_update users_t (\<lambda>u. u_id u = userId) (\<lambda>u. u\<lparr>stripeConnectAccountId := Some acct\<rparr>)) (ret ())"

definition clearConnectAccountId :: "uuid \<Rightarrow> (world, unit) prog" where
  "clearConnectAccountId userId =
     thenP (t_update users_t (\<lambda>u. u_id u = userId) (\<lambda>u. u\<lparr>stripeConnectAccountId := None\<rparr>)) (ret ())"

end
