(* ===== verification/Payment_Repo.thy ===== *)
theory Payment_Repo
  imports Transaction_Repo Users_Repo
begin

text \<open>
  \<open>payment/payment.repository.ts\<close> and the provider contract
  (\<open>payment/dto/provider-result.dto.ts\<close>, \<open>providers/interface\<close>): the outbox query the
  processor polls, the delivery and retry marks, the payment log, and the results and
  adapters of payment providers.
\<close>

section \<open>Provider results\<close>

record ProviderResult =
  pr_success :: bool
  requiresWebhook :: "bool option"
  pr_providerRef :: "string option"
  pr_errorMessage :: "string option"
  rawResponse :: payload

record DepositIntentResult =
  di_success :: bool
  clientSecret :: "string option"
  clientToken :: "string option"
  intentId :: "string option"
  di_errorMessage :: "string option"
  di_rawResponse :: payload

text \<open>An adapter: the four methods of \<open>IPaymentProvider\<close>.\<close>

record IPaymentProvider =
  createDepositIntent :: "payload \<Rightarrow> (world, DepositIntentResult) prog"
  confirmDeposit :: "payload \<Rightarrow> (world, ProviderResult) prog"
  createPayout :: "payload \<Rightarrow> (world, ProviderResult) prog"
  process :: "payload \<Rightarrow> transaction_type \<Rightarrow> (world, ProviderResult) prog"

section \<open>Outbox\<close>

definition provider_events :: "string list" where
  "provider_events = [''DEPOSIT_INITIATED'', ''WITHDRAWAL_INITIATED'']"

definition pending_event :: "nat \<Rightarrow> outbox_event \<Rightarrow> bool" where
  "pending_event maxRetries e \<longleftrightarrow> deliveredAt e = None \<and> retryCount e < maxRetries
     \<and> List.member provider_events (eventType e)"

definition findPendingProviderEvents :: "nat \<Rightarrow> nat \<Rightarrow> (world, outbox_event list) prog" where
  "findPendingProviderEvents limit maxRetries =
     bindP (t_filter outboxEvents_t (pending_event maxRetries)) (\<lambda>rows. ret (take limit (oldest_first rows)))"

definition markDelivered :: "uuid \<Rightarrow> (world, unit) prog" where
  "markDelivered i =
     bindP now (\<lambda>date.
     thenP (t_update outboxEvents_t (\<lambda>e. oe_id e = i) (\<lambda>e. e\<lparr>deliveredAt := Some date\<rparr>)) (ret ()))"

definition incrementRetry :: "uuid \<Rightarrow> (world, unit) prog" where
  "incrementRetry i =
     thenP (t_update outboxEvents_t (\<lambda>e. oe_id e = i) (\<lambda>e. e\<lparr>retryCount := retryCount e + 1\<rparr>)) (ret ())"

section \<open>Payment log\<close>

record CreatePaymentLogInput =
  cl_transactionId :: uuid
  cl_provider :: "provider option"
  cl_providerRef :: "string option"
  cl_payload :: payload
  cl_status :: transaction_status

definition new_paymentLog :: "provider \<Rightarrow> CreatePaymentLogInput \<Rightarrow> uuid \<Rightarrow> instant \<Rightarrow> payment_log" where
  "new_paymentLog p input i t =
     \<lparr>pl_id = i, pl_transactionId = cl_transactionId input, pl_provider = p,
      pl_providerRef = cl_providerRef input, pl_payload = cl_payload input,
      pl_status = cl_status input, pl_createdAt = t\<rparr>"

definition createPaymentLog :: "CreatePaymentLogInput \<Rightarrow> (world, unit) prog" where
  "createPaymentLog input = (case cl_provider input of
     None \<Rightarrow> throw PrismaValidation
   | Some p \<Rightarrow> thenP (t_create paymentLogs_t (new_paymentLog p input)) (ret ()))"

section \<open>Transactions and users\<close>

definition setProviderRef :: "uuid \<Rightarrow> string \<Rightarrow> (world, unit) prog" where
  "setProviderRef transactionId ref =
     thenP (t_update transactions_t (\<lambda>t. tx_id t = transactionId) (\<lambda>t. t\<lparr>tx_providerRef := Some ref\<rparr>))
       (ret ())"

text \<open>The selected columns of a transaction, to which the processor adds the user id.\<close>

record TransactionContext =
  tc_id :: uuid
  tc_type :: transaction_type
  tc_status :: transaction_status
  tc_amount :: decimal
  tc_currency :: currency
  tc_provider :: "provider option"
  tc_senderWalletId :: "uuid option"
  tc_receiverWalletId :: "uuid option"
  tc_userId :: uuid

definition transaction_context :: "uuid \<Rightarrow> transaction \<Rightarrow> TransactionContext" where
  "transaction_context userId t =
     \<lparr>tc_id = tx_id t, tc_type = tx_type t, tc_status = tx_status t, tc_amount = tx_amount t,
      tc_currency = tx_currency t, tc_provider = tx_provider t,
      tc_senderWalletId = senderWalletId t, tc_receiverWalletId = receiverWalletId t,
      tc_userId = userId\<rparr>"

definition findUserById_payment :: "uuid \<Rightarrow> (world, string option option) prog" where
  "findUserById_payment i = bindP (find_user i) (\<lambda>u. ret (map_option paypalEmail u))"

section \<open>Partial-correctness rules\<close>

lemma wlp_createPaymentLog [wlp_intros]:
  assumes "\<And>p r. cl_provider input = Some p \<Longrightarrow>
      r = new_paymentLog p input (uuids w (uuid_next w)) (clock w) \<Longrightarrow>
      \<forall>l \<in> set (paymentLogs (db w)). pl_transactionId l \<noteq> cl_transactionId input \<Longrightarrow>
      has_transaction (db w) (cl_transactionId input) \<Longrightarrow>
      Q () (w\<lparr>uuid_next := Suc (uuid_next w), db := (db w)\<lparr>paymentLogs := paymentLogs (db w) @ [r]\<rparr>\<rparr>)"
  shows "wp (createPaymentLog input) Q (\<lambda>_ _. True) w"
proof (cases "cl_provider input")
  case None
  then show ?thesis by (simp add: createPaymentLog_def wp_throw)
next
  case (Some p)
  have "wp (t_create paymentLogs_t (new_paymentLog p input)) (\<lambda>_. Q ()) (\<lambda>_ _. True) w"
  proof (rule wp_partial_create, goal_cases)
    case (1 r)
    then have "\<forall>l \<in> set (paymentLogs (db w)). pl_transactionId l \<noteq> cl_transactionId input"
      and "has_transaction (db w) (cl_transactionId input)"
      by (auto simp: paymentLogs_t_def new_paymentLog_def list_ex_iff split: if_splits)
    from assms [OF Some 1(1) this] show ?case by (simp add: paymentLogs_t_def)
  qed
  with Some show ?thesis by (simp add: createPaymentLog_def wp_thenP wp_ret_fun)
qed

text \<open>Writes to one transaction row, to outbox rows and to user rows.\<close>

lemma wlp_t_update:
  assumes "\<And>r. find P (t_get T (db w)) = Some r \<Longrightarrow> t_fits T (t_touch T (clock w) (f r)) \<Longrightarrow>
     Q (t_touch T (clock w) (f r))
       (w\<lparr>db := t_put T (map (\<lambda>x. if P x then t_touch T (clock w) (f x) else x) (t_get T (db w))) (db w)\<rparr>)"
  shows "wp (t_update T P f) Q (\<lambda>_ _. True) w"
  using assms by (simp add: wp_t_update Let_def split: option.splits)

definition set_transactions :: "uuid \<Rightarrow> (transaction \<Rightarrow> transaction) \<Rightarrow> transaction list \<Rightarrow> transaction list" where
  "set_transactions i f = map (\<lambda>t. if tx_id t = i then f t else t)"

lemma set_transactions_comp:
  "(\<And>t. tx_id (g t) = tx_id t) \<Longrightarrow>
   set_transactions i f (set_transactions i g ts) = set_transactions i (f \<circ> g) ts"
  by (auto simp: set_transactions_def)

lemma wlp_transaction_update [wlp_intros]:
  assumes "\<And>t. find (\<lambda>t. tx_id t = i) (transactions (db w)) = Some t \<Longrightarrow>
     Q (f t\<lparr>tx_updatedAt := clock w\<rparr>)
       (w\<lparr>db := (db w)\<lparr>transactions :=
          set_transactions i (\<lambda>t. f t\<lparr>tx_updatedAt := clock w\<rparr>) (transactions (db w))\<rparr>\<rparr>)"
  shows "wp (t_update transactions_t (\<lambda>t. tx_id t = i) f) Q (\<lambda>_ _. True) w"
  by (rule wlp_t_update) (use assms in \<open>simp add: transactions_t_def set_transactions_def cong: if_cong\<close>)

lemma wlp_setProviderRef [wlp_intros]:
  assumes "\<And>t. find (\<lambda>t. tx_id t = i) (transactions (db w)) = Some t \<Longrightarrow>
     Q () (w\<lparr>db := (db w)\<lparr>transactions :=
          set_transactions i (\<lambda>t. t\<lparr>tx_providerRef := Some ref, tx_updatedAt := clock w\<rparr>) (transactions (db w))\<rparr>\<rparr>)"
  shows "wp (setProviderRef i ref) Q (\<lambda>_ _. True) w"
  unfolding setProviderRef_def by (intro wlp_intros) (use assms in simp)

lemma wlp_now [wlp_intros]: "Q (clock w) w \<Longrightarrow> wp now Q (\<lambda>_ _. True) w"
  by (simp add: wp_now)

text \<open>The outbox table after a write to the event \<open>i\<close>; nothing else changes.\<close>

lemma wlp_markDelivered [wlp_intros]:
  assumes "\<And>e. find (\<lambda>e. oe_id e = i) (outboxEvents (db w)) = Some e \<Longrightarrow>
     Q () (w\<lparr>db := (db w)\<lparr>outboxEvents :=
       map (\<lambda>e. if oe_id e = i then e\<lparr>deliveredAt := Some (clock w)\<rparr> else e) (outboxEvents (db w))\<rparr>\<rparr>)"
  shows "wp (markDelivered i) Q (\<lambda>_ _. True) w"
  unfolding markDelivered_def
  by (intro wlp_intros wlp_t_update) (use assms in \<open>simp add: outboxEvents_t_def cong: if_cong\<close>)

lemma wlp_upsertBraintreeCustomerId [wlp_intros]:
  assumes "Q () w" and "\<And>us. Q () (w\<lparr>db := (db w)\<lparr>users := us\<rparr>\<rparr>)"
  shows "wp (upsertBraintreeCustomerId u c) Q (\<lambda>_ _. True) w"
  unfolding upsertBraintreeCustomerId_def find_user_def t_find_def
  by (intro wlp_intros wlp_t_update) (use assms in \<open>simp_all add: users_t_def\<close>)

end
