(* ===== verification/Payment_Service.thy ===== *)
theory Payment_Service
  imports Payment_Repo Transaction_Service
begin

text \<open>
  \<open>payment/payment.service.ts\<close> and \<open>providers/registry\<close>: deposit intents, the
  confirmation of a deposit and the creation of a payout. As in \<open>Transaction_Service\<close>, the
  block that runs inside \<open>withTransaction\<close> is a definition of its own.
\<close>

section \<open>Registry\<close>

type_synonym registry = "provider \<Rightarrow> IPaymentProvider option"

text \<open>The map the constructor builds: \<open>INTERNAL\<close> has no adapter.\<close>

definition payment_registry :: "IPaymentProvider \<Rightarrow> IPaymentProvider \<Rightarrow> registry" where
  "payment_registry stripe paypal p =
     (case p of STRIPE \<Rightarrow> Some stripe | PAYPAL \<Rightarrow> Some paypal | INTERNAL \<Rightarrow> None)"

definition resolve :: "registry \<Rightarrow> provider \<Rightarrow> (world, IPaymentProvider) prog" where
  "resolve registry p = (case registry p of
     None \<Rightarrow> throw (JsError (''No payment provider adapter registered for provider \"'' @ provider_str p @
       ''\". Register it in PaymentProviderRegistry.''))
   | Some adapter \<Rightarrow> ret adapter)"

section \<open>Deposit intents\<close>

record CreateDepositIntentDto =
  ci_provider :: provider
  ci_amount :: decimal
  ci_currency :: currency

definition opt_field :: "string \<Rightarrow> string option \<Rightarrow> payload" where
  "opt_field k v = (case v of None \<Rightarrow> [] | Some s \<Rightarrow> [(k, JStr s)])"

definition createDepositIntent_service ::
  "registry \<Rightarrow> uuid \<Rightarrow> CreateDepositIntentDto \<Rightarrow> (world, DepositIntentResult) prog" where
  "createDepositIntent_service registry userId dto =
     bindP (findByUserId userId) (\<lambda>wallet.
     case wallet of
       None \<Rightarrow> throw (HttpExn NotFoundException ''Wallet not found'')
     | Some wallet \<Rightarrow>
         thenP (assertActive (snapshot wallet))
         (thenP (assertCurrencyMatch (snapshot wallet) (ci_currency dto))
         (bindP (resolve registry (ci_provider dto)) (\<lambda>provider.
         bindP (if ci_provider dto = PAYPAL
                then bindP (findPaymentInternalById userId) (\<lambda>u. ret (Option.bind u snd))
                else ret None) (\<lambda>customerId.
         createDepositIntent provider
           ([(''userId'', JStr userId), (''walletId'', JStr (w_id wallet)),
             (''amount'', JDec (ci_amount dto)), (''currency'', JStr (currency_str (ci_currency dto)))]
            @ opt_field ''customerId'' customerId))))))"

section \<open>Deposit confirmation\<close>

record ConfirmDepositDto = DepositDto +
  cd_provider :: provider
  paymentIntentId :: "string option"
  nonce :: "string option"
  cd_braintreeCustomerId :: "string option"

definition payment_result :: "transaction \<Rightarrow> uuid \<times> transaction_status" where
  "payment_result t = (tx_id t, tx_status t)"

definition truthy_field :: "string \<Rightarrow> string option \<Rightarrow> payload" where
  "truthy_field k v = (if truthy v then opt_field k v else [])"

definition confirm_payload :: "uuid \<Rightarrow> uuid \<Rightarrow> string \<Rightarrow> ConfirmDepositDto \<Rightarrow> payload" where
  "confirm_payload walletId userId amountText dto =
     wallet_payload walletId userId amountText (dto_currency dto)
     @ (if cd_provider dto = STRIPE then truthy_field ''paymentIntentId'' (paymentIntentId dto) else [])
     @ (if cd_provider dto = PAYPAL
        then truthy_field ''nonce'' (nonce dto) @ truthy_field ''customerId'' (cd_braintreeCustomerId dto)
        else [])"

definition confirmDeposit_block :: "uuid \<Rightarrow> ConfirmDepositDto \<Rightarrow> (world, transaction) prog" where
  "confirmDeposit_block userId dto = withTransaction (
     bindP (findByUserId userId) (\<lambda>wallet.
     case wallet of
       None \<Rightarrow> throw (HttpExn NotFoundException ''Wallet not found'')
     | Some wallet \<Rightarrow>
         bindP (lockWallet (w_id wallet)) (\<lambda>locked.
         thenP (assertActive locked)
         (thenP (assertCurrencyMatch locked (dto_currency dto))
         (thenP (creditPending (ws_id locked) (amount dto))
         (bindP (transaction_create
           \<lparr>ti_idempotencyKey = dto_idempotencyKey dto, ti_type = DEPOSIT, ti_status = INITIATED,
            ti_amount = amount dto, ti_currency = dto_currency dto,
            ti_description = description dto, ti_senderWalletId = None,
            ti_receiverWalletId = Some (ws_id locked), ti_provider = Some (cd_provider dto)\<rparr> None)
         (\<lambda>transaction.
         bindP (decimal_toString (amount dto)) (\<lambda>amountText.
         thenP (outboxEvent_create
           \<lparr>oi_transactionId = tx_id transaction, oi_eventType = ''DEPOSIT_INITIATED'',
            oi_payload = confirm_payload (ws_id locked) userId amountText dto\<rparr>)
         (ret transaction)))))))))"

definition confirmDeposit_service ::
  "uuid \<Rightarrow> ConfirmDepositDto \<Rightarrow> (world, uuid \<times> transaction_status) prog" where
  "confirmDeposit_service userId dto =
     bindP (findByIdempotencyKey (dto_idempotencyKey dto)) (\<lambda>existing.
     case existing of
       Some existing \<Rightarrow>
         thenP (idempotent_replay userId (dto_idempotencyKey dto) existing)
         (ret (payment_result existing))
     | None \<Rightarrow>
         bindP (confirmDeposit_block userId dto) (\<lambda>result.
         thenP (audit_log DEPOSIT_INITIATED
           \<lparr>ac_userId = Some userId, ac_userAgent = None,
            ac_meta = [(''transactionId'', JStr (tx_id result)), (''amount'', JDec (amount dto)),
              (''currency'', JStr (currency_str (dto_currency dto))),
              (''provider'', JStr (provider_str (cd_provider dto)))]\<rparr>)
         (ret (payment_result result))))"

section \<open>Payout\<close>

record CreatePayoutDto = DepositDto +
  cp_provider :: provider

definition resolveStripeConnectAccount :: "uuid \<Rightarrow> (world, string) prog" where
  "resolveStripeConnectAccount userId =
     bindP (connect_findById userId) (\<lambda>u.
     case Option.bind u snd of
       None \<Rightarrow> throw (HttpExn BadRequestException
         ''No Stripe Connect account linked. Complete Strip Connect account onboarding before initiating a Stripe payout.'')
     | Some acct \<Rightarrow>
         if acct = [] then throw (HttpExn BadRequestException
           ''No Stripe Connect account linked. Complete Strip Connect account onboarding before initiating a Stripe payout.'')
         else ret acct)"

definition resolvePaypalEmail :: "uuid \<Rightarrow> (world, string) prog" where
  "resolvePaypalEmail userId =
     bindP (findUserById_payment userId) (\<lambda>u.
     case u of
       None \<Rightarrow> throw (JsError ''Cannot read properties of null (reading 'paypalEmail')'')
     | Some email \<Rightarrow>
         if \<not> truthy email then throw (HttpExn BadRequestException
           ''No PayPalEmail configured. Complete PayPalEmail linking before initiating a PayPal payout.'')
         else ret (the email))"

definition createPayout_block :: "uuid \<Rightarrow> CreatePayoutDto \<Rightarrow> (world, transaction) prog" where
  "createPayout_block userId dto = withTransaction (
     bindP (findByUserId userId) (\<lambda>wallet.
     case wallet of
       None \<Rightarrow> throw (HttpExn NotFoundException ''Wallet not found'')
     | Some wallet \<Rightarrow>
         bindP (lockWallet (w_id wallet)) (\<lambda>locked.
         thenP (assertActive locked)
         (thenP (assertCurrencyMatch locked (dto_currency dto))
         (thenP (assertSufficientBalance (ws_availableBalance locked) (amount dto) userId)
         (thenP (debitAvailableAndLock (ws_id locked) (amount dto))
         (bindP (if cp_provider dto = STRIPE
                 then bindP (resolveStripeConnectAccount userId) (\<lambda>a.
                        ret [(''stripeConnectedAccountId'', JStr a)])
                 else ret []) (\<lambda>stripeFields.
         bindP (if cp_provider dto = PAYPAL
                then bindP (resolvePaypalEmail userId) (\<lambda>e. ret [(''paypalEmail'', JStr e)])
                else ret []) (\<lambda>paypalFields.
         bindP (transaction_create
           \<lparr>ti_idempotencyKey = dto_idempotencyKey dto, ti_type = WITHDRAWAL, ti_status = INITIATED,
            ti_amount = amount dto, ti_currency = dto_currency dto,
            ti_description = description dto, ti_senderWalletId = Some (ws_id locked),
            ti_receiverWalletId = None, ti_provider = Some (cp_provider dto)\<rparr> None)
         (\<lambda>transaction.
         bindP (decimal_toString (amount dto)) (\<lambda>amountText.
         thenP (outboxEvent_create
           \<lparr>oi_transactionId = tx_id transaction, oi_eventType = ''WITHDRAWAL_INITIATED'',
            oi_payload = wallet_payload (ws_id locked) userId amountText (dto_currency dto)
              @ stripeFields @ paypalFields\<rparr>)
         (ret transaction))))))))))))"

definition createPayout_service ::
  "uuid \<Rightarrow> CreatePayoutDto \<Rightarrow> (world, uuid \<times> transaction_status) prog" where
  "createPayout_service userId dto =
     bindP (findByIdempotencyKey (dto_idempotencyKey dto)) (\<lambda>existing.
     case existing of
       Some existing \<Rightarrow>
         thenP (idempotent_replay userId (dto_idempotencyKey dto) existing)
         (ret (payment_result existing))
     | None \<Rightarrow>
         bindP (createPayout_block userId dto) (\<lambda>result.
         thenP (audit_log WITHDRAWAL_INITIATED
           \<lparr>ac_userId = Some userId, ac_userAgent = None,
            ac_meta = [(''transactionId'', JStr (tx_id result)), (''amount'', JDec (amount dto)),
              (''currency'', JStr (currency_str (dto_currency dto))),
              (''provider'', JStr (provider_str (cp_provider dto)))]\<rparr>)
         (ret (payment_result result))))"

section \<open>What a committed block did\<close>

lemma wlp_enlist:
  assumes "\<And>t w'. t = new_transaction inp None (uuids w (uuid_next w)) (clock w) \<Longrightarrow>
     posted t [] (g (decimal_text w d) t) w w' \<Longrightarrow> Q t w'"
  shows "wp (bindP (transaction_create inp None) (\<lambda>t. bindP (decimal_toString d) (\<lambda>s. thenP (outboxEvent_create (g s t)) (ret t))))
    Q (\<lambda>_ _. True) w"
proof (intro wlp_bindP wp_partial_transaction_create, unfold Let_def, rule impI)
  let ?t = "new_transaction inp None (uuids w (uuid_next w)) (clock w)"
  let ?w = "w\<lparr>uuid_next := Suc (uuid_next w), db := (db w)\<lparr>transactions := transactions (db w) @ [?t]\<rparr>\<rparr>"
  assume "fresh_row ?t (db w)"
  then show "wp (bindP (decimal_toString d) (\<lambda>s. thenP (outboxEvent_create (g s ?t)) (ret ?t))) Q (\<lambda>_ _. True) ?w"
    by (intro wlp_bindP wlp_decimal_toString wlp_thenP wp_partial_outboxEvent_create)
       (simp add: wp_ret Let_def, rule assms, simp_all add: posted_def numeral_2_eq_2)
qed

lemma confirmDeposit_block_run:
  "wp (confirmDeposit_block userId dto) (\<lambda>t w'. \<exists>x y ev.
       find (\<lambda>x. w_userId x = userId) (wallets (db w)) = Some x
     \<and> find (\<lambda>y. w_id y = w_id x) (wallets (db w)) = Some y \<and> w_id y = w_id x
     \<and> w_status y = ACTIVE \<and> w_currency y = dto_currency dto
     \<and> tx_type t = DEPOSIT \<and> tx_status t = INITIATED \<and> tx_amount t = amount dto
     \<and> tx_currency t = dto_currency dto
     \<and> senderWalletId t = None \<and> receiverWalletId t = Some (w_id y)
     \<and> idempotencyKey t = dto_idempotencyKey dto \<and> tx_provider t = Some (cd_provider dto)
     \<and> posted t [] ev (moved (w_id y) 0 0 (amount dto) w) w')
   (\<lambda>_ w'. db w' = db w) w"
  unfolding confirmDeposit_block_def wp_withTransaction_db
  by (intro wlp_enlist wlp_intros) auto

lemma wlp_resolveStripeConnectAccount [wlp_intros]:
  "(\<And>a. Q a w) \<Longrightarrow> wp (resolveStripeConnectAccount u) Q (\<lambda>_ _. True) w"
  by (auto simp: resolveStripeConnectAccount_def connect_findById_def wp_simps split: option.splits)

lemma wlp_resolvePaypalEmail [wlp_intros]:
  "(\<And>a. Q a w) \<Longrightarrow> wp (resolvePaypalEmail u) Q (\<lambda>_ _. True) w"
  by (auto simp: resolvePaypalEmail_def findUserById_payment_def wp_simps split: option.splits)

lemma createPayout_block_run:
  "wp (createPayout_block userId dto) (\<lambda>t w'. \<exists>x y ev.
       find (\<lambda>x. w_userId x = userId) (wallets (db w)) = Some x
     \<and> find (\<lambda>y. w_id y = w_id x) (wallets (db w)) = Some y \<and> w_id y = w_id x
     \<and> w_status y = ACTIVE \<and> w_currency y = dto_currency dto
     \<and> amount dto \<le> availableBalance y
     \<and> tx_type t = WITHDRAWAL \<and> tx_status t = INITIATED \<and> tx_amount t = amount dto
     \<and> tx_currency t = dto_currency dto
     \<and> senderWalletId t = Some (w_id y) \<and> receiverWalletId t = None
     \<and> idempotencyKey t = dto_idempotencyKey dto \<and> tx_provider t = Some (cp_provider dto)
     \<and> posted t [] ev (moved (w_id y) (- amount dto) (amount dto) 0 w) w')
   (\<lambda>_ w'. db w' = db w) w"
  unfolding createPayout_block_def wp_withTransaction_db
  by (intro wlp_enlist wlp_intros) auto

end
