(* ===== verification/Encoding.thy ===== *)
theory Encoding
  imports Decimal
begin

text \<open>
  The parts of the JavaScript runtime the services lean on when they build texts: base64
  of a \<open>Buffer\<close>, \<open>String(x)\<close> of a JSON value, and what \<open>String(error)\<close> and \<open>error.message\<close>
  give for a thrown value. A string is a list of bytes; the code's own strings are ASCII.
\<close>

section \<open>Base64\<close>

definition b64_alphabet :: string where
  "b64_alphabet = ''ABCDEFGHIJKLMNOPQRSTUVWXYZabcdefghijklmnopqrstuvwxyz0123456789+/''"

definition b64_char :: "nat \<Rightarrow> char" where
  "b64_char n = b64_alphabet ! n"

text \<open>\<open>Buffer.from(s).toString('base64')\<close>\<close>

fun base64_encode :: "string \<Rightarrow> string" where
  "base64_encode [] = []"
| "base64_encode [a] =
     (let x = of_char a :: nat in
      [b64_char (x div 4), b64_char (x mod 4 * 16), CHR ''='', CHR ''=''])"
| "base64_encode [a, b] =
     (let x = of_char a :: nat; y = of_char b :: nat in
      [b64_char (x div 4), b64_char (x mod 4 * 16 + y div 16), b64_char (y mod 16 * 4), CHR ''=''])"
| "base64_encode (a # b # c # s) =
     (let x = of_char a :: nat; y = of_char b :: nat; z = of_char c :: nat in
      [b64_char (x div 4), b64_char (x mod 4 * 16 + y div 16), b64_char (y mod 16 * 4 + z div 64),
       b64_char (z mod 64)] @ base64_encode s)"

text \<open>
  \<open>Buffer.from(s, 'base64')\<close>: characters outside the two alphabets are skipped, and an
  incomplete last group gives the bytes it still determines.
\<close>

definition b64_value :: "char \<Rightarrow> nat option" where
  "b64_value c =
     (if CHR ''A'' \<le> c \<and> c \<le> CHR ''Z'' then Some (of_char c - 65)
      else if CHR ''a'' \<le> c \<and> c \<le> CHR ''z'' then Some (of_char c - 71)
      else if CHR ''0'' \<le> c \<and> c \<le> CHR ''9'' then Some (of_char c + 4)
      else if c = CHR ''+'' \<or> c = CHR ''-'' then Some 62
      else if c = CHR ''/'' \<or> c = CHR ''_'' then Some 63
      else None)"

fun b64_bytes :: "nat list \<Rightarrow> string" where
  "b64_bytes (p # q # r # s # rest) =
     [char_of (p * 4 + q div 16), char_of (q mod 16 * 16 + r div 4), char_of (r mod 4 * 64 + s)]
     @ b64_bytes rest"
| "b64_bytes [p, q, r] = [char_of (p * 4 + q div 16), char_of (q mod 16 * 16 + r div 4)]"
| "b64_bytes [p, q] = [char_of (p * 4 + q div 16)]"
| "b64_bytes [p] = []"
| "b64_bytes [] = []"

definition base64_decode :: "string \<Rightarrow> string" where
  "base64_decode s = b64_bytes (List.map_filter b64_value s)"

lemma b64_value_char: "n < 64 \<Longrightarrow> b64_value (b64_char n) = Some n"
proof -
  have "list_all (\<lambda>n. b64_value (b64_char n) = Some n) [0..<64]"
    by code_simp
  then show "n < 64 \<Longrightarrow> b64_value (b64_char n) = Some n"
    by (simp add: list_all_iff)
qed

lemma b64_value_pad: "b64_value CHR ''='' = None"
  by code_simp

lemma of_char_bound: "(of_char c :: nat) < 256"
  by simp

lemma group_div: "k < m \<Longrightarrow> (a * m + k) div m = (a :: nat)"
  by (metis add.right_neutral div_less div_mult_self3 not_less_zero)

lemma group_mod: "k < m \<Longrightarrow> (a * m + k) mod m = (k :: nat)"
  by simp

lemma div_bound: "y < 256 \<Longrightarrow> y div 16 < (16 :: nat)" "z < 256 \<Longrightarrow> z div 64 < (4 :: nat)"
    "x < 256 \<Longrightarrow> x div 4 < (64 :: nat)"
  by (rule less_mult_imp_div_less; simp)+

lemma b64_step:
  "x mod 4 * 16 < (64 :: nat)" "y < 256 \<Longrightarrow> x mod 4 * 16 + y div 16 < (64 :: nat)"
  "y mod 16 * 4 < (64 :: nat)" "z < 256 \<Longrightarrow> y mod 16 * 4 + z div 64 < (64 :: nat)"
proof -
  have m: "x mod 4 < 4" "y mod 16 < 16" by simp_all
  from m show "x mod 4 * 16 < 64" "y mod 16 * 4 < 64" by linarith+
  show "x mod 4 * 16 + y div 16 < 64" if "y < 256" using m div_bound(1) [OF that] by linarith
  show "y mod 16 * 4 + z div 64 < 64" if "z < 256" using m div_bound(2) [OF that] by linarith
qed

lemma b64_join:
  assumes "y < 256" and "z < 256"
  shows "x div 4 * 4 + (x mod 4 * 16 + y div 16) div 16 = (x :: nat)"
    and "(x mod 4 * 16 + y div 16) mod 16 * 16 + (y mod 16 * 4 + z div 64) div 4 = (y :: nat)"
    and "(y mod 16 * 4 + z div 64) mod 4 * 64 + z mod 64 = (z :: nat)"
proof -
  note b = div_bound(1) [OF assms(1)] div_bound(2) [OF assms(2)]
  have "x div 4 * 4 + x mod 4 = x" "y div 16 * 16 + y mod 16 = y" "z div 64 * 64 + z mod 64 = z"
    by (rule div_mult_mod_eq)+
  then show "x div 4 * 4 + (x mod 4 * 16 + y div 16) div 16 = x"
    "(x mod 4 * 16 + y div 16) mod 16 * 16 + (y mod 16 * 4 + z div 64) div 4 = y"
    "(y mod 16 * 4 + z div 64) mod 4 * 64 + z mod 64 = z"
    unfolding group_div [OF b(1)] group_mod [OF b(1)] group_div [OF b(2)] group_mod [OF b(2)]
    by blast+
qed

lemma char_of_of_char: "n = of_char c \<Longrightarrow> char_of (n :: nat) = c"
  by simp

lemma b64_group:
  "x < 256 \<Longrightarrow> y < 256 \<Longrightarrow> z < 256 \<Longrightarrow>
   List.map_filter b64_value ([b64_char (x div 4), b64_char (x mod 4 * 16 + y div 16),
     b64_char (y mod 16 * 4 + z div 64), b64_char (z mod 64)] @ s) =
   [x div 4, x mod 4 * 16 + y div 16, y mod 16 * 4 + z div 64, z mod 64] @ List.map_filter b64_value s"
  by (simp add: map_filter_simps b64_value_char b64_step div_bound)

lemma b64_tail:
  "x < 256 \<Longrightarrow> List.map_filter b64_value [b64_char (x div 4), b64_char (x mod 4 * 16), CHR ''='', CHR ''=''] =
     [x div 4, x mod 4 * 16 + 0 div 16]"
  "x < 256 \<Longrightarrow> y < 256 \<Longrightarrow> List.map_filter b64_value
     [b64_char (x div 4), b64_char (x mod 4 * 16 + y div 16), b64_char (y mod 16 * 4), CHR ''=''] =
     [x div 4, x mod 4 * 16 + y div 16, y mod 16 * 4 + 0 div 64]"
  by (simp_all add: map_filter_simps b64_value_char b64_value_pad b64_step div_bound)

lemma base64_roundtrip [simp]: "base64_decode (base64_encode s) = s"
  unfolding base64_decode_def
proof (induction s rule: base64_encode.induct)
  case 1
  then show ?case by (simp add: map_filter_simps)
next
  case (2 a)
  have "b64_bytes [of_char a div 4, of_char a mod 4 * 16 + 0 div 16] = [a]"
    unfolding b64_bytes.simps by (subst b64_join(1) [of 0 0]) simp_all
  then show ?case by (simp only: base64_encode.simps Let_def b64_tail of_char_bound)
next
  case (3 a b)
  have "b64_bytes [of_char a div 4, of_char a mod 4 * 16 + of_char b div 16, of_char b mod 16 * 4 + 0 div 64] = [a, b]"
    unfolding b64_bytes.simps
    by (simp only: b64_join [OF of_char_bound, of 0] b64_join(1) [OF of_char_bound of_char_bound] char_of_of_char zero_less_numeral)
  then show ?case by (simp only: base64_encode.simps Let_def b64_tail of_char_bound)
next
  case (4 a b c s)
  have "b64_bytes ([of_char a div 4, of_char a mod 4 * 16 + of_char b div 16,
      of_char b mod 16 * 4 + of_char c div 64, of_char c mod 64] @ ns) = a # b # c # b64_bytes ns" for ns
    unfolding append.simps b64_bytes.simps
    by (simp only: b64_join [OF of_char_bound of_char_bound] char_of_of_char append.simps)
  with 4 show ?case by (simp only: base64_encode.simps Let_def b64_group of_char_bound)
qed

section \<open>Printing values\<close>

definition int_str :: "int \<Rightarrow> string" where
  "int_str n = (if n < 0 then CHR ''-'' # nat_str (nat (- n)) else nat_str (nat n))"

text \<open>\<open>Array.prototype.join(',')\<close>\<close>

fun join_comma :: "string list \<Rightarrow> string" where
  "join_comma [] = []"
| "join_comma [s] = s"
| "join_comma (s # t # ss) = s @ '','' @ join_comma (t # ss)"

fun js_str :: "json \<Rightarrow> string" where
  "js_str JNull = ''null''"
| "js_str (JBool b) = (if b then ''true'' else ''false'')"
| "js_str (JInt n) = int_str n"
| "js_str (JDec d) = number_str d"
| "js_str (JNum s) = s"
| "js_str (JStr s) = s"
| "js_str (JArr vs) = join_comma (map (\<lambda>v. if v = JNull then [] else js_str v) vs)"
| "js_str (JObj fs) = ''[object Object]''"

text \<open>\<open>String(payload[k])\<close>, where the field may be missing.\<close>

definition js_String :: "json option \<Rightarrow> string" where
  "js_String v = (case v of None \<Rightarrow> ''undefined'' | Some j \<Rightarrow> js_str j)"

section \<open>Thrown values\<close>

definition is_Error :: "exn \<Rightarrow> bool" where
  "is_Error e = (case e of ThrownValue _ \<Rightarrow> False | _ \<Rightarrow> True)"

fun error_message :: "exn \<Rightarrow> string" where
  "error_message (HttpExn _ m) = m"
| "error_message (PrismaKnown code _) = ''Prisma request error '' @ code"
| "error_message PrismaValidation = ''Prisma validation error''"
| "error_message (StripeError m _) = m"
| "error_message (JsError m) = m"
| "error_message (ThrownValue s) = s"

text \<open>\<open>String(error)\<close>\<close>

definition error_str :: "exn \<Rightarrow> string" where
  "error_str e = (if is_Error e then ''Error: '' @ error_message e else error_message e)"

end
