(* ===== verification/Providers.thy ===== *)
theory Providers
  imports Payment_Service Encoding
begin

text \<open>
  \<open>payment/providers\<close>: the Stripe and PayPal adapters and the PayPal token client. The
  gateways (the Stripe library, the Braintree gateway, PayPal's REST endpoints) are
  parameters: each is any function from the requests sent so far and the request at hand to
  a response or a thrown error, so a gateway may answer the same request differently each
  time. Every request is appended to the world's \<open>wire\<close>. \<open>Math.round(Number(x) * 100)\<close> is
  IEEE arithmetic and is the parameter \<open>to_cents\<close>. The locale \<open>payment_adapter\<close> is the
  contract the interface documents: no method throws, and none writes to the database.
\<close>

section \<open>Gateways\<close>

type_synonym wire_log = "(string \<times> payload) list"
type_synonym 'a gateway = "wire_log \<Rightarrow> payload \<Rightarrow> exn + 'a"

definition call_gateway :: "string \<Rightarrow> 'a gateway \<Rightarrow> payload \<Rightarrow> (world, 'a) prog" where
  "call_gateway endpoint f body w = (f (wire w) body, w\<lparr>wire := wire w @ [(endpoint, body)]\<rparr>)"

record stripe_intent =
  si_id :: string
  si_client_secret :: "string option"
  si_amount :: int
  si_currency :: string
  si_status :: string

record stripe_payout =
  sp_id :: string
  sp_status :: string
  sp_amount :: int
  sp_currency :: string
  sp_arrival_date :: int

record stripe_api =
  paymentIntents_create :: "stripe_intent gateway"
  paymentIntents_retrieve :: "stripe_intent gateway"
  payouts_create :: "stripe_payout gateway"

record braintree_transaction =
  bt_id :: string
  bt_status :: string
  bt_amount :: string
  bt_currencyIsoCode :: string
  bt_paymentInstrumentType :: string
  bt_customerId :: "string option"

record braintree_result =
  br_success :: bool
  br_message :: "string option"
  br_transaction :: "braintree_transaction option"

record braintree_api =
  clientToken_generate :: "string gateway"
  transaction_sale :: "braintree_result gateway"

text \<open>A \<open>fetch\<close> response: \<open>json()\<close> and \<open>text()\<close> may throw.\<close>

record 'b http_response =
  hr_ok :: bool
  hr_status :: nat
  hr_statusText :: string
  hr_json :: "exn + 'b"
  hr_text :: "exn + string"

section \<open>Stripe\<close>

definition caught_message :: "string \<Rightarrow> exn \<Rightarrow> string" where
  "caught_message fallback e = (if is_Error e then error_message e else fallback)"

definition stripe_error_body :: "exn \<Rightarrow> payload" where
  "stripe_error_body e = [(''error'', case e of StripeError _ raw \<Rightarrow> raw | _ \<Rightarrow> JStr (error_str e))]"

definition stripe_failed :: "exn \<Rightarrow> ProviderResult" where
  "stripe_failed e = \<lparr>pr_success = False, requiresWebhook = None, pr_providerRef = None,
     pr_errorMessage = Some (caught_message ''Unexpected Stripe error'' e),
     rawResponse = stripe_error_body e\<rparr>"

definition intent_fields :: "stripe_intent \<Rightarrow> payload" where
  "intent_fields i = [(''amount'', JInt (si_amount i)), (''currency'', JStr (si_currency i)),
     (''status'', JStr (si_status i))]"

definition stripe_createDepositIntent ::
  "stripe_api \<Rightarrow> (json option \<Rightarrow> int) \<Rightarrow> payload \<Rightarrow> (world, DepositIntentResult) prog" where
  "stripe_createDepositIntent api to_cents p = catchP
     (bindP (call_gateway ''paymentIntents.create'' (paymentIntents_create api)
        [(''amount'', JInt (to_cents (payload_get p ''amount''))),
         (''currency'', JStr (toLowerCase (js_String (payload_get p ''currency'')))),
         (''payment_method_types'', JArr [JStr ''us_bank_account'']),
         (''metadata'', JObj [(''userId'', JStr (js_String (payload_get p ''userId''))),
           (''walletId'', JStr (js_String (payload_get p ''walletId''))),
           (''source'', JStr ''wallet_deposit'')])])
      (\<lambda>intent. ret \<lparr>di_success = True, clientSecret = si_client_secret intent, clientToken = None,
         intentId = Some (si_id intent), di_errorMessage = None,
         di_rawResponse = [(''id'', JStr (si_id intent)),
           (''client_secret'', case si_client_secret intent of None \<Rightarrow> JNull | Some s \<Rightarrow> JStr s)]
           @ intent_fields intent\<rparr>))
     (\<lambda>e. ret \<lparr>di_success = False, clientSecret = None, clientToken = None, intentId = None,
        di_errorMessage = Some (caught_message ''Unexpected Stripe error'' e),
        di_rawResponse = stripe_error_body e\<rparr>)"

definition intent_summary :: "stripe_intent \<Rightarrow> payload" where
  "intent_summary i = [(''id'', JStr (si_id i)), (''status'', JStr (si_status i)),
     (''amount'', JInt (si_amount i)), (''currency'', JStr (si_currency i))]"

definition stripe_confirmDeposit :: "stripe_api \<Rightarrow> payload \<Rightarrow> (world, ProviderResult) prog" where
  "stripe_confirmDeposit api p = catchP
     (bindP (call_gateway ''paymentIntents.retrieve'' (paymentIntents_retrieve api)
        [(''paymentIntentId'', JStr (js_String (payload_get p ''paymentIntentId'')))])
      (\<lambda>intent.
        if si_status intent = ''canceled'' \<or> si_status intent = ''requires_payment_method''
        then ret \<lparr>pr_success = False, requiresWebhook = None, pr_providerRef = None,
          pr_errorMessage = Some (''PaymentIntent is in terminal failure state: \"'' @ si_status intent @ ''\"''),
          rawResponse = intent_summary intent\<rparr>
        else ret \<lparr>pr_success = True, requiresWebhook = Some True, pr_providerRef = Some (si_id intent),
          pr_errorMessage = None, rawResponse = intent_summary intent\<rparr>))
     (\<lambda>e. ret (stripe_failed e))"

definition stripe_createPayout ::
  "stripe_api \<Rightarrow> (json option \<Rightarrow> int) \<Rightarrow> payload \<Rightarrow> (world, ProviderResult) prog" where
  "stripe_createPayout api to_cents p = catchP
     (bindP (call_gateway ''payouts.create'' (payouts_create api)
        [(''amount'', JInt (to_cents (payload_get p ''amount''))),
         (''currency'', JStr (toLowerCase (js_String (payload_get p ''currency'')))),
         (''destination'', JStr (js_String (payload_get p ''stripeConnectedAccountId''))),
         (''metadata'', JObj [(''userId'', JStr (js_String (payload_get p ''userId''))),
           (''source'', JStr ''wallet_withdrawal'')])])
      (\<lambda>payout. ret \<lparr>pr_success = True, requiresWebhook = Some True, pr_providerRef = Some (sp_id payout),
         pr_errorMessage = None,
         rawResponse = [(''id'', JStr (sp_id payout)), (''status'', JStr (sp_status payout)),
           (''amount'', JInt (sp_amount payout)), (''currency'', JStr (sp_currency payout)),
           (''arrival_date'', JInt (sp_arrival_date payout))]\<rparr>))
     (\<lambda>e. ret (stripe_failed e))"

definition unsupported_type :: "transaction_type \<Rightarrow> ProviderResult" where
  "unsupported_type ty = \<lparr>pr_success = False, requiresWebhook = None, pr_providerRef = None,
     pr_errorMessage = Some (''Unsupported transaction type: '' @ type_str ty),
     rawResponse = [(''transactionType'', JStr (type_str ty))]\<rparr>"

definition stripe_process ::
  "stripe_api \<Rightarrow> (json option \<Rightarrow> int) \<Rightarrow> payload \<Rightarrow> transaction_type \<Rightarrow> (world, ProviderResult) prog" where
  "stripe_process api to_cents p ty =
     (if ty = DEPOSIT then stripe_confirmDeposit api p
      else if ty = WITHDRAWAL then stripe_createPayout api to_cents p
      else ret (unsupported_type ty))"

definition StripeProvider :: "stripe_api \<Rightarrow> (json option \<Rightarrow> int) \<Rightarrow> IPaymentProvider" where
  "StripeProvider api to_cents =
     \<lparr>createDepositIntent = stripe_createDepositIntent api to_cents,
      confirmDeposit = stripe_confirmDeposit api, createPayout = stripe_createPayout api to_cents,
      process = stripe_process api to_cents\<rparr>"

section \<open>PayPal token client\<close>

record paypal_config =
  pc_clientId :: "string option"
  pc_clientSecret :: "string option"
  pc_environment :: string

definition paypal_baseUrl :: "string \<Rightarrow> string" where
  "paypal_baseUrl env = (if env = ''production'' then ''https://api-m.paypal.com''
     else ''https://api-m.sandbox.paypal.com'')"

definition EXPIRY_BUFFER_MS :: int where
  "EXPIRY_BUFFER_MS = 60 * 1000"

definition isTokenValid :: "(string \<times> instant) option \<Rightarrow> instant \<Rightarrow> bool" where
  "isTokenValid cached date =
     (case cached of None \<Rightarrow> False | Some (_, expires) \<Rightarrow> date < expires - EXPIRY_BUFFER_MS)"

definition from_sum :: "exn + 'a \<Rightarrow> (world, 'a) prog" where
  "from_sum r = (case r of Inl e \<Rightarrow> throw e | Inr a \<Rightarrow> ret a)"

text \<open>The UTF-8 bytes of the dash in the message.\<close>

definition em_dash :: string where
  "em_dash = [CHR 0xE2, CHR 0x80, CHR 0x94]"

definition fetchAndCacheToken ::
  "(string \<times> int) http_response gateway \<Rightarrow> paypal_config \<Rightarrow> (world, string) prog" where
  "fetchAndCacheToken oauth cfg =
     (if \<not> truthy (pc_clientId cfg) \<or> \<not> truthy (pc_clientSecret cfg)
      then throw (JsError ''PAYPAL_CLIENT_ID and PAYPAL_CLIENT_SECRET must be configured for PayPal payouts.'')
      else
        let credentials = base64_encode (the (pc_clientId cfg) @ '':'' @ the (pc_clientSecret cfg)) in
        bindP (call_gateway (paypal_baseUrl (pc_environment cfg) @ ''/v1/oauth2/token'') oauth
          [(''Authorization'', JStr (''Basic '' @ credentials)),
           (''body'', JStr ''grant_type=client_credentials'')]) (\<lambda>response.
        if \<not> hr_ok response
        then bindP (from_sum (hr_text response)) (\<lambda>errorBody.
          throw (JsError (''PayPal OAuth2 token fetch failed: '' @ nat_str (hr_status response) @ '' '' @
            hr_statusText response @ '' '' @ em_dash @ '' '' @ errorBody)))
        else bindP (from_sum (hr_json response)) (\<lambda>(access_token, expires_in).
          bindP now (\<lambda>date.
          thenP (modP (\<lambda>w. w\<lparr>paypalToken := Some (access_token, date + expires_in * 1000)\<rparr>))
          (ret access_token)))))"

definition getAccessToken ::
  "(string \<times> int) http_response gateway \<Rightarrow> paypal_config \<Rightarrow> (world, string) prog" where
  "getAccessToken oauth cfg =
     bindP (getP paypalToken) (\<lambda>cached. bindP now (\<lambda>date.
     if isTokenValid cached date then ret (fst (the cached)) else fetchAndCacheToken oauth cfg))"

section \<open>PayPal (Braintree deposits, PayPal payouts)\<close>

definition paypal_createDepositIntent :: "braintree_api \<Rightarrow> payload \<Rightarrow> (world, DepositIntentResult) prog" where
  "paypal_createDepositIntent api p =
     (let customerId = (case payload_get p ''customerId'' of Some (JStr s) \<Rightarrow> Some s | _ \<Rightarrow> None) in
      catchP
       (bindP (call_gateway ''clientToken.generate'' (clientToken_generate api)
          (truthy_field ''customerId'' customerId))
        (\<lambda>token. ret \<lparr>di_success = True, clientSecret = None, clientToken = Some token, intentId = None,
           di_errorMessage = None,
           di_rawResponse = [(''clientToken'', JStr token),
             (''customerId'', case customerId of None \<Rightarrow> JNull | Some s \<Rightarrow> JStr s)]\<rparr>))
       (\<lambda>e. ret \<lparr>di_success = False, clientSecret = None, clientToken = None, intentId = None,
          di_errorMessage = Some (caught_message ''Unexpected Braintree error'' e),
          di_rawResponse = [(''error'', JStr (error_str e))]\<rparr>))"

definition sale_request :: "payload \<Rightarrow> payload" where
  "sale_request p =
     [(''amount'', JStr (js_String (payload_get p ''amount''))),
      (''paymentMethodNonce'', JStr (js_String (payload_get p ''nonce''))),
      (''options'', JObj [(''storeInVaultOnSuccess'', JBool True), (''submitForSettlement'', JBool True)])]
     @ truthy_field ''customerId'' (case payload_get p ''customerId'' of Some (JStr s) \<Rightarrow> Some s | _ \<Rightarrow> None)"

definition sale_outcome :: "braintree_result \<Rightarrow> ProviderResult" where
  "sale_outcome result = (case (br_success result, br_transaction result) of
     (True, Some t) \<Rightarrow> \<lparr>pr_success = True, requiresWebhook = None, pr_providerRef = Some (bt_id t),
       pr_errorMessage = None,
       rawResponse = [(''id'', JStr (bt_id t)), (''status'', JStr (bt_status t)),
         (''amount'', JStr (bt_amount t)), (''currency'', JStr (bt_currencyIsoCode t)),
         (''payment_method'', JStr (bt_paymentInstrumentType t)),
         (''customerId'', case bt_customerId t of None \<Rightarrow> JNull | Some s \<Rightarrow> JStr s)]\<rparr>
   | (_, t) \<Rightarrow> \<lparr>pr_success = False, requiresWebhook = None, pr_providerRef = None,
       pr_errorMessage = Some (if truthy (br_message result) then the (br_message result)
         else ''Braintree transaction failed''),
       rawResponse = opt_field ''id'' (map_option bt_id t) @ opt_field ''status'' (map_option bt_status t)
         @ opt_field ''amount'' (map_option bt_amount t)
         @ opt_field ''currency'' (map_option bt_currencyIsoCode t) @ [(''customerId'', JNull)]\<rparr>)"

definition paypal_confirmDeposit :: "braintree_api \<Rightarrow> payload \<Rightarrow> (world, ProviderResult) prog" where
  "paypal_confirmDeposit api p = catchP
     (bindP (call_gateway ''transaction.sale'' (transaction_sale api) (sale_request p)) (\<lambda>result.
      ret (sale_outcome result)))
     (\<lambda>e. ret \<lparr>pr_success = False, requiresWebhook = None, pr_providerRef = None,
        pr_errorMessage = Some (caught_message ''Unexpected Braintree error'' e),
        rawResponse = [(''error'', JStr (error_str e)), (''customerId'', JNull)]\<rparr>)"

definition payout_body :: "payload \<Rightarrow> instant \<Rightarrow> payload" where
  "payout_body p date =
     [(''sender_batch_header'', JObj
        [(''sender_batch_id'', JStr (''wallet_'' @ js_String (payload_get p ''walletId'') @ ''_'' @ int_str date)),
         (''recipient_type'', JStr ''EMAIL''), (''email_subject'', JStr ''You have received a payout''),
         (''email_message'', JStr ''Your wallet withdrawal has been processed.'')]),
      (''items'', JArr [JObj
        [(''amount'', JObj [(''value'', JStr (js_String (payload_get p ''amount''))),
           (''currency'', JStr (toUpperCase (js_String (payload_get p ''currency''))))]),
         (''receiver'', JStr (js_String (payload_get p ''paypalEmail''))),
         (''note'', JStr ''Wallet withdrawal''),
         (''sender_item_id'', JStr (js_String (payload_get p ''userId'') @ ''_'' @ int_str date))]])]"

text \<open>\<open>batch_header?.payout_batch_id as string\<close>\<close>

definition payout_batch_id :: "payload \<Rightarrow> string option" where
  "payout_batch_id body = (case payload_get body ''batch_header'' of
     Some (JObj h) \<Rightarrow> (case payload_get h ''payout_batch_id'' of Some (JStr s) \<Rightarrow> Some s | _ \<Rightarrow> None)
   | _ \<Rightarrow> None)"

definition paypal_createPayout ::
  "(string \<times> int) http_response gateway \<Rightarrow> payload http_response gateway \<Rightarrow> paypal_config \<Rightarrow> payload \<Rightarrow>
   (world, ProviderResult) prog" where
  "paypal_createPayout oauth payouts cfg p = catchP
     (bindP (getAccessToken oauth cfg) (\<lambda>accessToken.
      bindP now (\<lambda>date.
      bindP (call_gateway (paypal_baseUrl (pc_environment cfg) @ ''/v1/payments/payouts'') payouts
        ((''Authorization'', JStr (''Bearer '' @ accessToken)) # payout_body p date)) (\<lambda>response.
      bindP (from_sum (hr_json response)) (\<lambda>responseBody.
      if \<not> hr_ok response
      then ret \<lparr>pr_success = False, requiresWebhook = None, pr_providerRef = None,
        pr_errorMessage = Some (case payload_get responseBody ''message'' of
            Some JNull \<Rightarrow> ''PayPal Payouts API error: '' @ nat_str (hr_status response)
          | Some m \<Rightarrow> js_str m
          | None \<Rightarrow> ''PayPal Payouts API error: '' @ nat_str (hr_status response)),
        rawResponse = responseBody\<rparr>
      else ret \<lparr>pr_success = True, requiresWebhook = Some True, pr_providerRef = payout_batch_id responseBody,
        pr_errorMessage = None, rawResponse = responseBody\<rparr>)))))
     (\<lambda>e. ret \<lparr>pr_success = False, requiresWebhook = None, pr_providerRef = None,
        pr_errorMessage = Some (caught_message ''Unexpected PayPal error'' e),
        rawResponse = [(''error'', JStr (error_str e))]\<rparr>)"

definition paypal_process ::
  "braintree_api \<Rightarrow> (string \<times> int) http_response gateway \<Rightarrow> payload http_response gateway \<Rightarrow> paypal_config \<Rightarrow>
   payload \<Rightarrow> transaction_type \<Rightarrow> (world, ProviderResult) prog" where
  "paypal_process api oauth payouts cfg p ty =
     (if ty = DEPOSIT then paypal_confirmDeposit api p
      else if ty = WITHDRAWAL then paypal_createPayout oauth payouts cfg p
      else ret (unsupported_type ty))"

definition PaypalProvider ::
  "braintree_api \<Rightarrow> (string \<times> int) http_response gateway \<Rightarrow> payload http_response gateway \<Rightarrow> paypal_config \<Rightarrow>
   IPaymentProvider" where
  "PaypalProvider api oauth payouts cfg =
     \<lparr>createDepositIntent = paypal_createDepositIntent api,
      confirmDeposit = paypal_confirmDeposit api,
      createPayout = paypal_createPayout oauth payouts cfg,
      process = paypal_process api oauth payouts cfg\<rparr>"

section \<open>The adapter contract\<close>

text \<open>\<open>calm m\<close>: the method returns, whatever the gateway does, and leaves the database alone.\<close>

definition calm :: "(world, 'a) prog \<Rightarrow> bool" where
  "calm m \<longleftrightarrow> (\<forall>w. wp m (\<lambda>_ w'. db w' = db w) (\<lambda>_ _. False) w)"

lemma calmI: "(\<And>w. wp m (\<lambda>_ w'. db w' = db w) (\<lambda>_ _. False) w) \<Longrightarrow> calm m"
  by (simp add: calm_def)

lemma calmD: "calm m \<Longrightarrow> \<exists>a w'. m w = (Inr a, w') \<and> db w' = db w"
  by (cases "m w"; cases "fst (m w)") (auto simp: calm_def wp_def dest!: spec [of _ w])

lemma wp_calm: "calm m \<Longrightarrow> (\<And>a w'. db w' = db w \<Longrightarrow> Q a w') \<Longrightarrow> wp m Q E w"
  using calmD [of m w] by (auto simp: wp_def)

locale payment_adapter =
  fixes P :: IPaymentProvider
  assumes calm_intent: "calm (createDepositIntent P p)"
    and calm_confirm: "calm (confirmDeposit P p)"
    and calm_payout: "calm (createPayout P p)"
    and routes_deposit: "process P p DEPOSIT = confirmDeposit P p"
    and routes_withdrawal: "process P p WITHDRAWAL = createPayout P p"
    and routes_transfer: "process P p TRANSFER = ret (unsupported_type TRANSFER)"
begin

lemma calm_process: "calm (process P p ty)"
  by (cases ty)
     (simp_all add: routes_deposit routes_withdrawal routes_transfer calm_confirm calm_payout,
      simp add: calm_def wp_ret)

lemma process_returns: "\<exists>r w'. process P p ty w = (Inr r, w') \<and> db w' = db w"
  by (rule calmD [OF calm_process])

text \<open>A transfer that reaches an adapter is refused without a request to the provider.\<close>

lemma transfer_refused: "process P p TRANSFER w = (Inr (unsupported_type TRANSFER), w)"
  by (simp add: routes_transfer ret_def)

end

lemma wp_call_gateway [wp_simps]:
  "wp (call_gateway n f b) Q E w =
     (case f (wire w) b of Inl e \<Rightarrow> E e (w\<lparr>wire := wire w @ [(n, b)]\<rparr>)
      | Inr a \<Rightarrow> Q a (w\<lparr>wire := wire w @ [(n, b)]\<rparr>))"
  by (simp add: wp_def call_gateway_def split: sum.splits)

lemma wp_from_sum [wp_simps]:
  "wp (from_sum r) Q E w = (case r of Inl e \<Rightarrow> E e w | Inr a \<Rightarrow> Q a w)"
  by (simp add: from_sum_def wp_ret wp_throw split: sum.splits)

text \<open>
  A body that leaves the database alone, wrapped in a handler that only builds a result, is
  calm.
\<close>

definition quiet :: "(world, 'a) prog \<Rightarrow> bool" where
  "quiet m \<longleftrightarrow> (\<forall>w. wp m (\<lambda>_ w'. db w' = db w) (\<lambda>_ w'. db w' = db w) w)"

lemma calm_catch: "quiet m \<Longrightarrow> calm (catchP m (\<lambda>e. ret (h e)))"
  by (simp add: calm_def quiet_def wp_catchP wp_ret_fun)

lemma quiet_within: "within same_db m \<Longrightarrow> quiet m"
  by (simp add: quiet_def within_wp same_db_def [abs_def])

lemma within_gateway: "within same_db (call_gateway n f b)"
  by (rule within_wpI) (simp add: wp_call_gateway same_db_def split: sum.splits)

lemma within_from_sum: "within same_db (from_sum r)"
  by (rule within_wpI) (simp add: wp_from_sum same_db_def split: sum.splits)

lemma within_now: "within same_db now"
  unfolding now_def by (rule sdb.within_getP)

lemma within_token_cache: "within same_db (modP (\<lambda>w. w\<lparr>paypalToken := f w\<rparr>))"
  by (rule within_wpI) (simp add: wp_modP same_db_def)

lemma within_case_prod: "(\<And>x y. within same_db (f x y)) \<Longrightarrow> within same_db (case p of (x, y) \<Rightarrow> f x y)"
  by (cases p) simp

lemmas gateway_intros = sdb.within_intros within_gateway within_from_sum within_now
  within_token_cache within_case_prod

lemma within_getAccessToken: "within same_db (getAccessToken oauth cfg)"
  unfolding getAccessToken_def fetchAndCacheToken_def by (intro gateway_intros)

interpretation stripe: payment_adapter "StripeProvider api to_cents" for api to_cents
proof
  fix p
  show "calm (createDepositIntent (StripeProvider api to_cents) p)"
    unfolding StripeProvider_def IPaymentProvider.simps stripe_createDepositIntent_def
    by (intro calm_catch quiet_within gateway_intros)
  show "calm (confirmDeposit (StripeProvider api to_cents) p)"
    unfolding StripeProvider_def IPaymentProvider.simps stripe_confirmDeposit_def
    by (intro calm_catch quiet_within gateway_intros)
  show "calm (createPayout (StripeProvider api to_cents) p)"
    unfolding StripeProvider_def IPaymentProvider.simps stripe_createPayout_def
    by (intro calm_catch quiet_within gateway_intros)
qed (simp_all add: StripeProvider_def stripe_process_def)

interpretation paypal: payment_adapter "PaypalProvider api oauth payouts cfg" for api oauth payouts cfg
proof
  fix p
  show "calm (createDepositIntent (PaypalProvider api oauth payouts cfg) p)"
    unfolding PaypalProvider_def IPaymentProvider.simps paypal_createDepositIntent_def Let_def
    by (intro calm_catch quiet_within gateway_intros)
  show "calm (confirmDeposit (PaypalProvider api oauth payouts cfg) p)"
    unfolding PaypalProvider_def IPaymentProvider.simps paypal_confirmDeposit_def
    by (intro calm_catch quiet_within gateway_intros)
  show "calm (createPayout (PaypalProvider api oauth payouts cfg) p)"
    unfolding PaypalProvider_def IPaymentProvider.simps paypal_createPayout_def
    by (intro calm_catch quiet_within gateway_intros within_getAccessToken)
qed (simp_all add: PaypalProvider_def paypal_process_def)

end
