(* ===== verification/Payment_Settlement.thy ===== *)
theory Payment_Settlement
  imports Payment_Repo
begin

text \<open>
  \<open>payment/payment-settlement.service.ts\<close>: the atomic settlement and failure of a
  provider-processed transaction. The context the caller passes may be stale; what makes a
  second settlement harmless is the unique \<open>PaymentLog.transactionId\<close>, and the lemmas
  \<open>..._run\<close> show it: a block that commits found no log for the transaction.
\<close>

section \<open>Settle paths\<close>

text \<open>A wallet id asserted with \<open>!\<close>: the client rejects \<open>null\<close> in a unique \<open>where\<close>.\<close>

definition required :: "uuid option \<Rightarrow> (uuid \<Rightarrow> (world, 'a) prog) \<Rightarrow> (world, 'a) prog" where
  "required i k = (case i of None \<Rightarrow> throw PrismaValidation | Some x \<Rightarrow> k x)"

lemma wlp_required [wlp_intros]:
  "(\<And>x. i = Some x \<Longrightarrow> wp (k x) Q (\<lambda>_ _. True) w) \<Longrightarrow> wp (required i k) Q (\<lambda>_ _. True) w"
  by (simp add: required_def wp_throw split: option.splits)

definition stampProviderRef :: "uuid \<Rightarrow> string option \<Rightarrow> (world, unit) prog" where
  "stampProviderRef i ref = (case ref of
     None \<Rightarrow> ret () | Some r \<Rightarrow> whenP (r \<noteq> []) (setProviderRef i r))"

definition payment_log_input ::
  "TransactionContext \<Rightarrow> ProviderResult \<Rightarrow> transaction_status \<Rightarrow> CreatePaymentLogInput" where
  "payment_log_input txCtx result status =
     \<lparr>cl_transactionId = tc_id txCtx, cl_provider = tc_provider txCtx,
      cl_providerRef = pr_providerRef result, cl_payload = rawResponse result, cl_status = status\<rparr>"

text \<open>The vaulted Braintree customer id, kept on the user when a PayPal sale reports one.\<close>

definition persistCustomerId :: "TransactionContext \<Rightarrow> ProviderResult \<Rightarrow> (world, unit) prog" where
  "persistCustomerId txCtx result =
     (case payload_get (rawResponse result) ''customerId'' of
        Some (JStr customerId) \<Rightarrow>
          whenP (tc_provider txCtx = Some PAYPAL \<and> 0 < length customerId)
            (upsertBraintreeCustomerId (tc_userId txCtx) customerId)
      | _ \<Rightarrow> ret ())"

definition settleDeposit_path :: "TransactionContext \<Rightarrow> uuid \<Rightarrow> ProviderResult \<Rightarrow> (world, unit) prog" where
  "settleDeposit_path txCtx outboxEventId result =
     required (tc_receiverWalletId txCtx) (\<lambda>walletId.
     bindP (settlePending walletId (tc_amount txCtx)) (\<lambda>availableBalanceAfter.
     thenP (stampProviderRef (tc_id txCtx) (pr_providerRef result))
     (bindP now (\<lambda>date.
     thenP (t_update transactions_t (\<lambda>t. tx_id t = tc_id txCtx)
       (\<lambda>t. t\<lparr>tx_status := SETTLED, settledAt := Some date\<rparr>))
     (thenP (ledgerEntry_create
       \<lparr>li_walletId = Some walletId, li_transactionId = tc_id txCtx, li_direction = CREDIT,
        li_amount = tc_amount txCtx, li_currency = tc_currency txCtx,
        li_balanceAfter = availableBalanceAfter\<rparr>)
     (thenP (createPaymentLog (payment_log_input txCtx result SETTLED))
     (thenP (markDelivered outboxEventId)
     (persistCustomerId txCtx result))))))))"

definition settleWithdrawal_path :: "TransactionContext \<Rightarrow> uuid \<Rightarrow> ProviderResult \<Rightarrow> (world, unit) prog" where
  "settleWithdrawal_path txCtx outboxEventId result =
     required (tc_senderWalletId txCtx) (\<lambda>walletId.
     bindP (settleWithdrawal walletId (tc_amount txCtx)) (\<lambda>lockedBalanceAfter.
     thenP (stampProviderRef (tc_id txCtx) (pr_providerRef result))
     (bindP now (\<lambda>date.
     thenP (t_update transactions_t (\<lambda>t. tx_id t = tc_id txCtx)
       (\<lambda>t. t\<lparr>tx_status := SETTLED, settledAt := Some date\<rparr>))
     (thenP (ledgerEntry_create
       \<lparr>li_walletId = Some walletId, li_transactionId = tc_id txCtx, li_direction = DEBIT,
        li_amount = tc_amount txCtx, li_currency = tc_currency txCtx,
        li_balanceAfter = lockedBalanceAfter\<rparr>)
     (thenP (createPaymentLog (payment_log_input txCtx result SETTLED))
     (markDelivered outboxEventId)))))))"

section \<open>Fail paths\<close>

definition failDeposit_path :: "TransactionContext \<Rightarrow> uuid \<Rightarrow> ProviderResult \<Rightarrow> (world, unit) prog" where
  "failDeposit_path txCtx outboxEventId result =
     required (tc_receiverWalletId txCtx) (\<lambda>walletId.
     thenP (t_update wallets_t (\<lambda>x. w_id x = walletId)
       (\<lambda>x. x\<lparr>pendingBalance := pendingBalance x - tc_amount txCtx\<rparr>))
     (thenP (t_update transactions_t (\<lambda>t. tx_id t = tc_id txCtx) (\<lambda>t. t\<lparr>tx_status := FAILED\<rparr>))
     (thenP (createPaymentLog (payment_log_input txCtx result FAILED))
     (markDelivered outboxEventId))))"

definition failWithdrawal_path :: "TransactionContext \<Rightarrow> uuid \<Rightarrow> ProviderResult \<Rightarrow> (world, unit) prog" where
  "failWithdrawal_path txCtx outboxEventId result =
     required (tc_senderWalletId txCtx) (\<lambda>walletId.
     thenP (t_update wallets_t (\<lambda>x. w_id x = walletId)
       (\<lambda>x. x\<lparr>lockedBalance := lockedBalance x - tc_amount txCtx,
              availableBalance := availableBalance x + tc_amount txCtx\<rparr>))
     (thenP (t_update transactions_t (\<lambda>t. tx_id t = tc_id txCtx) (\<lambda>t. t\<lparr>tx_status := FAILED\<rparr>))
     (thenP (createPaymentLog (payment_log_input txCtx result FAILED))
     (markDelivered outboxEventId))))"

section \<open>Settle and fail\<close>

definition opt_json :: "string option \<Rightarrow> json" where
  "opt_json s = (case s of None \<Rightarrow> JNull | Some t \<Rightarrow> JStr t)"

definition settle :: "TransactionContext \<Rightarrow> uuid \<Rightarrow> ProviderResult \<Rightarrow> (world, unit) prog" where
  "settle txCtx outboxEventId result =
     thenP (withTransaction (
       if tc_type txCtx = DEPOSIT then settleDeposit_path txCtx outboxEventId result
       else if tc_type txCtx = WITHDRAWAL then settleWithdrawal_path txCtx outboxEventId result
       else throw (HttpExn UnprocessableEntityException
         (''settle() called on unsupported transaction type: '' @ type_str (tc_type txCtx)))))
     (audit_log (if tc_type txCtx = DEPOSIT then DEPOSIT_SETTLED else WITHDRAWAL_SETTLED)
       \<lparr>ac_userId = None, ac_userAgent = None,
        ac_meta = [(''transactionId'', JStr (tc_id txCtx)), (''type'', JStr (type_str (tc_type txCtx))),
          (''providerRef'', opt_json (pr_providerRef result))]\<rparr>)"

definition fail :: "TransactionContext \<Rightarrow> uuid \<Rightarrow> ProviderResult \<Rightarrow> (world, unit) prog" where
  "fail txCtx outboxEventId result =
     thenP (withTransaction (
       if tc_type txCtx = DEPOSIT then failDeposit_path txCtx outboxEventId result
       else if tc_type txCtx = WITHDRAWAL then failWithdrawal_path txCtx outboxEventId result
       else throw (HttpExn UnprocessableEntityException
         (''fail() called on unsupported transaction type: '' @ type_str (tc_type txCtx)))))
     (audit_warn (if tc_type txCtx = DEPOSIT then DEPOSIT_FAILED else WITHDRAWAL_FAILED)
       \<lparr>ac_userId = None, ac_userAgent = None,
        ac_meta = [(''transactionId'', JStr (tc_id txCtx)), (''type'', JStr (type_str (tc_type txCtx))),
          (''errorMessage'', opt_json (pr_errorMessage result))]\<rparr>)"

section \<open>What a committed path did\<close>

text \<open>A transaction row changed in its status, reference and time columns only.\<close>

definition same_payment :: "transaction \<Rightarrow> transaction \<Rightarrow> bool" where
  "same_payment t t' \<longleftrightarrow> tx_id t' = tx_id t \<and> idempotencyKey t' = idempotencyKey t
     \<and> tx_type t' = tx_type t \<and> tx_amount t' = tx_amount t \<and> tx_currency t' = tx_currency t
     \<and> senderWalletId t' = senderWalletId t \<and> receiverWalletId t' = receiverWalletId t
     \<and> tx_provider t' = tx_provider t \<and> tx_createdAt t' = tx_createdAt t"

text \<open>
  \<open>resolved st i da dl dp c w w'\<close>: transaction \<open>c\<close>, which had no payment log, went to status
  \<open>st\<close> and got its log, and the balances of wallet \<open>i\<close> moved by the three amounts.
\<close>

definition tx_resolved :: "uuid \<Rightarrow> transaction_status \<Rightarrow> transaction \<Rightarrow> transaction \<Rightarrow> bool" where
  "tx_resolved c st t t' \<longleftrightarrow> (if tx_id t = c then same_payment t t' \<and> tx_status t' = st else t' = t)"

definition resolved :: "transaction_status \<Rightarrow> uuid \<Rightarrow> decimal \<Rightarrow> decimal \<Rightarrow> decimal \<Rightarrow> uuid \<Rightarrow> world \<Rightarrow> world \<Rightarrow> bool" where
  "resolved st i da dl dp c w w' \<longleftrightarrow>
     (\<exists>x. find (\<lambda>x. w_id x = i) (wallets (db w)) = Some x)
     \<and> has_transaction (db w) c
     \<and> (\<forall>l \<in> set (paymentLogs (db w)). pl_transactionId l \<noteq> c)
     \<and> wallets (db w') = move_wallets i da dl dp (clock w) (wallets (db w))
     \<and> list_all2 (tx_resolved c st) (transactions (db w)) (transactions (db w'))
     \<and> (\<exists>l. paymentLogs (db w') = paymentLogs (db w) @ [l] \<and> pl_transactionId l = c \<and> pl_status l = st)"

lemma list_all2_set_transactions:
  "list_all2 P ts (set_transactions c f us) = list_all2 (\<lambda>t u. P t (if tx_id u = c then f u else u)) ts us"
  by (simp add: set_transactions_def list.rel_map)

lemma has_transaction_set:
  assumes "\<And>t. tx_id (f t) = tx_id t"
  shows "list_ex (\<lambda>t. tx_id t = c) (set_transactions i f ts) = list_ex (\<lambda>t. tx_id t = c) ts"
  using assms by (auto simp: set_transactions_def list_ex_iff)

lemma wlp_fail_wallet:
  assumes "\<And>c x. t_touch wallets_t c (f x) = move da dl dp c x"
    and "\<And>x. find (\<lambda>x. w_id x = i) (wallets (db w)) = Some x \<Longrightarrow>
      Q (move da dl dp (clock w) x) (moved i da dl dp w)"
  shows "wp (t_update wallets_t (\<lambda>x. w_id x = i) f) Q (\<lambda>_ _. True) w"
  unfolding wallet_update_move [OF assms(1)] using assms(2) by (simp add: Let_def split: option.splits)

lemma wlp_stampProviderRef [wlp_intros]:
  assumes "\<And>f. (\<And>t. same_payment t (f t)) \<Longrightarrow> (\<And>t. tx_status (f t) = tx_status t) \<Longrightarrow>
     Q () (w\<lparr>db := (db w)\<lparr>transactions := set_transactions i f (transactions (db w))\<rparr>\<rparr>)"
  shows "wp (stampProviderRef i ref) Q (\<lambda>_ _. True) w"
proof -
  have "set_transactions i (\<lambda>t. t) ts = ts" for ts by (simp add: set_transactions_def)
  with assms [of "\<lambda>t. t"] have "Q () w" by (simp add: same_payment_def)
  then show ?thesis
    unfolding stampProviderRef_def
    by (intro wlp_intros) (use assms in \<open>simp_all add: same_payment_def\<close>)
qed

lemma wlp_persistCustomerId [wlp_intros]:
  assumes "Q () w" and "\<And>us. Q () (w\<lparr>db := (db w)\<lparr>users := us\<rparr>\<rparr>)"
  shows "wp (persistCustomerId c r) Q (\<lambda>_ _. True) w"
proof -
  have "wp (upsertBraintreeCustomerId (tc_userId c) s) Q (\<lambda>_ _. True) w" for s
    by (intro wlp_intros assms)
  then show ?thesis
    by (simp add: persistCustomerId_def wp_ret wp_whenP assms(1) split: option.splits json.splits)
qed

lemmas resolve_simps = resolved_def tx_resolved_def same_payment_def list_all2_set_transactions
  list_all2_same has_transaction_def has_transaction_set payment_log_input_def new_paymentLog_def

lemma settleDeposit_path_run:
  "wp (settleDeposit_path txCtx ev result)
    (\<lambda>_ w'. \<exists>i. tc_receiverWalletId txCtx = Some i \<and>
      resolved SETTLED i (tc_amount txCtx) 0 (- tc_amount txCtx) (tc_id txCtx) w w') (\<lambda>_ _. True) w"
  unfolding settleDeposit_path_def
  apply (intro wlp_intros wp_partial_ledgerEntry_create)
  apply (simp only: Let_def)
  apply (intro wlp_intros)
   apply (simp_all add: resolve_simps)
  done

lemma settleWithdrawal_path_run:
  "wp (settleWithdrawal_path txCtx ev result)
    (\<lambda>_ w'. \<exists>i. tc_senderWalletId txCtx = Some i \<and>
      resolved SETTLED i 0 (- tc_amount txCtx) 0 (tc_id txCtx) w w') (\<lambda>_ _. True) w"
  unfolding settleWithdrawal_path_def
  apply (intro wlp_intros wp_partial_ledgerEntry_create)
  apply (simp only: Let_def)
  apply (intro wlp_intros)
  apply (simp_all add: resolve_simps)
  done

lemma failDeposit_path_run:
  "wp (failDeposit_path txCtx ev result)
    (\<lambda>_ w'. \<exists>i. tc_receiverWalletId txCtx = Some i \<and>
      resolved FAILED i 0 0 (- tc_amount txCtx) (tc_id txCtx) w w') (\<lambda>_ _. True) w"
  unfolding failDeposit_path_def
  apply (intro wlp_intros wlp_fail_wallet [where da = 0 and dl = 0 and dp = "- tc_amount txCtx"])
   apply (simp add: wallets_t_def move_def)
  apply (simp_all add: resolve_simps)
  done

lemma failWithdrawal_path_run:
  "wp (failWithdrawal_path txCtx ev result)
    (\<lambda>_ w'. \<exists>i. tc_senderWalletId txCtx = Some i \<and>
      resolved FAILED i (tc_amount txCtx) (- tc_amount txCtx) 0 (tc_id txCtx) w w') (\<lambda>_ _. True) w"
  unfolding failWithdrawal_path_def
  apply (intro wlp_intros wlp_fail_wallet [where da = "tc_amount txCtx" and dl = "- tc_amount txCtx" and dp = 0])
   apply (simp add: wallets_t_def move_def)
  apply (simp_all add: resolve_simps)
  done

section \<open>The contract of the four paths\<close>

text \<open>
  A settlement path of a context resolves the transaction of the context, and a
  transaction that already has a payment log is never resolved again, whatever status the
  caller's context still shows.
\<close>

locale settlement_path =
  fixes path :: "TransactionContext \<Rightarrow> uuid \<Rightarrow> ProviderResult \<Rightarrow> (world, unit) prog"
    and wallet_of :: "TransactionContext \<Rightarrow> uuid option"
    and st :: transaction_status
    and da :: "decimal \<Rightarrow> decimal" and dl :: "decimal \<Rightarrow> decimal" and dp :: "decimal \<Rightarrow> decimal"
  assumes path_run: "wp (path c ev r) (\<lambda>_ w'. \<exists>i. wallet_of c = Some i \<and>
      resolved st i (da (tc_amount c)) (dl (tc_amount c)) (dp (tc_amount c)) (tc_id c) w w') (\<lambda>_ _. True) w"
begin

lemma returned: "path c ev r w = (Inr u, w') \<Longrightarrow> \<exists>i. wallet_of c = Some i \<and>
    resolved st i (da (tc_amount c)) (dl (tc_amount c)) (dp (tc_amount c)) (tc_id c) w w'"
  using wp_returnsD [OF path_run] by blast

lemma logged_throws:
  assumes "l \<in> set (paymentLogs (db w))" and "pl_transactionId l = tc_id c"
  shows "\<not> returns (path c ev r w)"
proof
  assume "returns (path c ev r w)"
  then obtain u w' where "path c ev r w = (Inr u, w')" by (rule returnsE)
  from returned [OF this] assms show False by (auto simp: resolved_def)
qed

lemma second_throws:
  assumes "path c ev r w = (Inr u, w')" and "set (paymentLogs (db w')) \<subseteq> set (paymentLogs (db v))"
    and "tc_id c' = tc_id c"
  shows "\<not> returns (path c' ev' r' v)"
proof -
  from returned [OF assms(1)] obtain l where "paymentLogs (db w') = paymentLogs (db w) @ [l]"
    and "pl_transactionId l = tc_id c"
    unfolding resolved_def by blast
  then have "l \<in> set (paymentLogs (db w'))" "pl_transactionId l = tc_id c" by simp_all
  with assms(2,3) show ?thesis by (intro logged_throws [of l]) auto
qed

end

interpretation settleDeposit: settlement_path settleDeposit_path tc_receiverWalletId SETTLED
  "\<lambda>a. a" "\<lambda>_. 0" "\<lambda>a. - a"
  by unfold_locales (rule settleDeposit_path_run)

interpretation settleWithdrawal: settlement_path settleWithdrawal_path tc_senderWalletId SETTLED
  "\<lambda>_. 0" "\<lambda>a. - a" "\<lambda>_. 0"
  by unfold_locales (rule settleWithdrawal_path_run)

interpretation failDeposit: settlement_path failDeposit_path tc_receiverWalletId FAILED
  "\<lambda>_. 0" "\<lambda>_. 0" "\<lambda>a. - a"
  by unfold_locales (rule failDeposit_path_run)

interpretation failWithdrawal: settlement_path failWithdrawal_path tc_senderWalletId FAILED
  "\<lambda>a. a" "\<lambda>a. - a" "\<lambda>_. 0"
  by unfold_locales (rule failWithdrawal_path_run)

end
