(* ===== verification/Accounting.thy ===== *)
theory Accounting
  imports Payment_Service Payment_Settlement
begin

text \<open>
  The abstract specification of the money paths. Every balance bucket of a wallet is a sum
  of shares of the transactions: pending holds the deposits still initiated, locked the
  withdrawals still initiated, available what was settled less what was spent. The payment
  logs record which provider transactions were resolved. The section's lemmas show that
  each atomic block keeps these books (\<open>books_ok\<close>).
\<close>

section \<open>Shares and books\<close>

definition pending_share :: "uuid \<Rightarrow> transaction \<Rightarrow> decimal" where
  "pending_share i t =
     (if tx_type t = DEPOSIT \<and> tx_status t = INITIATED \<and> receiverWalletId t = Some i
      then tx_amount t else 0)"

definition locked_share :: "uuid \<Rightarrow> transaction \<Rightarrow> decimal" where
  "locked_share i t =
     (if tx_type t = WITHDRAWAL \<and> tx_status t = INITIATED \<and> senderWalletId t = Some i
      then tx_amount t else 0)"

definition credit_share :: "uuid \<Rightarrow> transaction \<Rightarrow> decimal" where
  "credit_share i t =
     (if (tx_type t = DEPOSIT \<or> tx_type t = TRANSFER) \<and> tx_status t = SETTLED
         \<and> receiverWalletId t = Some i
      then tx_amount t else 0)"

definition debit_share :: "uuid \<Rightarrow> transaction \<Rightarrow> decimal" where
  "debit_share i t =
     (if (tx_type t = WITHDRAWAL \<and> tx_status t \<noteq> FAILED \<or> tx_type t = TRANSFER \<and> tx_status t = SETTLED)
         \<and> senderWalletId t = Some i
      then tx_amount t else 0)"

definition available_share :: "uuid \<Rightarrow> transaction \<Rightarrow> decimal" where
  "available_share i t = credit_share i t - debit_share i t"

definition total :: "(transaction \<Rightarrow> decimal) \<Rightarrow> transaction list \<Rightarrow> decimal" where
  "total f ts = (\<Sum>t \<leftarrow> ts. f t)"

definition wallet_balanced :: "transaction list \<Rightarrow> wallet \<Rightarrow> bool" where
  "wallet_balanced ts x \<longleftrightarrow>
     availableBalance x = total (available_share (w_id x)) ts
     \<and> lockedBalance x = total (locked_share (w_id x)) ts
     \<and> pendingBalance x = total (pending_share (w_id x)) ts
     \<and> 0 \<le> availableBalance x"

text \<open>A well-formed transaction: positive, with the wallets and statuses its type allows.\<close>

definition tx_ok :: "transaction \<Rightarrow> bool" where
  "tx_ok t \<longleftrightarrow> 0 < tx_amount t \<and> (case tx_type t of
     DEPOSIT \<Rightarrow> senderWalletId t = None \<and> receiverWalletId t \<noteq> None
       \<and> (tx_status t = INITIATED \<or> tx_status t = SETTLED \<or> tx_status t = FAILED)
   | WITHDRAWAL \<Rightarrow> senderWalletId t \<noteq> None \<and> receiverWalletId t = None
       \<and> (tx_status t = INITIATED \<or> tx_status t = SETTLED \<or> tx_status t = FAILED)
   | TRANSFER \<Rightarrow> senderWalletId t \<noteq> None \<and> receiverWalletId t \<noteq> None
       \<and> senderWalletId t \<noteq> receiverWalletId t \<and> tx_status t = SETTLED)"

text \<open>The wallets a transaction names exist and have its currency.\<close>

definition wallet_in :: "wallet list \<Rightarrow> currency \<Rightarrow> uuid option \<Rightarrow> bool" where
  "wallet_in ws c i = (case i of None \<Rightarrow> True
     | Some j \<Rightarrow> list_ex (\<lambda>x. w_id x = j \<and> w_currency x = c) ws)"

definition tx_linked :: "wallet list \<Rightarrow> transaction \<Rightarrow> bool" where
  "tx_linked ws t \<longleftrightarrow> wallet_in ws (tx_currency t) (senderWalletId t)
     \<and> wallet_in ws (tx_currency t) (receiverWalletId t)"

definition logged :: "payment_log list \<Rightarrow> uuid \<Rightarrow> bool" where
  "logged ls c = list_ex (\<lambda>l. pl_transactionId l = c) ls"

text \<open>A provider transaction has a payment log exactly when it was resolved.\<close>

definition log_ok :: "payment_log list \<Rightarrow> transaction \<Rightarrow> bool" where
  "log_ok ls t \<longleftrightarrow> (logged ls (tx_id t) \<longleftrightarrow> tx_type t \<noteq> TRANSFER \<and> tx_status t \<noteq> INITIATED)"

definition books_ok :: "db \<Rightarrow> bool" where
  "books_ok d \<longleftrightarrow> distinct (map w_id (wallets d)) \<and> distinct (map w_userId (wallets d))
     \<and> distinct (map tx_id (transactions d)) \<and> distinct (map idempotencyKey (transactions d))
     \<and> (\<forall>x \<in> set (wallets d). wallet_balanced (transactions d) x)
     \<and> (\<forall>t \<in> set (transactions d). tx_ok t \<and> tx_linked (wallets d) t \<and> log_ok (paymentLogs d) t)
     \<and> (\<forall>l \<in> set (paymentLogs d). has_transaction d (pl_transactionId l))"

lemma books_empty: "books_ok empty_db"
  by (simp add: books_ok_def empty_db_def)

lemma total_Nil [simp]: "total f [] = 0"
  by (simp add: total_def)

lemma total_snoc [simp]: "total f (ts @ [t]) = total f ts + f t"
  by (simp add: total_def)

lemma share_nonneg:
  assumes "0 < tx_amount t"
  shows "0 \<le> pending_share i t" "0 \<le> locked_share i t" "0 \<le> credit_share i t" "0 \<le> debit_share i t"
  using assms by (simp_all add: pending_share_def locked_share_def credit_share_def debit_share_def)

lemma total_nonneg: "(\<And>t. t \<in> set ts \<Longrightarrow> 0 \<le> f t) \<Longrightarrow> 0 \<le> total f ts"
  unfolding total_def by (rule sum_list_nonneg_int)

text \<open>With the books in order no bucket is negative.\<close>

lemma books_nonneg:
  assumes "books_ok d" and "x \<in> set (wallets d)"
  shows "0 \<le> availableBalance x" "0 \<le> lockedBalance x" "0 \<le> pendingBalance x"
proof -
  have pos: "0 < tx_amount t" if "t \<in> set (transactions d)" for t
    using assms(1) that by (auto simp: books_ok_def tx_ok_def)
  have b: "wallet_balanced (transactions d) x" using assms by (simp add: books_ok_def)
  then show "0 \<le> availableBalance x" by (simp add: wallet_balanced_def)
  from b show "0 \<le> lockedBalance x" "0 \<le> pendingBalance x"
    by (simp_all add: wallet_balanced_def total_nonneg share_nonneg pos)
qed

section \<open>A new transaction\<close>

lemma wallet_in_map:
  assumes "\<And>x. w_id (g x) = w_id x" and "\<And>x. w_currency (g x) = w_currency x"
  shows "wallet_in (map g ws) c i = wallet_in ws c i"
  using assms by (auto simp: wallet_in_def list_ex_iff split: option.splits)

lemma tx_linked_map:
  assumes "\<And>x. w_id (g x) = w_id x" and "\<And>x. w_currency (g x) = w_currency x"
  shows "tx_linked (map g ws) t = tx_linked ws t"
  using assms by (simp add: tx_linked_def wallet_in_map)

text \<open>
  Posting a transaction while every wallet moves by its share keeps the books. The rows of
  the other tables may change in any way.
\<close>

lemma books_post:
  assumes ok: "books_ok d"
    and fresh: "\<forall>s \<in> set (transactions d). tx_id s \<noteq> tx_id t \<and> idempotencyKey s \<noteq> idempotencyKey t"
    and t: "tx_ok t" "tx_linked (wallets d) t" "tx_type t = TRANSFER \<or> tx_status t = INITIATED"
    and g: "\<And>x. w_id (g x) = w_id x" "\<And>x. w_userId (g x) = w_userId x" "\<And>x. w_currency (g x) = w_currency x"
    and moves: "\<And>x. x \<in> set (wallets d) \<Longrightarrow>
        availableBalance (g x) = availableBalance x + available_share (w_id x) t
      \<and> lockedBalance (g x) = lockedBalance x + locked_share (w_id x) t
      \<and> pendingBalance (g x) = pendingBalance x + pending_share (w_id x) t
      \<and> 0 \<le> availableBalance (g x)"
    and d': "wallets d' = map g (wallets d)" "transactions d' = transactions d @ [t]"
      "paymentLogs d' = paymentLogs d"
  shows "books_ok d'"
proof -
  have not_logged: "\<not> logged (paymentLogs d) (tx_id t)"
  proof
    assume "logged (paymentLogs d) (tx_id t)"
    then obtain l where "l \<in> set (paymentLogs d)" "pl_transactionId l = tx_id t"
      by (auto simp: logged_def list_ex_iff)
    with ok have "has_transaction d (tx_id t)" by (auto simp: books_ok_def)
    with fresh show False by (auto simp: has_transaction_def list_ex_iff)
  qed
  have "wallet_balanced (transactions d') (g x)" if "x \<in> set (wallets d)" for x
    using ok moves [OF that] that by (simp add: books_ok_def wallet_balanced_def d' g)
  moreover have "log_ok (paymentLogs d') t"
    using not_logged t(3) by (auto simp: log_ok_def d')
  moreover have "has_transaction d' i" if "has_transaction d i" for i
    using that by (simp add: has_transaction_def d')
  ultimately show ?thesis
    using ok fresh t(1,2) g
    by (auto simp: books_ok_def d' tx_linked_map comp_def)
qed

section \<open>A resolved transaction\<close>

text \<open>
  What a settlement's context must say: it was read from the row of its transaction,
  whose fixed columns it still shows. Its status may be stale.
\<close>

definition context_of :: "TransactionContext \<Rightarrow> transaction \<Rightarrow> bool" where
  "context_of c t \<longleftrightarrow> tx_id t = tc_id c \<and> tx_type t = tc_type c \<and> tx_amount t = tc_amount c
     \<and> tx_currency t = tc_currency c \<and> tx_provider t = tc_provider c
     \<and> senderWalletId t = tc_senderWalletId c \<and> receiverWalletId t = tc_receiverWalletId c"

definition context_in :: "TransactionContext \<Rightarrow> db \<Rightarrow> bool" where
  "context_in c d = list_ex (context_of c) (transactions d)"

lemma transaction_context_of: "context_of (transaction_context u t) t"
  by (simp add: context_of_def transaction_context_def)

text \<open>Replacing one row changes a total by the difference of the two rows' shares.\<close>

lemma total_resolved:
  assumes "list_all2 (tx_resolved c st) ts ts'" and "distinct (map tx_id ts)"
    and "t \<in> set ts" and "tx_id t = c"
    and "\<And>t'. same_payment t t' \<Longrightarrow> tx_status t' = st \<Longrightarrow> f t' = f t + \<delta>"
  shows "total f ts' = total f ts + \<delta>"
  using assms(1-4)
proof (induction rule: list_all2_induct)
  case Nil
  then show ?case by simp
next
  case (Cons s ss s' ss')
  have tail: "total f ss' = total f ss" if "c \<notin> set (map tx_id ss)"
    using Cons.hyps(2) that
    by (induction rule: list_all2_induct) (auto simp: tx_resolved_def total_def)
  show ?case
  proof (cases "tx_id s = c")
    case True
    with Cons.prems have "s = t" by (auto simp: image_iff)
    with True Cons.hyps(1) have "same_payment t s'" "tx_status s' = st" by (simp_all add: tx_resolved_def)
    moreover have "c \<notin> set (map tx_id ss)" using True Cons.prems by auto
    ultimately show ?thesis using tail assms(5) \<open>s = t\<close> by (simp add: total_def)
  next
    case False
    with Cons.hyps(1) have "s' = s" by (simp add: tx_resolved_def)
    moreover have "total f ss' = total f ss + \<delta>" using Cons False by auto
    ultimately show ?thesis by (simp add: total_def)
  qed
qed

lemma resolved_member:
  assumes "list_all2 (tx_resolved c st) ts ts'" and "t' \<in> set ts'"
  shows "\<exists>t \<in> set ts. tx_resolved c st t t'"
  using assms by (metis in_set_conv_nth list_all2_conv_all_nth)

lemma resolved_keys:
  assumes "list_all2 (tx_resolved c st) ts ts'"
  shows "map tx_id ts' = map tx_id ts" "map idempotencyKey ts' = map idempotencyKey ts"
  using assms by (induction rule: list_all2_induct) (auto simp: tx_resolved_def same_payment_def split: if_splits)

lemma books_resolve:
  assumes ok: "books_ok d" and t: "t \<in> set (transactions d)" "tx_id t = c" "tx_type t \<noteq> TRANSFER"
    and nolog: "\<not> logged (paymentLogs d) c" and st: "st = SETTLED \<or> st = FAILED"
    and rows: "list_all2 (tx_resolved c st) (transactions d) (transactions d')"
    and logs: "paymentLogs d' = paymentLogs d @ [l]" "pl_transactionId l = c"
    and g: "\<And>x. w_id (g x) = w_id x" "\<And>x. w_userId (g x) = w_userId x" "\<And>x. w_currency (g x) = w_currency x"
    and wallets: "wallets d' = map g (wallets d)"
    and moves: "\<And>x t'. x \<in> set (wallets d) \<Longrightarrow> tx_ok t \<Longrightarrow> tx_status t = INITIATED \<Longrightarrow>
        same_payment t t' \<Longrightarrow> tx_status t' = st \<Longrightarrow>
        available_share (w_id x) t' = available_share (w_id x) t + (availableBalance (g x) - availableBalance x)
      \<and> locked_share (w_id x) t' = locked_share (w_id x) t + (lockedBalance (g x) - lockedBalance x)
      \<and> pending_share (w_id x) t' = pending_share (w_id x) t + (pendingBalance (g x) - pendingBalance x)"
    and up: "\<And>x. x \<in> set (wallets d) \<Longrightarrow> availableBalance x \<le> availableBalance (g x)"
  shows "books_ok d'"
proof -
  have init: "tx_status t = INITIATED" "tx_ok t"
    using ok t nolog by (auto simp: books_ok_def log_ok_def)
  have dist: "distinct (map tx_id (transactions d))" using ok by (simp add: books_ok_def)
  have bal: "wallet_balanced (transactions d') (g x)" if x: "x \<in> set (wallets d)" for x
  proof -
    note m = moves [OF x init(2) init(1)]
    have "total (available_share (w_id x)) (transactions d') =
        total (available_share (w_id x)) (transactions d) + (availableBalance (g x) - availableBalance x)"
      using m by (intro total_resolved [OF rows dist t(1,2)]) blast
    moreover have "total (locked_share (w_id x)) (transactions d') =
        total (locked_share (w_id x)) (transactions d) + (lockedBalance (g x) - lockedBalance x)"
      using m by (intro total_resolved [OF rows dist t(1,2)]) blast
    moreover have "total (pending_share (w_id x)) (transactions d') =
        total (pending_share (w_id x)) (transactions d) + (pendingBalance (g x) - pendingBalance x)"
      using m by (intro total_resolved [OF rows dist t(1,2)]) blast
    moreover have "wallet_balanced (transactions d) x" using ok x by (simp add: books_ok_def)
    ultimately show ?thesis using up [OF x] by (simp add: wallet_balanced_def g)
  qed
  have row: "tx_ok s \<and> tx_linked (wallets d') s \<and> log_ok (paymentLogs d') s"
    if s: "s \<in> set (transactions d')" for s
  proof -
    from resolved_member [OF rows s] obtain s0 where s0: "s0 \<in> set (transactions d)" "tx_resolved c st s0 s" by auto
    have old: "tx_ok s0" "tx_linked (wallets d) s0" "log_ok (paymentLogs d) s0"
      using ok s0(1) by (auto simp: books_ok_def)
    show ?thesis
    proof (cases "tx_id s0 = c")
      case True
      have "s0 = t" using dist t(1,2) s0(1) True by (auto simp: distinct_map dest: inj_onD)
      with True s0(2) have s: "same_payment t s" "tx_status s = st" by (simp_all add: tx_resolved_def)
      with old init t(3) st \<open>s0 = t\<close> have "tx_ok s"
        by (auto simp: tx_ok_def same_payment_def split: transaction_type.splits)
      moreover have "tx_linked (wallets d') s"
        using old(2) \<open>s0 = t\<close> s(1) g by (simp add: wallets tx_linked_map) (simp add: tx_linked_def same_payment_def)
      moreover have "log_ok (paymentLogs d') s"
        using s t st logs by (auto simp: log_ok_def logged_def same_payment_def)
      ultimately show ?thesis by simp
    next
      case False
      with s0(2) have "s = s0" by (simp add: tx_resolved_def)
      with old g False logs show ?thesis by (simp add: wallets tx_linked_map log_ok_def logged_def)
    qed
  qed
  have keys: "map tx_id (transactions d') = map tx_id (transactions d)"
    "map idempotencyKey (transactions d') = map idempotencyKey (transactions d)"
    using resolved_keys [OF rows] by auto
  have ids: "has_transaction d' i = has_transaction d i" for i
    using arg_cong [OF keys(1), of set] by (auto simp: has_transaction_def list_ex_iff image_iff) (metis imageE imageI)+
  have "has_transaction d c" using t by (auto simp: has_transaction_def list_ex_iff)
  then have "has_transaction d' (pl_transactionId k)" if "k \<in> set (paymentLogs d')" for k
    using ok that logs by (auto simp: books_ok_def ids)
  then show ?thesis
    using ok bal row keys g by (auto simp: books_ok_def wallets comp_def)
qed

end
