(* ===== verification/Money_Blocks.thy ===== *)
theory Money_Blocks
  imports Accounting
begin

text \<open>
  Each atomic block of the money services keeps the books of \<open>Accounting\<close>, whatever state
  it runs in and with whatever stale reads the service made before it.
\<close>

section \<open>Initiating blocks\<close>

lemma posted_books:
  assumes ok: "books_ok (db w)" and p: "posted t ls ev v w'"
    and v: "wallets (db v) = map g (wallets (db w))" "transactions (db v) = transactions (db w)"
      "paymentLogs (db v) = paymentLogs (db w)"
    and t: "tx_ok t" "tx_linked (wallets (db w)) t" "tx_type t = TRANSFER \<or> tx_status t = INITIATED"
    and g: "\<And>x. w_id (g x) = w_id x" "\<And>x. w_userId (g x) = w_userId x" "\<And>x. w_currency (g x) = w_currency x"
    and moves: "\<And>x. x \<in> set (wallets (db w)) \<Longrightarrow>
        availableBalance (g x) = availableBalance x + available_share (w_id x) t
      \<and> lockedBalance (g x) = lockedBalance x + locked_share (w_id x) t
      \<and> pendingBalance (g x) = pendingBalance x + pending_share (w_id x) t
      \<and> 0 \<le> availableBalance (g x)"
  shows "books_ok (db w')"
proof (rule books_post [OF ok _ t g moves])
  show "\<forall>s \<in> set (transactions (db w)). tx_id s \<noteq> tx_id t \<and> idempotencyKey s \<noteq> idempotencyKey t"
    using postedD(1) [OF p] v(2) by (simp add: fresh_row_def)
  show "wallets (db w') = map g (wallets (db w))" using postedD(2) [OF p] v(1) by simp
  show "transactions (db w') = transactions (db w) @ [t]" using postedD(3) [OF p] v(2) by simp
  show "paymentLogs (db w') = paymentLogs (db w)" using postedD(4) [OF p] v(3) by simp
qed

lemma moved_map:
  "wallets (db (moved i da dl dp w)) = map (\<lambda>x. if w_id x = i then move da dl dp (clock w) x else x) (wallets (db w))"
  by (simp add: move_wallets_def)

lemma wallet_in_found:
  assumes "find (\<lambda>x. w_id x = i) ws = Some x" and "w_currency x = c"
  shows "wallet_in ws c (Some i)"
  using find_wallet_mem [OF assms(1)] find_wallet_id [OF assms(1)] assms(2)
  by (auto simp: wallet_in_def list_ex_iff)

lemma wallet_unique:
  assumes "books_ok d" and "find (\<lambda>x. w_id x = i) (wallets d) = Some x" and "y \<in> set (wallets d)" and "w_id y = i"
  shows "y = x"
  using assms find_wallet_mem [OF assms(2)] find_wallet_id [OF assms(2)]
  by (auto simp: books_ok_def distinct_map dest: inj_onD)

text \<open>A pending deposit: the form shared by the two deposit endpoints.\<close>

lemma deposit_books:
  assumes ok: "books_ok (db w)" and y: "find (\<lambda>y. w_id y = i) (wallets (db w)) = Some y"
    and t: "tx_type t = DEPOSIT" "tx_status t = INITIATED" "0 < tx_amount t"
      "senderWalletId t = None" "receiverWalletId t = Some i" "w_currency y = tx_currency t"
    and p: "posted t ls ev (moved i 0 0 (tx_amount t) w) w'"
  shows "books_ok (db w')"
proof (rule posted_books [OF ok p moved_map])
  show "tx_ok t" using t by (simp add: tx_ok_def)
  show "tx_linked (wallets (db w)) t"
    using wallet_in_found [OF y t(6)] t by (simp add: tx_linked_def) (simp add: wallet_in_def)
  fix x assume x: "x \<in> set (wallets (db w))"
  show "availableBalance (if w_id x = i then move 0 0 (tx_amount t) (clock w) x else x)
        = availableBalance x + available_share (w_id x) t
      \<and> lockedBalance (if w_id x = i then move 0 0 (tx_amount t) (clock w) x else x)
        = lockedBalance x + locked_share (w_id x) t
      \<and> pendingBalance (if w_id x = i then move 0 0 (tx_amount t) (clock w) x else x)
        = pendingBalance x + pending_share (w_id x) t
      \<and> 0 \<le> availableBalance (if w_id x = i then move 0 0 (tx_amount t) (clock w) x else x)"
    using t books_nonneg [OF ok x]
    by (simp add: available_share_def credit_share_def debit_share_def locked_share_def pending_share_def)
qed (use t in \<open>simp_all\<close>)

text \<open>A withdrawal with its funds locked: the form shared by the two withdrawal endpoints.\<close>

lemma withdrawal_books:
  assumes ok: "books_ok (db w)" and y: "find (\<lambda>y. w_id y = i) (wallets (db w)) = Some y"
    and t: "tx_type t = WITHDRAWAL" "tx_status t = INITIATED" "0 < tx_amount t"
      "senderWalletId t = Some i" "receiverWalletId t = None" "w_currency y = tx_currency t"
    and enough: "tx_amount t \<le> availableBalance y"
    and p: "posted t ls ev (moved i (- tx_amount t) (tx_amount t) 0 w) w'"
  shows "books_ok (db w')"
proof (rule posted_books [OF ok p moved_map])
  show "tx_ok t" using t by (simp add: tx_ok_def)
  show "tx_linked (wallets (db w)) t"
    using wallet_in_found [OF y t(6)] t by (simp add: tx_linked_def) (simp add: wallet_in_def)
  fix x assume x: "x \<in> set (wallets (db w))"
  have "x = y" if "w_id x = i" using wallet_unique [OF ok y x that] .
  then show "availableBalance (if w_id x = i then move (- tx_amount t) (tx_amount t) 0 (clock w) x else x)
        = availableBalance x + available_share (w_id x) t
      \<and> lockedBalance (if w_id x = i then move (- tx_amount t) (tx_amount t) 0 (clock w) x else x)
        = lockedBalance x + locked_share (w_id x) t
      \<and> pendingBalance (if w_id x = i then move (- tx_amount t) (tx_amount t) 0 (clock w) x else x)
        = pendingBalance x + pending_share (w_id x) t
      \<and> 0 \<le> availableBalance (if w_id x = i then move (- tx_amount t) (tx_amount t) 0 (clock w) x else x)"
    using t enough books_nonneg [OF ok x]
    by (auto simp: available_share_def credit_share_def debit_share_def locked_share_def pending_share_def)
qed (use t in \<open>simp_all\<close>)

text \<open>An internal transfer.\<close>

lemma transfer_books:
  assumes ok: "books_ok (db w)" and ij: "i \<noteq> j"
    and s: "find (\<lambda>x. w_id x = i) (wallets (db w)) = Some s"
    and r: "find (\<lambda>x. w_id x = j) (wallets (db w)) = Some r"
    and t: "tx_type t = TRANSFER" "tx_status t = SETTLED" "0 < tx_amount t"
      "senderWalletId t = Some i" "receiverWalletId t = Some j"
      "w_currency s = tx_currency t" "w_currency r = tx_currency t"
    and enough: "tx_amount t \<le> availableBalance s"
    and p: "posted t ls ev (moved j (tx_amount t) 0 0 (moved i (- tx_amount t) 0 0 w)) w'"
  shows "books_ok (db w')"
proof -
  let ?g = "\<lambda>x. if w_id x = j then move (tx_amount t) 0 0 (clock w) x
    else if w_id x = i then move (- tx_amount t) 0 0 (clock w) x else x"
  have v: "wallets (db (moved j (tx_amount t) 0 0 (moved i (- tx_amount t) 0 0 w))) = map ?g (wallets (db w))"
    using ij by (auto simp: move_wallets_def)
  show ?thesis
  proof (rule posted_books [OF ok p v])
    show "tx_ok t" using t ij by (simp add: tx_ok_def)
    show "tx_linked (wallets (db w)) t"
      using wallet_in_found [OF s t(6)] wallet_in_found [OF r t(7)] t by (simp add: tx_linked_def)
    fix x assume x: "x \<in> set (wallets (db w))"
    have "x = s" if "w_id x = i" using wallet_unique [OF ok s x that] .
    then show "availableBalance (?g x) = availableBalance x + available_share (w_id x) t
        \<and> lockedBalance (?g x) = lockedBalance x + locked_share (w_id x) t
        \<and> pendingBalance (?g x) = pendingBalance x + pending_share (w_id x) t
        \<and> 0 \<le> availableBalance (?g x)"
      using t ij enough books_nonneg [OF ok x]
      by (auto simp: available_share_def credit_share_def debit_share_def locked_share_def pending_share_def)
  qed (use t in \<open>simp_all\<close>)
qed

text \<open>The blocks: books in order before, books in order after.\<close>

lemma wp_keeps:
  assumes "wp m Q (\<lambda>_ w'. db w' = db w) w" and "\<And>a w'. Q a w' \<Longrightarrow> I (db w')" and "I (db w)"
  shows "I (db (snd (m w)))"
proof -
  have "wp m (\<lambda>_ w'. I (db w')) (\<lambda>_ w'. I (db w')) w"
    by (rule wp_mono [OF assms(1)]) (simp_all add: assms(2,3))
  then show ?thesis by (simp add: wp_same)
qed

lemma deposit_block_books:
  assumes "books_ok (db w)" and "0 < amount dto"
  shows "books_ok (db (snd (deposit_block u dto w)))"
  by (rule wp_keeps [OF deposit_block_run, where I = books_ok])
     (use assms in \<open>auto intro: deposit_books\<close>)

lemma withdraw_block_books:
  assumes "books_ok (db w)" and "0 < amount dto"
  shows "books_ok (db (snd (withdraw_block u dto w)))"
  by (rule wp_keeps [OF withdraw_block_run, where I = books_ok])
     (use assms in \<open>auto intro: withdrawal_books\<close>)

lemma transfer_block_books:
  assumes "books_ok (db w)" and "0 < amount dto" and "w_id sw \<noteq> w_id rw"
  shows "books_ok (db (snd (transfer_block u dto sw rw w)))"
  by (rule wp_keeps [OF transfer_block_run [OF assms(3)], where I = books_ok])
     (use assms in \<open>auto intro: transfer_books\<close>)

lemma confirmDeposit_block_books:
  assumes "books_ok (db w)" and "0 < amount dto"
  shows "books_ok (db (snd (confirmDeposit_block u dto w)))"
  by (rule wp_keeps [OF confirmDeposit_block_run, where I = books_ok])
     (use assms in \<open>auto intro: deposit_books\<close>)

lemma createPayout_block_books:
  assumes "books_ok (db w)" and "0 < amount dto"
  shows "books_ok (db (snd (createPayout_block u dto w)))"
  by (rule wp_keeps [OF createPayout_block_run, where I = books_ok])
     (use assms in \<open>auto intro: withdrawal_books\<close>)

section \<open>Settlement\<close>

text \<open>
  A committed path on a context read from its transaction keeps the books: the balances
  move by exactly the change of the transaction's shares.
\<close>

lemma resolved_books:
  assumes ok: "books_ok (db w)" and c: "context_in c (db w)"
    and r: "resolved st i da dl dp (tc_id c) w w'" and st: "st = SETTLED \<or> st = FAILED"
    and "tc_type c \<noteq> TRANSFER" and da: "0 \<le> da"
    and shares: "\<And>k t t'. tx_ok t \<Longrightarrow> context_of c t \<Longrightarrow> tx_status t = INITIATED \<Longrightarrow> same_payment t t' \<Longrightarrow> tx_status t' = st \<Longrightarrow>
       available_share k t' = available_share k t + (if k = i then da else 0)
     \<and> locked_share k t' = locked_share k t + (if k = i then dl else 0)
     \<and> pending_share k t' = pending_share k t + (if k = i then dp else 0)"
  shows "books_ok (db w')"
proof -
  from c obtain t where t: "t \<in> set (transactions (db w))" "context_of c t"
    by (auto simp: context_in_def list_ex_iff)
  then have tid: "tx_id t = tc_id c" "tx_type t \<noteq> TRANSFER"
    using assms(5) by (auto simp: context_of_def)
  from r obtain l where l: "paymentLogs (db w') = paymentLogs (db w) @ [l]" "pl_transactionId l = tc_id c"
    unfolding resolved_def by blast
  let ?g = "\<lambda>x. if w_id x = i then move da dl dp (clock w) x else x"
  show ?thesis
  proof (rule books_resolve [OF ok t(1) tid _ st _ l, where g = ?g])
    show "\<not> logged (paymentLogs (db w)) (tc_id c)"
      using r by (auto simp: resolved_def logged_def list_ex_iff)
    show "list_all2 (tx_resolved (tc_id c) st) (transactions (db w)) (transactions (db w'))"
      using r by (simp add: resolved_def)
    show "wallets (db w') = map ?g (wallets (db w))"
      using r by (simp add: resolved_def move_wallets_def)
    fix x :: wallet and t'
    assume "tx_ok t" "tx_status t = INITIATED" "same_payment t t'" "tx_status t' = st"
    from shares [OF this(1) t(2) this(2-4), of "w_id x"]
    show "available_share (w_id x) t' = available_share (w_id x) t + (availableBalance (?g x) - availableBalance x)
      \<and> locked_share (w_id x) t' = locked_share (w_id x) t + (lockedBalance (?g x) - lockedBalance x)
      \<and> pending_share (w_id x) t' = pending_share (w_id x) t + (pendingBalance (?g x) - pendingBalance x)"
      by simp
  qed (use da in simp_all)
qed

lemmas share_defs = available_share_def credit_share_def debit_share_def locked_share_def pending_share_def

lemma context_amount: "books_ok d \<Longrightarrow> context_in c d \<Longrightarrow> 0 < tc_amount c"
  by (auto simp: books_ok_def context_in_def context_of_def tx_ok_def list_ex_iff)

lemma deposit_paths_books:
  assumes "books_ok (db w)" and "context_in c (db w)" and "tc_type c = DEPOSIT"
    and "tc_receiverWalletId c = Some i"
  shows "resolved SETTLED i (tc_amount c) 0 (- tc_amount c) (tc_id c) w w' \<Longrightarrow> books_ok (db w')"
    and "resolved FAILED i 0 0 (- tc_amount c) (tc_id c) w w' \<Longrightarrow> books_ok (db w')"
  using assms context_amount [OF assms(1,2)]
  by (auto elim!: resolved_books simp: share_defs context_of_def same_payment_def tx_ok_def)

lemma withdrawal_paths_books:
  assumes "books_ok (db w)" and "context_in c (db w)" and "tc_type c = WITHDRAWAL"
    and "tc_senderWalletId c = Some i"
  shows "resolved SETTLED i 0 (- tc_amount c) 0 (tc_id c) w w' \<Longrightarrow> books_ok (db w')"
    and "resolved FAILED i (tc_amount c) (- tc_amount c) 0 (tc_id c) w w' \<Longrightarrow> books_ok (db w')"
  using assms context_amount [OF assms(1,2)]
  by (auto elim!: resolved_books simp: share_defs context_of_def same_payment_def tx_ok_def)

lemma keeps_transaction:
  assumes "wp m (\<lambda>_ w'. I (db w')) (\<lambda>_ _. True) w" and "I (db w)"
  shows "I (db (snd (thenP (withTransaction m) (audit_emit lvl e x) w)))"
proof -
  have "wp m (\<lambda>_ w'. I (db w')) (\<lambda>_ _. I (db w)) w"
    by (rule wp_mono [OF assms(1)]) (simp_all add: assms(2))
  then have "wp (thenP (withTransaction m) (audit_emit lvl e x)) (\<lambda>_ w'. I (db w')) (\<lambda>_ w'. I (db w')) w"
    by (simp add: wp_simps)
  then show ?thesis by (simp add: wp_same)
qed

lemma settle_books:
  assumes "books_ok (db w)" and "context_in c (db w)"
  shows "books_ok (db (snd (settle c ev r w)))"
  unfolding settle_def audit_log_def
proof (rule keeps_transaction [where I = books_ok, OF _ assms(1)], intro wlp_if wlp_throw)
  assume "tc_type c = DEPOSIT"
  with assms show "wp (settleDeposit_path c ev r) (\<lambda>_ w'. books_ok (db w')) (\<lambda>_ _. True) w"
    by (intro wp_mono [OF settleDeposit_path_run]) (auto intro: deposit_paths_books)
next
  assume "tc_type c = WITHDRAWAL"
  with assms show "wp (settleWithdrawal_path c ev r) (\<lambda>_ w'. books_ok (db w')) (\<lambda>_ _. True) w"
    by (intro wp_mono [OF settleWithdrawal_path_run]) (auto intro: withdrawal_paths_books)
qed

lemma fail_books:
  assumes "books_ok (db w)" and "context_in c (db w)"
  shows "books_ok (db (snd (fail c ev r w)))"
  unfolding fail_def audit_warn_def
proof (rule keeps_transaction [where I = books_ok, OF _ assms(1)], intro wlp_if wlp_throw)
  assume "tc_type c = DEPOSIT"
  with assms show "wp (failDeposit_path c ev r) (\<lambda>_ w'. books_ok (db w')) (\<lambda>_ _. True) w"
    by (intro wp_mono [OF failDeposit_path_run]) (auto intro: deposit_paths_books)
next
  assume "tc_type c = WITHDRAWAL"
  with assms show "wp (failWithdrawal_path c ev r) (\<lambda>_ w'. books_ok (db w')) (\<lambda>_ _. True) w"
    by (intro wp_mono [OF failWithdrawal_path_run]) (auto intro: withdrawal_paths_books)
qed

end
