(* ===== verification/Processor.thy ===== *)
theory Processor
  imports Providers Money_Blocks
begin

text \<open>
  \<open>payment/payment-processor.service.ts\<close>: the scheduled outbox consumer. One event is
  processed inside a \<open>try\<close> whose handler counts a retry; a run holds a Redis lock with a
  time to live and deletes it when it ends.
\<close>

section \<open>One event\<close>

definition PROCESSOR_LOCK_KEY :: string where
  "PROCESSOR_LOCK_KEY = ''locks:payment_processor''"

definition PROCESSOR_LOCK_TTL_SECONDS :: int where
  "PROCESSOR_LOCK_TTL_SECONDS = 15 * 60"

text \<open>The branch on the provider's result: the decision matrix of \<open>ProviderResult\<close>.\<close>

definition dispatch :: "TransactionContext \<Rightarrow> uuid \<Rightarrow> ProviderResult \<Rightarrow> (world, unit) prog" where
  "dispatch txCtx eventId result =
     (let webhook = (requiresWebhook result = Some True) in
      if webhook \<and> pr_success result then markDelivered eventId
      else if webhook \<and> \<not> pr_success result then fail txCtx eventId result
      else if pr_success result then settle txCtx eventId result
      else fail txCtx eventId result)"

definition call_provider :: "registry \<Rightarrow> outbox_event \<Rightarrow> uuid \<Rightarrow> provider \<Rightarrow> transaction \<Rightarrow> (world, unit) prog" where
  "call_provider registry event userId p t =
     (let txCtx = transaction_context userId t in
      bindP (resolve registry p) (\<lambda>provider.
      bindP (process provider (oe_payload event) (tx_type t)) (\<lambda>result.
      dispatch txCtx (oe_id event) result)))"

definition processEvent_body :: "registry \<Rightarrow> outbox_event \<Rightarrow> (world, unit) prog" where
  "processEvent_body registry event =
     (case payload_get (oe_payload event) ''userId'' of
        Some (JStr userId) \<Rightarrow>
          if length userId = 0 then incrementRetry (oe_id event)
          else bindP (findTransactionById (oe_transactionId event)) (\<lambda>transaction.
            case transaction of
              None \<Rightarrow> incrementRetry (oe_id event)
            | Some t \<Rightarrow>
                case tx_provider t of
                  None \<Rightarrow> incrementRetry (oe_id event)
                | Some p \<Rightarrow> call_provider registry event userId p t)
      | _ \<Rightarrow> incrementRetry (oe_id event))"

definition processEvent :: "registry \<Rightarrow> outbox_event \<Rightarrow> (world, unit) prog" where
  "processEvent registry event =
     catchP (processEvent_body registry event) (\<lambda>error. incrementRetry (oe_id event))"

section \<open>Batch and schedule\<close>

definition processBatch :: "registry \<Rightarrow> (world, unit) prog" where
  "processBatch registry =
     bindP (findPendingProviderEvents 100 5) (\<lambda>events.
     if length events = 0 then ret () else forP events (processEvent registry))"

definition processOutbox :: "registry \<Rightarrow> (world, unit) prog" where
  "processOutbox registry =
     bindP (redis_set_nx PROCESSOR_LOCK_KEY ''1'' PROCESSOR_LOCK_TTL_SECONDS) (\<lambda>acquired.
     if \<not> acquired then ret ()
     else finallyP (catchP (processBatch registry) (\<lambda>error. ret ())) (redis_del PROCESSOR_LOCK_KEY))"

section \<open>The registry of the two adapters\<close>

definition adapters_ok :: "registry \<Rightarrow> bool" where
  "adapters_ok registry \<longleftrightarrow> (\<forall>p a. registry p = Some a \<longrightarrow> payment_adapter a)"

lemma payment_registry_ok:
  "adapters_ok (payment_registry (StripeProvider api to_cents) (PaypalProvider bt oauth payouts cfg))"
  using stripe.payment_adapter_axioms paypal.payment_adapter_axioms
  by (auto simp: adapters_ok_def payment_registry_def split: provider.splits)

lemma adapter_calm:
  "adapters_ok registry \<Longrightarrow> registry p = Some a \<Longrightarrow> calm (process a q ty)"
  by (auto simp: adapters_ok_def intro: payment_adapter.calm_process)

section \<open>Effect on the books\<close>

text \<open>Writes to outbox rows leave the books and the ledger alone.\<close>

definition same_books :: "world \<Rightarrow> world \<Rightarrow> bool" where
  "same_books w w' \<longleftrightarrow> wallets (db w') = wallets (db w) \<and> transactions (db w') = transactions (db w)
     \<and> ledgerEntries (db w') = ledgerEntries (db w) \<and> paymentLogs (db w') = paymentLogs (db w)"

interpretation sbooks: effect_order same_books
  by unfold_locales (auto simp: same_books_def)

abbreviation keeps_books :: "world \<Rightarrow> world \<Rightarrow> bool" where
  "keeps_books \<equiv> keeps_rel (\<lambda>w. books_ok (db w))"

interpretation kbooks: effect_order keeps_books
  by (rule effect_order_keeps)

lemma same_books_keeps: "same_books w w' \<Longrightarrow> keeps_books w w'"
  by (auto simp: keeps_rel_def same_books_def books_ok_def has_transaction_def)

lemma within_weaken: "within R m \<Longrightarrow> (\<And>w w'. R w w' \<Longrightarrow> S w w') \<Longrightarrow> within S m"
  by (simp add: within_def)

lemma outbox_update_same_books: "within same_books (t_update outboxEvents_t P f)"
  by (rule within_wpI) (auto simp: wp_simps Let_def same_books_def outboxEvents_t_def split: option.splits)

lemma now_same_books: "within same_books now"
  unfolding now_def by (rule sbooks.within_getP)

lemma markDelivered_same_books: "within same_books (markDelivered i)"
  unfolding markDelivered_def by (intro sbooks.within_intros outbox_update_same_books now_same_books)

lemma incrementRetry_same_books: "within same_books (incrementRetry i)"
  unfolding incrementRetry_def by (intro sbooks.within_intros outbox_update_same_books)

lemma within_keeps_books: "within same_books m \<Longrightarrow> within keeps_books m"
  by (rule within_weaken [OF _ same_books_keeps])

lemmas marks_keep_books =
  within_keeps_books [OF markDelivered_same_books] within_keeps_books [OF incrementRetry_same_books]

text \<open>The context an event is dispatched with was read in the same run.\<close>

lemma dispatch_books:
  assumes "books_ok (db w)" and "context_in c (db w)"
  shows "books_ok (db (snd (dispatch c i r w)))"
proof -
  have "books_ok (db (snd (markDelivered i w)))"
    using marks_keep_books(1) assms(1) by (auto simp: within_def keeps_rel_def)
  then show ?thesis
    using settle_books [OF assms] fail_books [OF assms] by (simp add: dispatch_def Let_def)
qed

lemma call_provider_books:
  assumes "adapters_ok registry" and "books_ok (db w)" and "t \<in> set (transactions (db w))"
  shows "books_ok (db (snd (call_provider registry e u p t w)))"
proof (cases "registry p")
  case None
  with assms(2) show ?thesis
    by (simp add: call_provider_def resolve_def bindP_def throw_def Let_def)
next
  case (Some a)
  have ctx: "context_in (transaction_context u t) (db w)"
    using assms(3) transaction_context_of [of u t] by (auto simp: context_in_def list_ex_iff)
  have "wp (call_provider registry e u p t) (\<lambda>_ w'. books_ok (db w')) (\<lambda>_ w'. books_ok (db w')) w"
    unfolding call_provider_def Let_def wp_bindP resolve_def Some option.case wp_ret
  proof (rule wp_calm [OF adapter_calm [OF assms(1) Some]])
    fix r and w' :: world assume "db w' = db w"
    then show "wp (dispatch (transaction_context u t) (oe_id e) r)
        (\<lambda>_ w'. books_ok (db w')) (\<lambda>_ w'. books_ok (db w')) w'"
      using dispatch_books [of w'] assms(2) ctx by (simp add: wp_same)
  qed
  then show ?thesis by (simp add: wp_same)
qed

lemma processEvent_keeps_books:
  assumes "adapters_ok registry"
  shows "within keeps_books (processEvent registry e)"
proof -
  note inc = marks_keep_books(2) [of "oe_id e"]
  have look: "within keeps_books (bindP (findTransactionById i) (\<lambda>x. case x of
      None \<Rightarrow> incrementRetry (oe_id e)
    | Some t \<Rightarrow> (case tx_provider t of None \<Rightarrow> incrementRetry (oe_id e)
        | Some p \<Rightarrow> call_provider registry e u p t)))" for i u
  proof (rule within_wpI)
    fix w
    show "wp (bindP (findTransactionById i) (\<lambda>x. case x of
        None \<Rightarrow> incrementRetry (oe_id e)
      | Some t \<Rightarrow> (case tx_provider t of None \<Rightarrow> incrementRetry (oe_id e)
          | Some p \<Rightarrow> call_provider registry e u p t))) (\<lambda>_. keeps_books w) (\<lambda>_. keeps_books w) w"
    proof (cases "find (\<lambda>t. tx_id t = i) (transactions (db w))")
      case None
      with inc show ?thesis by (simp add: wp_simps wp_withinI)
    next
      case (Some t)
      then have "t \<in> set (transactions (db w))" by (auto dest: find_Some_iff_hd)
      then have "keeps_books w (snd (call_provider registry e u p t w))" for p
        using call_provider_books [OF assms] by (simp add: keeps_rel_def)
      with inc show ?thesis
        unfolding wp_bindP wp_findTransactionById Some option.case
        by (cases "tx_provider t") (simp_all add: within_def wp_same)
    qed
  qed
  have "within keeps_books (processEvent_body registry e)"
    unfolding processEvent_body_def using inc look
    by (auto split: option.splits json.splits)
  then show ?thesis
    unfolding processEvent_def by (intro kbooks.within_catchP inc)
qed

lemma redis_keeps_books: "within keeps_books (redis_call f)"
  by (rule within_wpI) (simp add: wp_simps keeps_rel_def)

lemma processBatch_keeps_books:
  "adapters_ok registry \<Longrightarrow> within keeps_books (processBatch registry)"
  unfolding processBatch_def findPendingProviderEvents_def t_filter_def
  by (intro kbooks.within_intros processEvent_keeps_books)

lemma processOutbox_keeps_books:
  "adapters_ok registry \<Longrightarrow> within keeps_books (processOutbox registry)"
  unfolding processOutbox_def redis_ops
  by (intro kbooks.within_intros redis_keeps_books processBatch_keeps_books)

end
