(* ===== verification/Token_Service.thy ===== *)
theory Token_Service
  imports Audit_Log Encoding
begin

text \<open>
  \<open>auth/token.service.ts\<close>, with the configuration it reads and the patterns
  \<open>config/config.schema.ts\<close> puts on that configuration. Cryptography is a parameter: the
  record \<open>auth_env\<close> holds the HMAC, the JWT signer, argon2 and AES-GCM as functions, next to
  the configured values. Random bytes come from the world's supply of fresh strings.
\<close>

section \<open>Environment\<close>

record jwt_payload =
  sub :: uuid
  jp_email :: string
  jp_role :: role
  jti :: string

record auth_env =
  hashSecret :: "string option"
  accessExpiry :: "string option"
  refreshExpiry :: "string option"
  accessSecret :: "string option"
  maxSessions :: nat
  encryptionKey :: "string option"
  hmac_sha256 :: "string \<Rightarrow> string \<Rightarrow> string"
  jwt_sign :: "string option \<Rightarrow> string option \<Rightarrow> jwt_payload \<Rightarrow> instant \<Rightarrow> string"
  argon2_hash :: "string \<Rightarrow> string \<Rightarrow> string"
  argon2_verify :: "string \<Rightarrow> string \<Rightarrow> bool"
  gcm_seal :: "string \<Rightarrow> string \<Rightarrow> string \<Rightarrow> string \<times> string"
  gcm_open :: "string \<Rightarrow> string \<Rightarrow> string \<Rightarrow> string \<Rightarrow> string option"

text \<open>Fresh random text: the next entry of the world's supply.\<close>

definition random_string :: "(world, string) prog" where
  "random_string w = (Inr (uuids w (uuid_next w)), w\<lparr>uuid_next := Suc (uuid_next w)\<rparr>)"

lemma wp_random_string [wp_simps]:
  "wp random_string Q E w = Q (uuids w (uuid_next w)) (w\<lparr>uuid_next := Suc (uuid_next w)\<rparr>)"
  by (simp add: wp_def random_string_def)

section \<open>Hashing\<close>

definition resolveHashSecret :: "auth_env \<Rightarrow> (world, string) prog" where
  "resolveHashSecret env = (case hashSecret env of
     None \<Rightarrow> throw (JsError ''TOKEN_HASH_SECRET is missing or too short (minimum 32 characters). Set it via environment variable.'')
   | Some secret \<Rightarrow>
       if length secret < 32
       then throw (JsError ''TOKEN_HASH_SECRET is missing or too short (minimum 32 characters). Set it via environment variable.'')
       else ret secret)"

definition hashToken :: "auth_env \<Rightarrow> string \<Rightarrow> (world, string) prog" where
  "hashToken env token = bindP (resolveHashSecret env) (\<lambda>secret. ret (hmac_sha256 env secret token))"

section \<open>Expiry\<close>

text \<open>The pattern \<open>^([1-9]\d*)([smhd])$\<close>: its two groups, when the text matches.\<close>

definition expiry_match :: "string \<Rightarrow> (string \<times> char) option" where
  "expiry_match s =
     (if s \<noteq> [] \<and> butlast s \<noteq> [] \<and> is_digit (hd s) \<and> hd s \<noteq> CHR ''0''
         \<and> list_all is_digit (butlast s) \<and> List.member ''smhd'' (last s)
      then Some (butlast s, last s) else None)"

definition expiry_multiplier :: "char \<Rightarrow> int" where
  "expiry_multiplier u =
     (if u = CHR ''s'' then 1000
      else if u = CHR ''m'' then 60 * 1000
      else if u = CHR ''h'' then 60 * 60 * 1000
      else 24 * 60 * 60 * 1000)"

definition parseExpiry :: "string option \<Rightarrow> (world, int) prog" where
  "parseExpiry expiry = (case Option.bind expiry expiry_match of
     None \<Rightarrow> throw (JsError (''Invalid expiry format \"'' @ (case expiry of None \<Rightarrow> ''undefined'' | Some e \<Rightarrow> e) @
       ''\". Expected a positive integer followed by a unit: s, m, h, or d (e.g. \"15m\", \"7d\").''))
   | Some (value, unit) \<Rightarrow> ret (int (nat_val value) * expiry_multiplier unit))"

definition getRefreshExpiry :: "auth_env \<Rightarrow> (world, instant) prog" where
  "getRefreshExpiry env =
     bindP (parseExpiry (refreshExpiry env)) (\<lambda>ms. bindP now (\<lambda>date. ret (date + ms)))"

text \<open>The parsed value is a whole number of seconds, so the division by 1000 is exact.\<close>

definition getAccessTokenTtlSeconds :: "auth_env \<Rightarrow> (world, int) prog" where
  "getAccessTokenTtlSeconds env = bindP (parseExpiry (accessExpiry env)) (\<lambda>ms. ret (ms div 1000))"

definition onModuleInit :: "auth_env \<Rightarrow> (world, unit) prog" where
  "onModuleInit env =
     thenP (resolveHashSecret env)
     (thenP (parseExpiry (accessExpiry env))
     (thenP (parseExpiry (refreshExpiry env)) (ret ())))"

section \<open>Generation\<close>

record TokenPair =
  accessToken :: string
  refreshToken :: string

definition generateRefreshToken :: "(world, string) prog" where
  "generateRefreshToken = random_string"

definition generateAccessToken :: "auth_env \<Rightarrow> uuid \<Rightarrow> string \<Rightarrow> role \<Rightarrow> (world, string) prog" where
  "generateAccessToken env userId email r =
     bindP random_string (\<lambda>j. bindP now (\<lambda>date.
     ret (jwt_sign env (accessSecret env) (accessExpiry env)
       \<lparr>sub = userId, jp_email = email, jp_role = r, jti = j\<rparr> date)))"

definition generateTokenPair :: "auth_env \<Rightarrow> uuid \<Rightarrow> string \<Rightarrow> role \<Rightarrow> (world, TokenPair) prog" where
  "generateTokenPair env userId email r =
     bindP (generateAccessToken env userId email r) (\<lambda>a.
     bindP generateRefreshToken (\<lambda>t. ret \<lparr>accessToken = a, refreshToken = t\<rparr>))"

section \<open>The schema's patterns\<close>

text \<open>
  \<open>JWT_ACCESS_EXPIRY\<close> and \<open>JWT_REFRESH_EXPIRY\<close>: \<open>/^[1-9]\d*[smhd]$/\<close> with the defaults
  \<open>5m\<close> and \<open>7d\<close>, read left to right as a small automaton; \<open>TOKEN_HASH_SECRET\<close>:
  \<open>string().min(32).required()\<close>.
\<close>

fun expiry_tail :: "string \<Rightarrow> bool" where
  "expiry_tail [] = False"
| "expiry_tail [c] = List.member ''smhd'' c"
| "expiry_tail (c # d # s) = (is_digit c \<and> expiry_tail (d # s))"

fun joi_expiry :: "string \<Rightarrow> bool" where
  "joi_expiry [] = False"
| "joi_expiry (c # s) = (is_digit c \<and> c \<noteq> CHR ''0'' \<and> expiry_tail s)"

definition joi_hash_secret :: "string option \<Rightarrow> bool" where
  "joi_hash_secret s = (case s of None \<Rightarrow> False | Some t \<Rightarrow> 32 \<le> length t)"

lemma expiry_tail_iff:
  "expiry_tail s \<longleftrightarrow> s \<noteq> [] \<and> list_all is_digit (butlast s) \<and> List.member ''smhd'' (last s)"
  by (induction s rule: expiry_tail.induct) auto

lemma joi_expiry_iff: "joi_expiry s \<longleftrightarrow> expiry_match s \<noteq> None"
proof (cases s)
  case (Cons c t)
  then show ?thesis
    by (cases t) (auto simp: expiry_match_def expiry_tail_iff split: if_splits)
qed (simp add: expiry_match_def)

lemma nat_val_pos:
  assumes "s \<noteq> []" and "list_all is_digit s" and "hd s \<noteq> CHR ''0''"
  shows "0 < nat_val s"
  using assms
proof (induction s rule: rev_induct)
  case (snoc c s)
  show ?case
  proof (cases "s = []")
    case True
    with snoc.prems have "is_digit c" "c \<noteq> CHR ''0''" by simp_all
    moreover have "(of_char (CHR ''0'') :: nat) = 48" by simp
    ultimately have "48 < (of_char c :: nat)"
      by (metis is_digit_def le_neq_implies_less of_char_eq_iff)
    with True show ?thesis by (simp add: nat_val_def undigit_def)
  next
    case False
    with snoc show ?thesis by simp
  qed
qed simp

lemma expiry_match_pos:
  assumes "expiry_match s = Some (v, u)"
  shows "0 < nat_val v"
proof (rule nat_val_pos)
  from assms have v: "v = butlast s" "s \<noteq> []" "butlast s \<noteq> []" "list_all is_digit (butlast s)" "hd s \<noteq> CHR ''0''"
    by (auto simp: expiry_match_def split: if_splits)
  then show "v \<noteq> []" "list_all is_digit v" by simp_all
  show "hd v \<noteq> CHR ''0''" using v by (cases s) (auto split: if_splits)
qed

lemma expiry_multiplier_seconds: "expiry_multiplier u mod 1000 = 0" "1000 \<le> expiry_multiplier u"
  by (simp_all add: expiry_multiplier_def)

lemma wp_parseExpiry [wp_simps]:
  "wp (parseExpiry e) Q E w = (case Option.bind e expiry_match of
     None \<Rightarrow> E (JsError (''Invalid expiry format \"'' @ (case e of None \<Rightarrow> ''undefined'' | Some e \<Rightarrow> e) @
       ''\". Expected a positive integer followed by a unit: s, m, h, or d (e.g. \"15m\", \"7d\").'')) w
   | Some (v, u) \<Rightarrow> Q (int (nat_val v) * expiry_multiplier u) w)"
  by (simp add: parseExpiry_def wp_simps split: option.splits prod.splits)

end
