(* ===== verification/Auth_Repo.thy ===== *)
theory Auth_Repo
  imports Users_Repo Token_Service
begin

text \<open>
  \<open>auth/auth.repository.ts\<close> with \<open>auth/auth.constants.ts\<close>: registration, the refresh-token
  rows (one per session), their classification, the session limit, and the clean-up loop.
\<close>

section \<open>Constants\<close>

definition REFRESH_TOKEN_GRACE_PERIOD_SECONDS :: int where
  "REFRESH_TOKEN_GRACE_PERIOD_SECONDS = 10"

definition CLEANUP_BATCH_SIZE :: nat where
  "CLEANUP_BATCH_SIZE = 1000"

definition CLEANUP_BATCH_DELAY_MS :: int where
  "CLEANUP_BATCH_DELAY_MS = 100"

section \<open>Users\<close>

definition findByEmail :: "string \<Rightarrow> (world, user option) prog" where
  "findByEmail email = t_find users_t (\<lambda>u. u_email u = email)"

definition auth_findById :: "uuid \<Rightarrow> (world, user option) prog" where
  "auth_findById i = find_user i"

definition checkEmailOrPhoneTaken :: "string \<Rightarrow> string \<Rightarrow> (world, (string \<times> string) option) prog" where
  "checkEmailOrPhoneTaken email phone =
     bindP (t_find users_t (\<lambda>u. u_email u = email \<or> u_phone u = phone)) (\<lambda>u.
     ret (map_option (\<lambda>u. (u_email u, u_phone u)) u))"

record CreateUserInput =
  cu_name :: string
  cu_email :: string
  cu_phone :: string
  cu_password :: string

definition new_user :: "CreateUserInput \<Rightarrow> uuid \<Rightarrow> instant \<Rightarrow> user" where
  "new_user d i t = \<lparr>u_id = i, u_name = cu_name d, u_email = cu_email d, u_phone = cu_phone d,
     u_password = cu_password d, u_role = USER, u_status = ACTIVE, braintreeCustomerId = None,
     stripeConnectAccountId = None, paypalEmail = None, u_createdAt = t, u_updatedAt = t\<rparr>"

definition new_wallet :: "uuid \<Rightarrow> uuid \<Rightarrow> instant \<Rightarrow> wallet" where
  "new_wallet userId i t = \<lparr>w_id = i, w_userId = userId, w_currency = USD, w_status = ACTIVE,
     availableBalance = 0, lockedBalance = 0, pendingBalance = 0, w_createdAt = t, w_updatedAt = t\<rparr>"

definition create_user_block :: "CreateUserInput \<Rightarrow> (world, user) prog" where
  "create_user_block d = withTransaction (
     bindP (t_create users_t (new_user d)) (\<lambda>user.
     thenP (t_create wallets_t (new_wallet (u_id user))) (ret user)))"

text \<open>\<open>JSON.stringify(error.meta).toLowerCase().includes('phone')\<close>\<close>

definition meta_names_phone :: "string list \<Rightarrow> bool" where
  "meta_names_phone targets = list_ex (\<lambda>t. str_includes (toLowerCase t) ''phone'') targets"

definition createUserWithWallet :: "CreateUserInput \<Rightarrow> (world, user) prog" where
  "createUserWithWallet d = catchP (create_user_block d) (\<lambda>error.
     case error of
       PrismaKnown code targets \<Rightarrow>
         (if code = ''P2002''
          then throw (HttpExn ConflictException
            ((if meta_names_phone targets then ''Phone number'' else ''Email'') @ '' already in use''))
          else throw error)
     | _ \<Rightarrow> throw error)"

section \<open>Refresh tokens\<close>

definition new_refreshToken :: "uuid \<Rightarrow> string \<Rightarrow> instant \<Rightarrow> uuid \<Rightarrow> instant \<Rightarrow> refresh_token" where
  "new_refreshToken userId hash expires i t = \<lparr>rt_id = i, rt_userId = userId, tokenHash = hash,
     rt_createdAt = t, expiresAt = expires, revokedAt = None\<rparr>"

definition rotateRefreshToken :: "string \<Rightarrow> uuid \<Rightarrow> string \<Rightarrow> instant \<Rightarrow> (world, refresh_token) prog" where
  "rotateRefreshToken oldHash userId newHash expires = withTransaction (
     bindP now (\<lambda>date.
     thenP (t_update refreshTokens_t (\<lambda>r. tokenHash r = oldHash \<and> revokedAt r = None)
       (\<lambda>r. r\<lparr>revokedAt := Some date\<rparr>))
     (t_create refreshTokens_t (new_refreshToken userId newHash expires))))"

datatype token_state =
    NOT_FOUND
  | EXPIRED refresh_token
  | ACTIVE_TOKEN refresh_token
  | GRACE_PERIOD refresh_token
  | REUSE_DETECTED refresh_token

text \<open>The state machine: expiry is tested before revocation.\<close>

definition classify_token :: "instant \<Rightarrow> int \<Rightarrow> refresh_token option \<Rightarrow> token_state" where
  "classify_token date leewaySeconds token = (case token of
     None \<Rightarrow> NOT_FOUND
   | Some t \<Rightarrow>
       if expiresAt t \<le> date then EXPIRED t
       else (case revokedAt t of
         None \<Rightarrow> ACTIVE_TOKEN t
       | Some r \<Rightarrow> if date - r \<le> leewaySeconds * 1000 then GRACE_PERIOD t else REUSE_DETECTED t))"

definition findRefreshTokenWithGrace :: "string \<Rightarrow> int \<Rightarrow> (world, token_state) prog" where
  "findRefreshTokenWithGrace hash leewaySeconds =
     bindP (t_find refreshTokens_t (\<lambda>r. tokenHash r = hash)) (\<lambda>token.
     bindP now (\<lambda>date. ret (classify_token date leewaySeconds token)))"

definition revokeRefreshToken :: "string \<Rightarrow> (world, nat) prog" where
  "revokeRefreshToken hash =
     bindP now (\<lambda>date.
     t_updateMany refreshTokens_t (\<lambda>r. tokenHash r = hash \<and> revokedAt r = None)
       (\<lambda>r. r\<lparr>revokedAt := Some date\<rparr>))"

definition revokeAllUserTokens :: "uuid \<Rightarrow> (world, nat) prog" where
  "revokeAllUserTokens userId = revokeActive userId"

section \<open>Sessions\<close>

definition active_session :: "uuid \<Rightarrow> instant \<Rightarrow> refresh_token \<Rightarrow> bool" where
  "active_session userId date r \<longleftrightarrow> rt_userId r = userId \<and> revokedAt r = None \<and> date < expiresAt r"

definition oldest_session :: "refresh_token list \<Rightarrow> refresh_token option" where
  "oldest_session rs = (case sort_key rt_createdAt rs of [] \<Rightarrow> None | r # _ \<Rightarrow> Some r)"

definition evict_oldest :: "uuid \<Rightarrow> instant \<Rightarrow> (world, uuid option) prog" where
  "evict_oldest userId date =
     bindP (t_filter refreshTokens_t (active_session userId date)) (\<lambda>rows.
     case oldest_session rows of
       None \<Rightarrow> ret None
     | Some oldest \<Rightarrow>
         thenP (t_update refreshTokens_t (\<lambda>r. rt_id r = rt_id oldest) (\<lambda>r. r\<lparr>revokedAt := Some date\<rparr>))
         (ret (Some (rt_id oldest))))"

text \<open>
  The advisory lock makes the block of one user run alone; here every block does. The result
  is the id of the new session and of the evicted one.
\<close>

definition createSessionAtomic ::
  "uuid \<Rightarrow> string \<Rightarrow> instant \<Rightarrow> nat \<Rightarrow> (world, uuid \<times> uuid option) prog" where
  "createSessionAtomic userId hash expires maxSess = withTransaction (
     bindP now (\<lambda>date.
     bindP (t_count refreshTokens_t (active_session userId date)) (\<lambda>count.
     bindP (if maxSess \<le> count then evict_oldest userId date else ret None) (\<lambda>evicted.
     bindP (t_create refreshTokens_t (new_refreshToken userId hash expires)) (\<lambda>session.
     ret (rt_id session, evicted))))))"

section \<open>Clean-up\<close>

text \<open>
  One \<open>DELETE ... LIMIT batchSize\<close>: the first expired rows go; the result is their number.
\<close>

fun delete_expired :: "instant \<Rightarrow> nat \<Rightarrow> refresh_token list \<Rightarrow> refresh_token list" where
  "delete_expired date n [] = []"
| "delete_expired date 0 rs = rs"
| "delete_expired date (Suc n) (r # rs) =
     (if expiresAt r < date then delete_expired date n rs else r # delete_expired date (Suc n) rs)"

definition expired_tokens :: "world \<Rightarrow> nat" where
  "expired_tokens w = length (filter (\<lambda>r. expiresAt r < clock w) (refreshTokens (db w)))"

definition delete_batch :: "nat \<Rightarrow> world \<Rightarrow> nat \<times> world" where
  "delete_batch batchSize w =
     (min batchSize (expired_tokens w),
      w\<lparr>db := (db w)\<lparr>refreshTokens := delete_expired (clock w) batchSize (refreshTokens (db w))\<rparr>\<rparr>)"

text \<open>
  The \<open>while (true)\<close> loop: it ends when a batch was not full and waits between batches, so
  the clock moves. Not ending is the value \<open>None\<close>.
\<close>

partial_function (option) cleanup_loop :: "nat \<Rightarrow> nat \<Rightarrow> world \<Rightarrow> (nat \<times> world) option" where
  "cleanup_loop batchSize deleted w =
     (let (result, w') = delete_batch batchSize w; deleted' = deleted + result in
      if result < batchSize then Some (deleted', w')
      else cleanup_loop batchSize deleted' (w'\<lparr>clock := clock w' + CLEANUP_BATCH_DELAY_MS\<rparr>))"

definition deleteAllExpiredTokens :: "nat \<Rightarrow> world \<Rightarrow> (nat \<times> world) option" where
  "deleteAllExpiredTokens batchSize w = cleanup_loop batchSize 0 w"

section \<open>The clean-up ends and removes exactly the expired rows\<close>

lemma delete_expired_all:
  "length (filter (\<lambda>r. expiresAt r < t) rs) \<le> n \<Longrightarrow> delete_expired t n rs = filter (\<lambda>r. \<not> expiresAt r < t) rs"
proof (induction t n rs rule: delete_expired.induct)
  case (2 t r rs)
  then have "filter (\<lambda>r. expiresAt r < t) (r # rs) = []" by simp
  then have "\<forall>x \<in> set (r # rs). \<not> expiresAt x < t" by (simp only: filter_empty_conv)
  then have "filter (\<lambda>r. \<not> expiresAt r < t) (r # rs) = r # rs" by (simp only: filter_True)
  then show ?case by simp
qed auto

lemma delete_expired_length:
  "n \<le> length (filter (\<lambda>r. expiresAt r < t) rs) \<Longrightarrow> length (delete_expired t n rs) = length rs - n"
proof (induction t n rs rule: delete_expired.induct)
  case (3 t n r rs)
  show ?case
  proof (cases "expiresAt r < t")
    case True
    with 3 show ?thesis by simp
  next
    case False
    have "Suc n \<le> length rs" using 3(3) False by (auto intro: order_trans [OF _ length_filter_le])
    with 3 False show ?thesis by simp
  qed
qed auto

text \<open>Rows that had expired by an earlier instant have expired by a later one.\<close>

lemma delete_expired_later:
  assumes "t \<le> t'"
  shows "filter (\<lambda>r. \<not> expiresAt r < t') (delete_expired t n rs) = filter (\<lambda>r. \<not> expiresAt r < t') rs"
  using assms by (induction t n rs rule: delete_expired.induct) auto

lemma cleanup_loop_returns:
  assumes "0 < n"
  shows "\<exists>k w'. cleanup_loop n acc w = Some (acc + k, w') \<and> clock w \<le> clock w'
    \<and> refreshTokens (db w') = filter (\<lambda>r. \<not> expiresAt r < clock w') (refreshTokens (db w))
    \<and> k = length (refreshTokens (db w)) - length (refreshTokens (db w'))
    \<and> w' = w\<lparr>clock := clock w', db := (db w)\<lparr>refreshTokens := refreshTokens (db w')\<rparr>\<rparr>"
proof (induction "length (refreshTokens (db w))" arbitrary: acc w rule: less_induct)
  case less
  let ?rs = "refreshTokens (db w)" and ?e = "expired_tokens w"
  show ?case
  proof (cases "?e < n")
    case True
    have all: "delete_expired (clock w) n ?rs = filter (\<lambda>r. \<not> expiresAt r < clock w) ?rs"
      using True by (intro delete_expired_all) (simp add: expired_tokens_def)
    have split: "?e = length ?rs - length (filter (\<lambda>r. \<not> expiresAt r < clock w) ?rs)"
      using sum_length_filter_compl [of "\<lambda>r. expiresAt r < clock w" ?rs] by (simp add: expired_tokens_def)
    show ?thesis
      by (subst cleanup_loop.simps) (use True all split in \<open>simp add: delete_batch_def\<close>)
  next
    case False
    let ?w = "w\<lparr>db := (db w)\<lparr>refreshTokens := delete_expired (clock w) n ?rs\<rparr>,
      clock := clock w + CLEANUP_BATCH_DELAY_MS\<rparr>"
    have step: "cleanup_loop n acc w = cleanup_loop n (acc + n) ?w"
      by (subst cleanup_loop.simps) (use False in \<open>simp add: delete_batch_def\<close>)
    have len: "length (delete_expired (clock w) n ?rs) = length ?rs - n"
      using False by (intro delete_expired_length) (simp add: expired_tokens_def)
    have "?e \<le> length ?rs" by (simp add: expired_tokens_def)
    then have "n \<le> length ?rs" using False by linarith
    then have "length (refreshTokens (db ?w)) < length ?rs" using assms len by simp
    from less [OF this, of "acc + n"] obtain k w' where
      r: "cleanup_loop n (acc + n) ?w = Some (acc + n + k, w')" "clock ?w \<le> clock w'"
        "refreshTokens (db w') = filter (\<lambda>r. \<not> expiresAt r < clock w') (delete_expired (clock w) n ?rs)"
        "k = length (delete_expired (clock w) n ?rs) - length (refreshTokens (db w'))"
        "w' = ?w\<lparr>clock := clock w', db := (db ?w)\<lparr>refreshTokens := refreshTokens (db w')\<rparr>\<rparr>"
      by auto
    have later: "clock w \<le> clock w'" using r(2) by (simp add: CLEANUP_BATCH_DELAY_MS_def)
    have rows: "refreshTokens (db w') = filter (\<lambda>r. \<not> expiresAt r < clock w') ?rs"
      using r(3) delete_expired_later [OF later] by simp
    have "length (refreshTokens (db w')) \<le> length ?rs - n"
      using r(3) len by (metis length_filter_le)
    with r(4) len \<open>n \<le> length ?rs\<close> have "n + k = length ?rs - length (refreshTokens (db w'))" by simp
    moreover have "w' = w\<lparr>clock := clock w', db := (db w)\<lparr>refreshTokens := refreshTokens (db w')\<rparr>\<rparr>"
      by (subst r(5)) simp
    ultimately show ?thesis using step r(1) later rows by (intro exI [of _ "n + k"] exI [of _ w']) (simp add: add.assoc)
  qed
qed

text \<open>With a batch size of zero the loop never ends.\<close>

lemma cleanup_loop_zero: "cleanup_loop 0 acc w = None"
proof -
  have "n \<noteq> 0" if "cleanup_loop n a v = Some r" for n a v r
    by (rule cleanup_loop.raw_induct [where P = "\<lambda>n a v r. n \<noteq> 0", OF _ that])
       (auto simp: delete_batch_def Let_def split: if_splits)
  from this [of 0] show ?thesis by (cases "cleanup_loop 0 acc w") auto
qed

section \<open>The session limit\<close>

definition active_count :: "uuid \<Rightarrow> instant \<Rightarrow> refresh_token list \<Rightarrow> nat" where
  "active_count userId date rs = length (filter (active_session userId date) rs)"

lemma oldest_session_in: "oldest_session rs = Some r \<Longrightarrow> r \<in> set rs"
  by (metis list.exhaust list.set_intros(1) list.simps(4,5) oldest_session_def option.distinct(1) option.inject set_sort)

lemma oldest_session_None: "oldest_session rs = None \<longleftrightarrow> rs = []"
  by (metis list.exhaust list.simps(4,5) oldest_session_def option.distinct(1) set_empty set_sort)

text \<open>Revoking the row of an active session removes it from the count.\<close>

lemma active_count_revoke:
  assumes "distinct (map rt_id rs)" and "r \<in> set rs" and "active_session u t r"
  shows "Suc (active_count u t (map (\<lambda>x. if rt_id x = rt_id r then x\<lparr>revokedAt := Some d\<rparr> else x) rs)) = active_count u t rs"
  using assms
proof (induction rs)
  case (Cons x xs)
  show ?case
  proof (cases "x = r")
    case True
    with Cons.prems have "rt_id r \<notin> rt_id ` set xs" by auto
    then have "map (\<lambda>x. if rt_id x = rt_id r then x\<lparr>revokedAt := Some d\<rparr> else x) xs = xs"
      by (intro map_idI) (auto simp: image_iff)
    with True Cons.prems show ?thesis by (simp add: active_count_def active_session_def)
  next
    case False
    with Cons.prems have "r \<in> set xs" "rt_id x \<noteq> rt_id r" by (auto simp: image_iff)
    with Cons show ?thesis by (simp add: active_count_def)
  qed
qed simp

lemma active_count_snoc: "active_count u t (rs @ [r]) \<le> Suc (active_count u t rs)"
  by (simp add: active_count_def)

text \<open>
  A committed session block: what the table became, and how many active sessions it holds.
\<close>

definition revoke_row :: "uuid \<Rightarrow> instant \<Rightarrow> refresh_token \<Rightarrow> refresh_token" where
  "revoke_row i d r = (if rt_id r = i then r\<lparr>revokedAt := Some d\<rparr> else r)"

lemma revoke_row_simps [simp]:
  "rt_id (revoke_row i d r) = rt_id r" "tokenHash (revoke_row i d r) = tokenHash r"
  "rt_userId (revoke_row i d r) = rt_userId r" "expiresAt (revoke_row i d r) = expiresAt r"
  by (simp_all add: revoke_row_def)

lemma wlp_create_token:
  assumes "\<And>r. r = new_refreshToken u h x (uuids w (uuid_next w)) (clock w) \<Longrightarrow>
      \<forall>s \<in> set (refreshTokens (db w)). rt_id s \<noteq> rt_id r \<and> tokenHash s \<noteq> h \<Longrightarrow>
      Q r (w\<lparr>uuid_next := Suc (uuid_next w), db := (db w)\<lparr>refreshTokens := refreshTokens (db w) @ [r]\<rparr>\<rparr>)"
  shows "wp (t_create refreshTokens_t (new_refreshToken u h x)) Q (\<lambda>_ _. True) w"
proof -
  let ?r = "new_refreshToken u h x (uuids w (uuid_next w)) (clock w)"
  have "\<forall>s \<in> set (refreshTokens (db w)). rt_id s \<noteq> rt_id ?r \<and> tokenHash s \<noteq> h"
    if "violated (t_unique refreshTokens_t) ?r (t_get refreshTokens_t (db w)) = None"
    using that by (auto simp: refreshTokens_t_def new_refreshToken_def list_ex_iff split: if_splits)
  from assms [OF refl this] show ?thesis
    by (auto simp: wp_t_create Let_def refreshTokens_t_def split: option.splits)
qed

lemma wlp_evict_oldest:
  assumes "oldest_session (filter (active_session u d) (refreshTokens (db w))) = None \<Longrightarrow> Q None w"
    and "\<And>r. oldest_session (filter (active_session u d) (refreshTokens (db w))) = Some r \<Longrightarrow>
      Q (Some (rt_id r)) (w\<lparr>db := (db w)\<lparr>refreshTokens := map (revoke_row (rt_id r) d) (refreshTokens (db w))\<rparr>\<rparr>)"
  shows "wp (evict_oldest u d) Q (\<lambda>_ _. True) w"
proof -
  have eq: "map (\<lambda>x. if rt_id x = i then x\<lparr>revokedAt := Some d\<rparr> else x) = map (revoke_row i d)" for i
    by (rule ext) (simp add: revoke_row_def)
  show ?thesis
    using assms
    by (auto simp: evict_oldest_def wp_simps Let_def refreshTokens_t_def eq split: option.splits)
qed

definition sessions_after :: "uuid \<Rightarrow> instant \<Rightarrow> nat \<Rightarrow> refresh_token list \<Rightarrow> uuid option \<times> refresh_token list" where
  "sessions_after u d m rs =
     (let act = filter (active_session u d) rs;
          ev = (if m \<le> length act then map_option rt_id (oldest_session act) else None)
      in (ev, case ev of None \<Rightarrow> rs | Some i \<Rightarrow> map (revoke_row i d) rs))"

lemma createSessionAtomic_run:
  "wp (createSessionAtomic u h x m) (\<lambda>(s, ev) w'.
       s = uuids w (uuid_next w) \<and> ev = fst (sessions_after u (clock w) m (refreshTokens (db w)))
     \<and> (\<forall>t \<in> set (refreshTokens (db w)). rt_id t \<noteq> s \<and> tokenHash t \<noteq> h)
     \<and> db w' = (db w)\<lparr>refreshTokens := snd (sessions_after u (clock w) m (refreshTokens (db w)))
         @ [new_refreshToken u h x s (clock w)]\<rparr>)
   (\<lambda>_ w'. db w' = db w) w"
proof -
  have cnt: "t_count refreshTokens_t P = getP (\<lambda>w. length (filter P (refreshTokens (db w))))" for P
    by (simp add: t_count_def refreshTokens_t_def)
  show ?thesis
    unfolding createSessionAtomic_def now_def cnt wp_withTransaction
    apply simp
    apply (intro wlp_intros wlp_evict_oldest wlp_create_token)
      apply (auto simp: sessions_after_def Let_def new_refreshToken_def)
    done
qed

lemma sessions_after_count:
  assumes "distinct (map rt_id rs)" and "0 < m"
  shows "active_count u d (snd (sessions_after u d m rs)) < max m (active_count u d rs)"
proof (cases "m \<le> active_count u d rs")
  case True
  let ?act = "filter (active_session u d) rs"
  have "?act \<noteq> []" using True assms(2) by (auto simp: active_count_def)
  then obtain o1 where o1: "oldest_session ?act = Some o1" using oldest_session_None by fastforce
  then have mem: "o1 \<in> set rs" "active_session u d o1" using oldest_session_in by fastforce+
  have "snd (sessions_after u d m rs) = map (revoke_row (rt_id o1) d) rs"
    using True o1 by (simp add: sessions_after_def Let_def active_count_def)
  moreover have "Suc (active_count u d (map (revoke_row (rt_id o1) d) rs)) = active_count u d rs"
    using active_count_revoke [OF assms(1) mem] by (simp add: revoke_row_def [abs_def])
  ultimately show ?thesis by simp
next
  case False
  then show ?thesis by (simp add: sessions_after_def Let_def active_count_def)
qed

lemma createSessionAtomic_limit:
  assumes "createSessionAtomic u h x m w = (Inr r, w')" and "distinct (map rt_id (refreshTokens (db w)))"
    and "0 < m"
  shows "active_count u (clock w) (refreshTokens (db w')) \<le> max m (active_count u (clock w) (refreshTokens (db w)))"
proof -
  have "db w' = (db w)\<lparr>refreshTokens := snd (sessions_after u (clock w) m (refreshTokens (db w)))
      @ [new_refreshToken u h x (fst r) (clock w)]\<rparr>"
    using wp_returnsD [OF createSessionAtomic_run assms(1)] by (auto simp: split: prod.splits)
  then have "active_count u (clock w) (refreshTokens (db w'))
      \<le> Suc (active_count u (clock w) (snd (sessions_after u (clock w) m (refreshTokens (db w)))))"
    by (simp add: active_count_snoc)
  with sessions_after_count [OF assms(2,3), of u "clock w"] show ?thesis by simp
qed

end
