(* ===== verification/Json_Text.thy ===== *)
theory Json_Text
  imports Encoding
begin

text \<open>
  \<open>JSON.stringify\<close> and \<open>JSON.parse\<close>, which the rotation cache and the pagination cursor use,
  with the round trip of an object of strings.
\<close>

section \<open>Printing\<close>

definition hex_digit :: "nat \<Rightarrow> char" where
  "hex_digit n = (if n < 10 then digit n else char_of (87 + n))"

definition hex_value :: "char \<Rightarrow> nat option" where
  "hex_value c =
     (if is_digit c then Some (undigit c)
      else if CHR ''a'' \<le> c \<and> c \<le> CHR ''f'' then Some (of_char c - 87)
      else if CHR ''A'' \<le> c \<and> c \<le> CHR ''F'' then Some (of_char c - 55)
      else None)"

definition json_escape :: "char \<Rightarrow> string" where
  "json_escape c =
     (if c = CHR 0x22 then [CHR 0x5C, CHR 0x22]
      else if c = CHR 0x5C then [CHR 0x5C, CHR 0x5C]
      else if c = CHR 0x08 then [CHR 0x5C, CHR ''b'']
      else if c = CHR 0x09 then [CHR 0x5C, CHR ''t'']
      else if c = CHR 0x0A then [CHR 0x5C, CHR ''n'']
      else if c = CHR 0x0C then [CHR 0x5C, CHR ''f'']
      else if c = CHR 0x0D then [CHR 0x5C, CHR ''r'']
      else if (of_char c :: nat) < 32
      then [CHR 0x5C, CHR ''u'', CHR ''0'', CHR ''0'', hex_digit (of_char c div 16), hex_digit (of_char c mod 16)]
      else [c])"

definition json_quote :: "string \<Rightarrow> string" where
  "json_quote s = CHR 0x22 # concat (map json_escape s) @ [CHR 0x22]"

fun stringify :: "json \<Rightarrow> string"
  and stringify_list :: "json list \<Rightarrow> string"
  and stringify_fields :: "(string \<times> json) list \<Rightarrow> string" where
  "stringify JNull = ''null''"
| "stringify (JBool b) = (if b then ''true'' else ''false'')"
| "stringify (JInt n) = int_str n"
| "stringify (JDec d) = number_str d"
| "stringify (JNum s) = s"
| "stringify (JStr s) = json_quote s"
| "stringify (JArr vs) = ''['' @ stringify_list vs @ '']''"
| "stringify (JObj fs) = ''{'' @ stringify_fields fs @ ''}''"
| "stringify_list [] = []"
| "stringify_list [v] = stringify v"
| "stringify_list (v # u # vs) = stringify v @ '','' @ stringify_list (u # vs)"
| "stringify_fields [] = []"
| "stringify_fields [(k, v)] = json_quote k @ '':'' @ stringify v"
| "stringify_fields ((k, v) # f # fs) = json_quote k @ '':'' @ stringify v @ '','' @ stringify_fields (f # fs)"

section \<open>Reading\<close>

definition skip_ws :: "string \<Rightarrow> string" where
  "skip_ws s = dropWhile (\<lambda>c. List.member [CHR '' '', CHR 0x09, CHR 0x0A, CHR 0x0D] c) s"

text \<open>The UTF-8 bytes of a \<open>\u\<close> escape.\<close>

definition utf8 :: "nat \<Rightarrow> string" where
  "utf8 n = (if n < 128 then [char_of n]
     else if n < 2048 then [char_of (192 + n div 64), char_of (128 + n mod 64)]
     else [char_of (224 + n div 4096), char_of (128 + n div 64 mod 64), char_of (128 + n mod 64)])"

definition hex4 :: "char \<Rightarrow> char \<Rightarrow> char \<Rightarrow> char \<Rightarrow> nat option" where
  "hex4 a b c d = (case (hex_value a, hex_value b, hex_value c, hex_value d) of
     (Some x, Some y, Some z, Some u) \<Rightarrow> Some (((x * 16 + y) * 16 + z) * 16 + u) | _ \<Rightarrow> None)"

definition simple_escape :: "char \<Rightarrow> char option" where
  "simple_escape c = map_of
     [(CHR 0x22, CHR 0x22), (CHR 0x5C, CHR 0x5C), (CHR ''/'', CHR ''/''), (CHR ''b'', CHR 0x08),
      (CHR ''t'', CHR 0x09), (CHR ''n'', CHR 0x0A), (CHR ''f'', CHR 0x0C), (CHR ''r'', CHR 0x0D)] c"

text \<open>The rest of a string after its opening quote: the text and what follows the closing one.\<close>

fun read_string :: "string \<Rightarrow> (string \<times> string) option" where
  "read_string [] = None"
| "read_string (c # s) =
     (if c = CHR 0x22 then Some ([], s)
      else if c = CHR 0x5C then
        (case s of
           [] \<Rightarrow> None
         | e # t \<Rightarrow>
             if e = CHR ''u'' then
               (case t of
                  a # b # x # y # r \<Rightarrow>
                    (case hex4 a b x y of None \<Rightarrow> None
                     | Some n \<Rightarrow> map_option (\<lambda>(u, v). (utf8 n @ u, v)) (read_string r))
                | _ \<Rightarrow> None)
             else
               (case simple_escape e of None \<Rightarrow> None
                | Some d \<Rightarrow> map_option (\<lambda>(u, v). (d # u, v)) (read_string t)))
      else if (of_char c :: nat) < 32 then None
      else map_option (\<lambda>(u, v). (c # u, v)) (read_string s))"

text \<open>A number literal: integers and decimals of at most four places have their value.\<close>

definition read_number :: "string \<Rightarrow> (json \<times> string) option" where
  "read_number s =
     (let neg = (s \<noteq> [] \<and> hd s = CHR ''-'');
          s1 = (if neg then tl s else s);
          ip = takeWhile is_digit s1; s2 = dropWhile is_digit s1;
          frac = (s2 \<noteq> [] \<and> hd s2 = CHR ''.'');
          fp = (if frac then takeWhile is_digit (tl s2) else []);
          s3 = (if frac then dropWhile is_digit (tl s2) else s2);
          ex = (s3 \<noteq> [] \<and> (hd s3 = CHR ''e'' \<or> hd s3 = CHR ''E''));
          s4 = (if ex then tl s3 else s3);
          s5 = (if ex \<and> s4 \<noteq> [] \<and> (hd s4 = CHR ''+'' \<or> hd s4 = CHR ''-'') then tl s4 else s4);
          ep = (if ex then takeWhile is_digit s5 else []);
          r = (if ex then dropWhile is_digit s5 else s3);
          sg = (if neg then -1 else 1)
      in if ip = [] \<or> (hd ip = CHR ''0'' \<and> length ip > 1) \<or> (frac \<and> fp = []) \<or> (ex \<and> ep = []) then None
         else if \<not> frac \<and> \<not> ex then Some (JInt (sg * int (nat_val ip)), r)
         else if \<not> ex \<and> length fp \<le> 4
         then Some (JDec (sg * (int (nat_val ip) * 10000 + int (nat_val (fp @ replicate (4 - length fp) CHR ''0'')))), r)
         else Some (JNum (take (length s - length r) s), r))"

text \<open>A later field of the same name replaces the earlier one.\<close>

fun obj_set :: "string \<Rightarrow> json \<Rightarrow> payload \<Rightarrow> payload" where
  "obj_set k v [] = [(k, v)]"
| "obj_set k v ((j, u) # fs) = (if j = k then (k, v) # fs else (j, u) # obj_set k v fs)"

definition literal :: "string \<Rightarrow> json \<Rightarrow> string \<Rightarrow> (json \<times> string) option" where
  "literal t v s = (if take (length t) s = t then Some (v, drop (length t) s) else None)"

text \<open>
  Recursive descent; every call consumes a character, so as much fuel as characters is
  enough.
\<close>

fun read_value :: "nat \<Rightarrow> string \<Rightarrow> (json \<times> string) option"
  and read_elements :: "nat \<Rightarrow> string \<Rightarrow> (json list \<times> string) option"
  and read_fields :: "nat \<Rightarrow> payload \<Rightarrow> string \<Rightarrow> (payload \<times> string) option" where
  "read_value 0 s = None"
| "read_value (Suc n) s =
     (case skip_ws s of
        [] \<Rightarrow> None
      | c # t \<Rightarrow>
          if c = CHR 0x22 then map_option (\<lambda>(u, r). (JStr u, r)) (read_string t)
          else if c = CHR ''{'' then
            (case skip_ws t of
               d # r \<Rightarrow> if d = CHR ''}'' then Some (JObj [], r)
                 else map_option (\<lambda>(fs, r). (JObj fs, r)) (read_fields n [] t)
             | [] \<Rightarrow> None)
          else if c = CHR ''['' then
            (case skip_ws t of
               d # r \<Rightarrow> if d = CHR '']'' then Some (JArr [], r)
                 else map_option (\<lambda>(vs, r). (JArr vs, r)) (read_elements n t)
             | [] \<Rightarrow> None)
          else if c = CHR ''n'' then literal ''null'' JNull (c # t)
          else if c = CHR ''t'' then literal ''true'' (JBool True) (c # t)
          else if c = CHR ''f'' then literal ''false'' (JBool False) (c # t)
          else read_number (c # t))"
| "read_elements 0 s = None"
| "read_elements (Suc n) s =
     (case read_value n s of
        None \<Rightarrow> None
      | Some (v, t) \<Rightarrow>
          (case skip_ws t of
             d # r \<Rightarrow>
               if d = CHR '','' then map_option (\<lambda>(vs, r). (v # vs, r)) (read_elements n r)
               else if d = CHR '']'' then Some ([v], r)
               else None
           | [] \<Rightarrow> None))"
| "read_fields 0 acc s = None"
| "read_fields (Suc n) acc s =
     (case skip_ws s of
        [] \<Rightarrow> None
      | c # t \<Rightarrow>
          if c \<noteq> CHR 0x22 then None
          else (case read_string t of
             None \<Rightarrow> None
           | Some (k, t) \<Rightarrow>
               (case skip_ws t of
                  [] \<Rightarrow> None
                | d # t \<Rightarrow>
                    if d \<noteq> CHR '':'' then None
                    else (case read_value n t of
                       None \<Rightarrow> None
                     | Some (v, t) \<Rightarrow>
                         (case skip_ws t of
                            [] \<Rightarrow> None
                          | e # r \<Rightarrow>
                              if e = CHR '','' then read_fields n (obj_set k v acc) r
                              else if e = CHR ''}'' then Some (obj_set k v acc, r)
                              else None)))))"

definition json_parse :: "string \<Rightarrow> json option" where
  "json_parse s = (case read_value (Suc (length s)) s of
     Some (v, r) \<Rightarrow> if skip_ws r = [] then Some v else None | None \<Rightarrow> None)"

section \<open>Round trip of an object of strings\<close>

lemma hex_value_digit:
  assumes "n < 16"
  shows "hex_value (hex_digit n) = Some n"
proof (cases "n < 10")
  case True
  then show ?thesis by (simp add: hex_digit_def hex_value_def)
next
  case False
  with assms have "(of_char (hex_digit n) :: nat) = 87 + n" by (simp add: hex_digit_def)
  with False assms show ?thesis by (simp add: hex_value_def is_digit_def less_eq_char_def)
qed

lemma hex_value_zero: "hex_value (CHR ''0'') = Some 0"
  by (simp add: hex_value_def is_digit_def undigit_def)

lemma escape_hex:
  assumes "(of_char c :: nat) < 32"
  shows "hex4 CHR ''0'' CHR ''0'' (hex_digit (of_char c div 16)) (hex_digit (of_char c mod 16)) = Some (of_char c)"
proof -
  have "of_char c div 16 < (16 :: nat)" using assms by (intro less_mult_imp_div_less) simp
  then show ?thesis
    by (simp add: hex4_def hex_value_digit hex_value_zero)
qed

lemma read_plain:
  assumes "c \<noteq> CHR 0x22" and "c \<noteq> CHR 0x5C" and "\<not> (of_char c :: nat) < 32"
  shows "read_string (c # x) = map_option (\<lambda>(u, v). (c # u, v)) (read_string x)"
  using assms by (subst read_string.simps(2)) simp

lemma simple_escapes:
  "simple_escape CHR 0x22 = Some CHR 0x22" "simple_escape CHR 0x5C = Some CHR 0x5C"
  "simple_escape CHR ''b'' = Some CHR 0x08" "simple_escape CHR ''t'' = Some CHR 0x09"
  "simple_escape CHR ''n'' = Some CHR 0x0A" "simple_escape CHR ''f'' = Some CHR 0x0C"
  "simple_escape CHR ''r'' = Some CHR 0x0D"
  by (simp_all add: simple_escape_def)

lemma read_escape: "read_string (json_escape c @ x) = map_option (\<lambda>(u, v). (c # u, v)) (read_string x)"
proof -
  consider "c \<in> {CHR 0x22, CHR 0x5C, CHR 0x08, CHR 0x09, CHR 0x0A, CHR 0x0C, CHR 0x0D}"
    | "c \<notin> {CHR 0x22, CHR 0x5C, CHR 0x08, CHR 0x09, CHR 0x0A, CHR 0x0C, CHR 0x0D}" "(of_char c :: nat) < 32"
    | "c \<notin> {CHR 0x22, CHR 0x5C, CHR 0x08, CHR 0x09, CHR 0x0A, CHR 0x0C, CHR 0x0D}" "\<not> (of_char c :: nat) < 32"
    by blast
  then show ?thesis
  proof cases
    case 1
    then show ?thesis by (auto simp: json_escape_def simple_escapes)
  next
    case 2
    then have "utf8 (of_char c) = [c]" by (simp add: utf8_def)
    with 2 show ?thesis by (simp add: json_escape_def escape_hex)
  next
    case 3
    then show ?thesis by (simp add: json_escape_def read_plain del: read_string.simps)
  qed
qed

lemma read_string_quoted: "read_string (concat (map json_escape s) @ CHR 0x22 # r) = Some (s, r)"
proof (induction s)
  case (Cons c s)
  then show ?case by (simp only: list.map concat.simps append_assoc read_escape option.map prod.case)
qed simp

lemma skip_ws_plain: "\<not> List.member [CHR '' '', CHR 0x09, CHR 0x0A, CHR 0x0D] c \<Longrightarrow> skip_ws (c # s) = c # s"
  by (simp add: skip_ws_def)

lemma read_value_string: "read_value (Suc n) (json_quote s @ r) = Some (JStr s, r)"
  by (simp add: json_quote_def skip_ws_plain read_string_quoted)

definition str_fields :: "(string \<times> string) list \<Rightarrow> payload" where
  "str_fields kvs = map (\<lambda>(k, s). (k, JStr s)) kvs"

lemma read_fields_strings:
  assumes "kvs \<noteq> []" and "length kvs < n"
  shows "read_fields n acc (stringify_fields (str_fields kvs) @ CHR ''}'' # r) =
    Some (foldl (\<lambda>a (k, s). obj_set k (JStr s) a) acc kvs, r)"
  using assms
proof (induction kvs arbitrary: n acc)
  case (Cons p kvs)
  obtain k s where p: "p = (k, s)" by (cases p)
  obtain m where n: "n = Suc (Suc m)" using Cons.prems by (cases n; cases "n - 1") auto
  show ?case
  proof (cases kvs)
    case Nil
    then show ?thesis
      unfolding p n str_fields_def
      by (simp add: json_quote_def [of k] skip_ws_plain read_string_quoted read_value_string del: read_value.simps)
  next
    case (Cons q qs)
    have ih: "read_fields (Suc m) (obj_set k (JStr s) acc) (stringify_fields (str_fields kvs) @ CHR ''}'' # r) =
        Some (foldl (\<lambda>a (k, s). obj_set k (JStr s) a) (obj_set k (JStr s) acc) kvs, r)"
      by (rule Cons.IH) (use Cons.prems n Cons in auto)
    obtain f fs where f: "str_fields kvs = f # fs" using Cons by (cases q) (simp add: str_fields_def)
    have sf: "stringify_fields (str_fields (p # kvs)) =
        json_quote k @ '':'' @ json_quote s @ '','' @ stringify_fields (str_fields kvs)"
      using f by (simp add: p str_fields_def)
    show ?thesis
      unfolding sf n
      apply (subst read_fields.simps(2))
      apply (simp add: json_quote_def [of k] skip_ws_plain read_string_quoted read_value_string del: read_value.simps read_fields.simps)
      apply (simp only: ih p foldl_Cons prod.case)
      done
  qed
qed simp

lemma obj_set_new: "k \<notin> fst ` set fs \<Longrightarrow> obj_set k v fs = fs @ [(k, v)]"
  by (induction k v fs rule: obj_set.induct) auto

lemma foldl_obj_set:
  assumes "distinct (map fst kvs)" and "fst ` set acc \<inter> fst ` set kvs = {}"
  shows "foldl (\<lambda>a (k, s). obj_set k (JStr s) a) acc kvs = acc @ str_fields kvs"
  using assms
proof (induction kvs arbitrary: acc)
  case (Cons p kvs)
  obtain k s where p: "p = (k, s)" by (cases p)
  have "k \<notin> fst ` set acc" using Cons.prems p by auto
  moreover have "foldl (\<lambda>a (k, s). obj_set k (JStr s) a) (acc @ [(k, JStr s)]) kvs = (acc @ [(k, JStr s)]) @ str_fields kvs"
    using Cons.prems p by (intro Cons.IH) auto
  ultimately show ?case by (simp add: p obj_set_new str_fields_def)
qed (simp add: str_fields_def)

lemma stringify_fields_length: "length kvs < length (stringify_fields (str_fields kvs)) + 1"
  by (induction kvs rule: induct_list012) (auto simp: str_fields_def json_quote_def)

theorem json_roundtrip_strings:
  assumes "kvs \<noteq> []" and "distinct (map fst kvs)"
  shows "json_parse (stringify (JObj (str_fields kvs))) = Some (JObj (str_fields kvs))"
proof -
  let ?t = "stringify_fields (str_fields kvs) @ ''}''"
  obtain k s kvs' where kvs: "kvs = (k, s) # kvs'" using assms(1) by (cases kvs) auto
  have "\<exists>u. ?t = CHR 0x22 # u"
    by (cases kvs') (auto simp: kvs str_fields_def json_quote_def split: prod.splits)
  then obtain u where u: "?t = CHR 0x22 # u" by blast
  have fields: "read_fields (length ?t + 1) [] ?t = Some (str_fields kvs, [])"
    using read_fields_strings [OF assms(1), of "length ?t + 1" "[]" "[]"] stringify_fields_length [of kvs]
      foldl_obj_set [OF assms(2), of "[]"] by simp
  have "read_value (Suc (length (CHR ''{'' # ?t))) (CHR ''{'' # ?t) = Some (JObj (str_fields kvs), [])"
    using fields u by (simp add: skip_ws_plain del: read_fields.simps)
  then show ?thesis by (simp add: json_parse_def skip_ws_def del: read_value.simps)
qed

end
