(* ===== verification/Crypto_Service.thy ===== *)
theory Crypto_Service
  imports Token_Service Json_Text
begin

text \<open>
  \<open>crypto/crypto.service.ts\<close>: authenticated encryption of cache values. The stored text is
  the hex of IV, ciphertext and tag. The cipher itself is the pair \<open>gcm_seal\<close>/\<open>gcm_open\<close> of
  the environment; the locale \<open>authenticated_cipher\<close> states what AES-256-GCM promises.
\<close>

section \<open>Buffers\<close>

definition to_hex :: "string \<Rightarrow> string" where
  "to_hex s = concat (map (\<lambda>c. [hex_digit (of_char c div 16), hex_digit (of_char c mod 16)]) s)"

text \<open>\<open>Buffer.from(s, 'hex')\<close> stops at the first pair that is not hexadecimal.\<close>

fun from_hex :: "string \<Rightarrow> string" where
  "from_hex (a # b # s) = (case (hex_value a, hex_value b) of
     (Some x, Some y) \<Rightarrow> char_of (x * 16 + y) # from_hex s | _ \<Rightarrow> [])"
| "from_hex _ = []"

text \<open>\<open>buf.subarray(start, end)\<close>: negative positions count from the end.\<close>

definition clamp :: "int \<Rightarrow> int \<Rightarrow> nat" where
  "clamp n i = nat (if i < 0 then max 0 (n + i) else min i n)"

definition subarray :: "string \<Rightarrow> int \<Rightarrow> int \<Rightarrow> string" where
  "subarray s i j = (let a = clamp (int (length s)) i; b = clamp (int (length s)) j in take (b - a) (drop a s))"

section \<open>The service\<close>

definition IV_BYTES :: nat where "IV_BYTES = 12"
definition TAG_BYTES :: nat where "TAG_BYTES = 16"
definition KEY_HEX_LENGTH :: nat where "KEY_HEX_LENGTH = 64"

definition resolveKey :: "auth_env \<Rightarrow> (world, string) prog" where
  "resolveKey env = (case encryptionKey env of
     None \<Rightarrow> throw (JsError ''CACHE_ENCRYPTION_KEY must be a 64-character hex string (32 bytes / 256 bits).'')
   | Some hex \<Rightarrow>
       if length hex \<noteq> KEY_HEX_LENGTH
       then throw (JsError ''CACHE_ENCRYPTION_KEY must be a 64-character hex string (32 bytes / 256 bits).'')
       else if \<not> list_all (\<lambda>c. hex_value c \<noteq> None) hex
       then throw (JsError ''CACHE_ENCRYPTION_KEY must contain only hexadecimal characters (0-9, a-f).'')
       else ret (from_hex hex))"

text \<open>\<open>crypto.randomBytes(n)\<close>: exactly \<open>n\<close> bytes of the random supply.\<close>

definition randomBytes :: "nat \<Rightarrow> (world, string) prog" where
  "randomBytes n = bindP random_string (\<lambda>s. ret (take n (s @ replicate n CHR 0x00)))"

definition encrypt :: "auth_env \<Rightarrow> string \<Rightarrow> (world, string) prog" where
  "encrypt env plaintext =
     bindP (resolveKey env) (\<lambda>key.
     bindP (randomBytes IV_BYTES) (\<lambda>iv.
     let (ciphertext, tag) = gcm_seal env key iv plaintext in
     ret (to_hex (iv @ ciphertext @ tag))))"

definition decrypt :: "auth_env \<Rightarrow> string \<Rightarrow> (world, string) prog" where
  "decrypt env hex =
     bindP (resolveKey env) (\<lambda>key.
     let buf = from_hex hex;
         iv = subarray buf 0 (int IV_BYTES);
         tag = subarray buf (int (length buf) - int TAG_BYTES) (int (length buf));
         ciphertext = subarray buf (int IV_BYTES) (int (length buf) - int TAG_BYTES)
     in case gcm_open env key iv ciphertext tag of
          None \<Rightarrow> throw (JsError ''Unsupported state or unable to authenticate data'')
        | Some plaintext \<Rightarrow> ret plaintext)"

section \<open>Round trip\<close>

lemma from_hex_to_hex: "from_hex (to_hex s) = s"
proof (induction s)
  case (Cons c s)
  have "(of_char c :: nat) div 16 < 16" by (intro less_mult_imp_div_less) simp
  moreover have "(of_char c :: nat) div 16 * 16 + of_char c mod 16 = of_char c" by (rule div_mult_mod_eq)
  ultimately show ?case using Cons by (simp add: to_hex_def hex_value_digit)
qed (simp add: to_hex_def)

text \<open>
  What GCM promises: the tag has its full length, and opening what was sealed with the
  same key and IV gives the text back.
\<close>

definition gcm_ok :: "auth_env \<Rightarrow> bool" where
  "gcm_ok env \<longleftrightarrow> (\<forall>key iv pt ct tag. gcm_seal env key iv pt = (ct, tag) \<longrightarrow>
     length tag = TAG_BYTES \<and> gcm_open env key iv ct tag = Some pt)"

text \<open>The three parts are cut out of the buffer exactly where they were put.\<close>

lemma subarray_parts:
  assumes "length iv = IV_BYTES" and "length tag = TAG_BYTES" and "buf = iv @ ct @ tag"
  shows "subarray buf 0 (int IV_BYTES) = iv"
    and "subarray buf (int (length buf) - int TAG_BYTES) (int (length buf)) = tag"
    and "subarray buf (int IV_BYTES) (int (length buf) - int TAG_BYTES) = ct"
  using assms by (simp_all add: subarray_def clamp_def Let_def)

lemma randomBytes_run: "\<exists>iv v. length iv = n \<and> randomBytes n w = (Inr iv, v)"
  by (simp add: randomBytes_def random_string_def bindP_def ret_def)

lemma resolveKey_run: "resolveKey env w = (Inr key, w') \<Longrightarrow> resolveKey env v = (Inr key, v)"
  by (auto simp: resolveKey_def throw_def ret_def split: option.splits if_splits)

lemma encrypt_shape:
  assumes "encrypt env pt w = (Inr h, w')"
  shows "\<exists>key iv ct tag. (\<forall>v. resolveKey env v = (Inr key, v)) \<and> length iv = IV_BYTES
    \<and> gcm_seal env key iv pt = (ct, tag) \<and> h = to_hex (iv @ ct @ tag)"
proof -
  from assms obtain key w1 where key: "resolveKey env w = (Inr key, w1)"
    by (auto simp: encrypt_def bindP_def split: prod.splits sum.splits)
  obtain iv w2 where iv: "length iv = IV_BYTES" "randomBytes IV_BYTES w1 = (Inr iv, w2)"
    using randomBytes_run by blast
  obtain ct tag where st: "gcm_seal env key iv pt = (ct, tag)" by (cases "gcm_seal env key iv pt")
  have "h = to_hex (iv @ ct @ tag)"
    using assms by (simp add: encrypt_def bindP_def key iv(2) st ret_def)
  with resolveKey_run [OF key] iv(1) st show ?thesis by blast
qed

lemma decrypt_parts:
  assumes "\<forall>v. resolveKey env v = (Inr key, v)" and "length iv = IV_BYTES" and "length tag = TAG_BYTES"
    and "gcm_open env key iv ct tag = Some pt"
  shows "decrypt env (to_hex (iv @ ct @ tag)) v = (Inr pt, v)"
proof -
  note parts = subarray_parts [OF assms(2,3) refl, of ct]
  show ?thesis
    by (simp only: decrypt_def bindP_def assms(1) [rule_format] prod.case sum.case Let_def from_hex_to_hex
        parts assms(4) option.case ret_def)
qed

lemma decrypt_encrypt:
  assumes "encrypt env pt w = (Inr h, w')" and "gcm_ok env"
  shows "decrypt env h v = (Inr pt, v)"
proof -
  from encrypt_shape [OF assms(1)] obtain key iv ct tag where
    k: "\<forall>v. resolveKey env v = (Inr key, v)" "length iv = IV_BYTES"
    "gcm_seal env key iv pt = (ct, tag)" "h = to_hex (iv @ ct @ tag)" by blast
  from assms(2) k(3) have "length tag = TAG_BYTES" "gcm_open env key iv ct tag = Some pt"
    unfolding gcm_ok_def by blast+
  from decrypt_parts [OF k(1,2) this] k(4) show ?thesis by simp
qed

end
