(* ===== verification/Session_Service.thy ===== *)
theory Session_Service
  imports Auth_Repo Crypto_Service
begin

text \<open>
  \<open>auth/token-denylist.service.ts\<close>, \<open>auth/session.service.ts\<close> and
  \<open>auth/token-cleanup.service.ts\<close>: the Redis side of sessions. The denylist fails soft on a
  write and closed on a read; the rotation cache holds the encrypted pair issued for a
  rotated token for the grace period.
\<close>

section \<open>Denylist\<close>

definition denylist_key :: "string \<Rightarrow> string" where
  "denylist_key j = ''denylist:'' @ j"

definition denylist_failure :: "string \<Rightarrow> string \<Rightarrow> (world, unit) prog" where
  "denylist_failure operation j = audit_error DENYLIST_FAILURE
     \<lparr>ac_userId = None, ac_userAgent = None,
      ac_meta = [(''operation'', JStr operation), (''jti'', JStr j)]\<rparr>"

definition denylist_revoke :: "string \<Rightarrow> int \<Rightarrow> (world, unit) prog" where
  "denylist_revoke j expiresIn =
     catchP (redis_set_ex (denylist_key j) ''1'' expiresIn) (\<lambda>error. denylist_failure ''revoke'' j)"

definition isRevoked :: "string \<Rightarrow> (world, bool) prog" where
  "isRevoked j =
     catchP (bindP (redis_get (denylist_key j)) (\<lambda>result. ret (result \<noteq> None)))
       (\<lambda>error. thenP (denylist_failure ''isRevoked'' j)
         (throw (HttpExn ServiceUnavailableException
           ''Authentication service temporarily unavailable. Please try again.'')))"

section \<open>Rotation cache\<close>

definition rotationCacheKey :: "string \<Rightarrow> string" where
  "rotationCacheKey oldTokenHash = ''rcache:v1:'' @ oldTokenHash"

definition token_json :: "TokenPair \<Rightarrow> json" where
  "token_json tokens = JObj [(''accessToken'', JStr (accessToken tokens)), (''refreshToken'', JStr (refreshToken tokens))]"

text \<open>\<open>JSON.parse(plaintext) as TokenPair\<close>, for an object that has the two fields.\<close>

definition token_of_json :: "json \<Rightarrow> TokenPair option" where
  "token_of_json j = (case j of
     JObj fs \<Rightarrow> (case (payload_get fs ''accessToken'', payload_get fs ''refreshToken'') of
       (Some (JStr a), Some (JStr r)) \<Rightarrow> Some \<lparr>accessToken = a, refreshToken = r\<rparr> | _ \<Rightarrow> None)
   | _ \<Rightarrow> None)"

definition storeRotationCache :: "auth_env \<Rightarrow> string \<Rightarrow> TokenPair \<Rightarrow> (world, unit) prog" where
  "storeRotationCache env oldTokenHash tokens =
     (let key = rotationCacheKey oldTokenHash; ttl = REFRESH_TOKEN_GRACE_PERIOD_SECONDS in
      if ttl > 60 then ret ()
      else catchP
        (bindP (encrypt env (stringify (token_json tokens))) (\<lambda>encrypted. redis_set_ex key encrypted ttl))
        (\<lambda>error. ret ()))"

definition getRotationCache :: "auth_env \<Rightarrow> string \<Rightarrow> (world, TokenPair option) prog" where
  "getRotationCache env oldTokenHash =
     catchP
       (bindP (redis_get (rotationCacheKey oldTokenHash)) (\<lambda>cached.
        case cached of
          None \<Rightarrow> ret None
        | Some c \<Rightarrow>
            if c = [] then ret None
            else bindP (decrypt env c) (\<lambda>plaintext.
              case json_parse plaintext of
                None \<Rightarrow> throw (JsError ''SyntaxError'')
              | Some j \<Rightarrow> ret (token_of_json j))))
       (\<lambda>error. ret None)"

definition clearRotationCache :: "string \<Rightarrow> (world, unit) prog" where
  "clearRotationCache hash = catchP (redis_del (rotationCacheKey hash)) (\<lambda>error. ret ())"

section \<open>Sessions\<close>

definition findTokenWithGrace :: "string \<Rightarrow> (world, token_state) prog" where
  "findTokenWithGrace hash = findRefreshTokenWithGrace hash REFRESH_TOKEN_GRACE_PERIOD_SECONDS"

definition persistRefreshToken :: "auth_env \<Rightarrow> uuid \<Rightarrow> string \<Rightarrow> string option \<Rightarrow> (world, unit) prog" where
  "persistRefreshToken env userId rawToken userAgent =
     bindP (hashToken env rawToken) (\<lambda>hash.
     bindP (getRefreshExpiry env) (\<lambda>expires.
     bindP (createSessionAtomic userId hash expires (maxSessions env)) (\<lambda>(_, evictedSessionId).
     case evictedSessionId of
       None \<Rightarrow> ret ()
     | Some i \<Rightarrow> whenP (i \<noteq> []) (audit_warn SESSION_EVICTED
         \<lparr>ac_userId = Some userId, ac_userAgent = userAgent,
          ac_meta = [(''evictedSessionId'', JStr i)]\<rparr>))))"

definition rotateToken ::
  "auth_env \<Rightarrow> string \<Rightarrow> uuid \<Rightarrow> string \<Rightarrow> instant \<Rightarrow> TokenPair \<Rightarrow> (world, unit) prog" where
  "rotateToken env oldHash userId newHash expires tokens =
     thenP (rotateRefreshToken oldHash userId newHash expires)
       (storeRotationCache env oldHash tokens)"

definition revokeAccessToken :: "auth_env \<Rightarrow> string \<Rightarrow> (world, unit) prog" where
  "revokeAccessToken env j = bindP (getAccessTokenTtlSeconds env) (\<lambda>ttl. denylist_revoke j ttl)"

definition revokeToken :: "string \<Rightarrow> (world, unit) prog" where
  "revokeToken hash = thenP (revokeRefreshToken hash) (ret ())"

definition revokeAllTokens :: "uuid \<Rightarrow> (world, unit) prog" where
  "revokeAllTokens userId = thenP (revokeAllUserTokens userId) (ret ())"

section \<open>Scheduled clean-up\<close>

definition CLEANUP_LOCK_KEY :: string where
  "CLEANUP_LOCK_KEY = ''locks:token_cleanup''"

definition CLEANUP_LOCK_TTL_SECONDS :: int where
  "CLEANUP_LOCK_TTL_SECONDS = 10 * 60"

text \<open>
  The job as a run that may not end: the loop inside it is the only part that loops. Nothing in
  it throws in the model, where a reachable database does not fail, so the \<open>catch\<close> has no branch.
\<close>

definition cleanupExpiredTokens :: "nat \<Rightarrow> world \<Rightarrow> ((exn + unit) \<times> world) option" where
  "cleanupExpiredTokens batchSize w =
     (case redis_set_nx CLEANUP_LOCK_KEY ''1'' CLEANUP_LOCK_TTL_SECONDS w of
        (Inl e, w') \<Rightarrow> Some (Inl e, w')
      | (Inr acquired, w') \<Rightarrow>
          if \<not> acquired then Some (Inr (), w')
          else map_option (\<lambda>(deleted, w''). redis_del CLEANUP_LOCK_KEY w'')
            (deleteAllExpiredTokens batchSize w'))"

section \<open>Facts\<close>

text \<open>The denylist never stops a logout, and never lets an unreadable answer pass.\<close>

lemma denylist_revoke_returns: "\<exists>w'. denylist_revoke j ttl w = (Inr (), w')"
proof -
  have "wp (denylist_revoke j ttl) (\<lambda>_ _. True) (\<lambda>_ _. False) w"
    by (simp add: denylist_revoke_def denylist_failure_def redis_ops wp_simps)
  then show ?thesis by (auto simp: wp_def split: prod.splits sum.splits)
qed

lemma isRevoked_wp:
  "wp (isRevoked j) Q E w =
     (if redis_ok w (redis_calls w)
      then Q (redis_live w (denylist_key j) \<noteq> None) (w\<lparr>redis_calls := Suc (redis_calls w)\<rparr>)
      else E (HttpExn ServiceUnavailableException
           ''Authentication service temporarily unavailable. Please try again.'')
           (w\<lparr>redis_calls := Suc (redis_calls w),
              audits := audits w @ [serialize ErrorLevel DENYLIST_FAILURE (ctx w)
                \<lparr>ac_userId = None, ac_userAgent = None,
                 ac_meta = [(''operation'', JStr ''isRevoked''), (''jti'', JStr j)]\<rparr> (clock w)]\<rparr>))"
  by (simp add: isRevoked_def denylist_failure_def redis_ops wp_simps getContext_def)

text \<open>The pair survives the trip through JSON.\<close>

lemma token_json_roundtrip:
  "Option.bind (json_parse (stringify (token_json t))) token_of_json = Some t"
proof -
  have "token_json t = JObj (str_fields [(''accessToken'', accessToken t), (''refreshToken'', refreshToken t)])"
    by (simp add: token_json_def str_fields_def)
  moreover have "json_parse (stringify (JObj (str_fields [(''accessToken'', accessToken t), (''refreshToken'', refreshToken t)])))
      = Some (JObj (str_fields [(''accessToken'', accessToken t), (''refreshToken'', refreshToken t)]))"
    by (rule json_roundtrip_strings) simp_all
  ultimately show ?thesis
    by (simp add: token_of_json_def payload_get_def str_fields_def)
qed

end
