(* ===== verification/Auth_Service.thy ===== *)
theory Auth_Service
  imports Session_Service
begin

text \<open>
  \<open>auth/auth.service.ts\<close>, \<open>auth/strategies/jwt.strategy.ts\<close> and \<open>common/guards\<close>:
  registration, login, refresh, logout, the validation of an access token, and the role
  guard.
\<close>

section \<open>Inputs\<close>

record RegisterDto =
  rd_name :: string
  rd_email :: string
  rd_phone :: string
  rd_password :: string

record LoginDto =
  ld_email :: string
  ld_password :: string

definition normalizeEmail :: "string \<Rightarrow> string" where
  "normalizeEmail email = trim (toLowerCase email)"

text \<open>The \<open>@Transform\<close> of the two DTOs: what the service receives for the raw body.\<close>

definition RegisterDto_transform :: "RegisterDto \<Rightarrow> RegisterDto" where
  "RegisterDto_transform d = d\<lparr>rd_email := trim (toLowerCase (rd_email d))\<rparr>"

definition LoginDto_transform :: "LoginDto \<Rightarrow> LoginDto" where
  "LoginDto_transform d = d\<lparr>ld_email := trim (toLowerCase (ld_email d))\<rparr>"

definition DUMMY_HASH :: string where
  "DUMMY_HASH = ''$argon2id$v=19$m=65536,t=3,p=4$hlbOyIMZD2kSF2Zg2S12AQ$pZ32MvUaWfL9Qh3c87DX/lOFpPjzeT00a1fYJGAhWl8''"

definition user_audit :: "uuid \<Rightarrow> string option \<Rightarrow> audit_context" where
  "user_audit userId userAgent = \<lparr>ac_userId = Some userId, ac_userAgent = userAgent, ac_meta = []\<rparr>"

section \<open>Register and login\<close>

definition hash_password :: "auth_env \<Rightarrow> string \<Rightarrow> (world, string) prog" where
  "hash_password env password = bindP random_string (\<lambda>salt. ret (argon2_hash env salt password))"

definition register :: "auth_env \<Rightarrow> RegisterDto \<Rightarrow> string option \<Rightarrow> (world, TokenPair) prog" where
  "register env dto userAgent =
     bindP (hash_password env (rd_password dto)) (\<lambda>hashed.
     bindP (createUserWithWallet
       \<lparr>cu_name = rd_name dto, cu_email = rd_email dto, cu_phone = trim (rd_phone dto),
        cu_password = hashed\<rparr>) (\<lambda>user.
     bindP (generateTokenPair env (u_id user) (u_email user) (u_role user)) (\<lambda>tokens.
     thenP (persistRefreshToken env (u_id user) (refreshToken tokens) userAgent)
     (thenP (audit_log USER_REGISTERED (user_audit (u_id user) userAgent))
     (ret tokens)))))"

definition login :: "auth_env \<Rightarrow> LoginDto \<Rightarrow> string option \<Rightarrow> (world, TokenPair) prog" where
  "login env dto userAgent =
     bindP (findByEmail (normalizeEmail (ld_email dto))) (\<lambda>user.
     let passwordMatch = argon2_verify env
       (case user of None \<Rightarrow> DUMMY_HASH | Some u \<Rightarrow> u_password u) (ld_password dto) in
     case user of
       None \<Rightarrow> throw (HttpExn UnauthorizedException ''Invalid credentials'')
     | Some user \<Rightarrow>
         if \<not> passwordMatch then throw (HttpExn UnauthorizedException ''Invalid credentials'')
         else if u_status user \<noteq> ACTIVE
         then thenP (audit_warn LOGIN_BLOCKED_ACCOUNT (user_audit (u_id user) None))
           (throw (HttpExn UnauthorizedException ''Account is not active. Please contact support.''))
         else
           bindP (generateTokenPair env (u_id user) (u_email user) (u_role user)) (\<lambda>tokens.
           thenP (persistRefreshToken env (u_id user) (refreshToken tokens) userAgent)
           (thenP (audit_log USER_LOGIN (user_audit (u_id user) userAgent))
           (ret tokens))))"

section \<open>Refresh\<close>

definition refresh_reuse :: "string \<Rightarrow> refresh_token \<Rightarrow> string option \<Rightarrow> (world, TokenPair) prog" where
  "refresh_reuse hash token userAgent =
     thenP (revokeAllTokens (rt_userId token))
     (thenP (clearRotationCache hash)
     (thenP (audit_warn TOKEN_REUSE_DETECTED (user_audit (rt_userId token) userAgent))
     (throw (HttpExn UnauthorizedException ''Security breach detected. Please log in again.''))))"

definition refresh_grace :: "auth_env \<Rightarrow> string \<Rightarrow> refresh_token \<Rightarrow> string option \<Rightarrow> (world, TokenPair) prog" where
  "refresh_grace env hash token userAgent =
     bindP (getRotationCache env hash) (\<lambda>cached.
     case cached of
       Some tokens \<Rightarrow>
         thenP (audit_log GRACE_PERIOD_REPLAYED (user_audit (rt_userId token) userAgent)) (ret tokens)
     | None \<Rightarrow>
         thenP (clearRotationCache hash)
         (thenP (audit_warn GRACE_PERIOD_CACHE_MISS (user_audit (rt_userId token) userAgent))
         (throw (HttpExn UnauthorizedException ''Invalid token.''))))"

definition refresh_active :: "auth_env \<Rightarrow> string \<Rightarrow> refresh_token \<Rightarrow> string option \<Rightarrow> (world, TokenPair) prog" where
  "refresh_active env hash token userAgent =
     bindP (auth_findById (rt_userId token)) (\<lambda>user.
     case user of
       None \<Rightarrow> throw (HttpExn UnauthorizedException ''Unauthorized'')
     | Some user \<Rightarrow>
         if u_status user \<noteq> ACTIVE
         then thenP (audit_warn LOGIN_BLOCKED_ACCOUNT (user_audit (u_id user) None))
           (throw (HttpExn UnauthorizedException ''Account is not active. Please contact support.''))
         else
           bindP (generateTokenPair env (u_id user) (u_email user) (u_role user)) (\<lambda>tokens.
           bindP (hashToken env (refreshToken tokens)) (\<lambda>newHash.
           bindP (getRefreshExpiry env) (\<lambda>expires.
           thenP (rotateToken env hash (u_id user) newHash expires tokens)
           (thenP (audit_log TOKEN_REFRESHED (user_audit (u_id user) userAgent))
           (ret tokens))))))"

definition refresh :: "auth_env \<Rightarrow> string \<Rightarrow> string option \<Rightarrow> (world, TokenPair) prog" where
  "refresh env rawRefreshToken userAgent =
     bindP (hashToken env rawRefreshToken) (\<lambda>hash.
     bindP (findTokenWithGrace hash) (\<lambda>session.
     case session of
       NOT_FOUND \<Rightarrow> throw (HttpExn UnauthorizedException ''Invalid token.'')
     | EXPIRED token \<Rightarrow> throw (HttpExn UnauthorizedException ''Invalid token.'')
     | REUSE_DETECTED token \<Rightarrow> refresh_reuse hash token userAgent
     | GRACE_PERIOD token \<Rightarrow> refresh_grace env hash token userAgent
     | ACTIVE_TOKEN token \<Rightarrow> refresh_active env hash token userAgent))"

section \<open>Logout\<close>

definition logout_own :: "auth_env \<Rightarrow> string \<Rightarrow> uuid \<Rightarrow> string \<Rightarrow> refresh_token \<Rightarrow> bool \<Rightarrow> (world, unit) prog" where
  "logout_own env hash userId j token active =
     (if rt_userId token \<noteq> userId
      then thenP (audit_warn LOGOUT_IDENTITY_MISMATCH (user_audit userId None))
        (throw (HttpExn UnauthorizedException ''Identity Mismatch''))
      else
        thenP (clearRotationCache hash)
        (thenP (revokeAccessToken env j)
        (thenP (whenP active (revokeToken hash))
        (audit_log LOGOUT (user_audit userId None)))))"

definition logout :: "auth_env \<Rightarrow> string \<Rightarrow> uuid \<Rightarrow> string \<Rightarrow> string option \<Rightarrow> (world, unit) prog" where
  "logout env rawRefreshToken userId j userAgent =
     bindP (hashToken env rawRefreshToken) (\<lambda>hash.
     bindP (findTokenWithGrace hash) (\<lambda>result.
     case result of
       NOT_FOUND \<Rightarrow> ret ()
     | REUSE_DETECTED token \<Rightarrow>
         thenP (revokeAllTokens (rt_userId token))
           (audit_error TOKEN_REUSE_DETECTED (user_audit (rt_userId token) userAgent))
     | EXPIRED token \<Rightarrow> logout_own env hash userId j token False
     | GRACE_PERIOD token \<Rightarrow> logout_own env hash userId j token False
     | ACTIVE_TOKEN token \<Rightarrow> logout_own env hash userId j token True))"

definition logoutAll :: "auth_env \<Rightarrow> uuid \<Rightarrow> string \<Rightarrow> string option \<Rightarrow> (world, unit) prog" where
  "logoutAll env userId j userAgent =
     thenP (revokeAllTokens userId)
     (thenP (revokeAccessToken env j)
     (audit_log LOGOUT_ALL (user_audit userId userAgent)))"

section \<open>Access tokens\<close>

definition validate :: "jwt_payload \<Rightarrow> (world, jwt_payload) prog" where
  "validate p =
     bindP (isRevoked (jti p)) (\<lambda>revoked.
     if revoked then throw (HttpExn UnauthorizedException ''Token has been revoked'')
     else bindP (auth_findById (sub p)) (\<lambda>user.
       case user of
         None \<Rightarrow> throw (HttpExn UnauthorizedException ''User no longer exists'')
       | Some user \<Rightarrow>
           if u_status user \<noteq> ACTIVE then throw (HttpExn UnauthorizedException ''Account is not active.'')
           else ret \<lparr>sub = sub p, jp_email = jp_email p, jp_role = jp_role p, jti = jti p\<rparr>))"

text \<open>
  The guards: a route is public, or its bearer token must validate; then the roles the
  route asks for are compared with the role in the token. \<open>passport\<close> is the strategy's run
  on the token the library verified (\<open>None\<close> when it rejects the token).
\<close>

definition JwtAuthGuard :: "bool \<Rightarrow> jwt_payload option \<Rightarrow> (world, jwt_payload option) prog" where
  "JwtAuthGuard isPublic verified =
     (if isPublic then ret None
      else case verified of
        None \<Rightarrow> throw (HttpExn UnauthorizedException ''Unauthorized'')
      | Some p \<Rightarrow> bindP (validate p) (\<lambda>u. ret (Some u)))"

definition RolesGuard :: "role list option \<Rightarrow> jwt_payload option \<Rightarrow> bool" where
  "RolesGuard requiredRoles user = (case requiredRoles of
     None \<Rightarrow> True
   | Some [] \<Rightarrow> True
   | Some rs \<Rightarrow> list_ex (\<lambda>r. map_option jp_role user = Some r) rs)"

end
