(* ===== verification/Users_Service.thy ===== *)
theory Users_Service
  imports Auth_Service
begin

text \<open>
  \<open>user/users.service.ts\<close>: profile, password, closing an account, and the administrators'
  endpoints.
\<close>

section \<open>User-facing\<close>

definition getMe :: "uuid \<Rightarrow> (world, UserWithWallet) prog" where
  "getMe userId =
     bindP (users_findById userId) (\<lambda>user. case user of
       None \<Rightarrow> throw (HttpExn NotFoundException ''User not found'')
     | Some u \<Rightarrow> ret u)"

record UpdateProfileDto =
  pd_name :: "string option"
  pd_phone :: "string option"

text \<open>\<open>dto.name && {name: dto.name}\<close>: an empty string counts as absent.\<close>

definition if_truthy :: "string option \<Rightarrow> string option" where
  "if_truthy s = (if truthy s then s else None)"

definition updateProfile :: "uuid \<Rightarrow> UpdateProfileDto \<Rightarrow> (world, UserProfile) prog" where
  "updateProfile userId dto =
     (if \<not> truthy (pd_name dto) \<and> \<not> truthy (pd_phone dto)
      then throw (HttpExn BadRequestException ''At least one field (name or phone) must be provided'')
      else
        bindP (updateProfile_repo userId (if_truthy (pd_name dto)) (map_option trim (if_truthy (pd_phone dto))))
        (\<lambda>updated.
        thenP (audit_log USER_PROFILE_UPDATED (user_audit userId None)) (ret updated)))"

record ChangePasswordDto =
  currentPassword :: string
  newPassword :: string

definition changePassword :: "auth_env \<Rightarrow> uuid \<Rightarrow> string \<Rightarrow> ChangePasswordDto \<Rightarrow> (world, unit) prog" where
  "changePassword env userId j dto =
     bindP (findByIdWithPassword userId) (\<lambda>user.
     case user of
       None \<Rightarrow> throw (HttpExn NotFoundException ''User not found'')
     | Some (_, password) \<Rightarrow>
         if \<not> argon2_verify env password (currentPassword dto)
         then throw (HttpExn UnauthorizedException ''Current password is incorrect'')
         else if argon2_verify env password (newPassword dto)
         then throw (HttpExn BadRequestException ''New password must differ from current password'')
         else
           bindP (hash_password env (newPassword dto)) (\<lambda>hashed.
           thenP (updatePasswordAndRevokeSessions userId hashed)
           (bindP (getAccessTokenTtlSeconds env) (\<lambda>ttl.
           thenP (denylist_revoke j ttl)
           (audit_log USER_PASSWORD_CHANGED (user_audit userId None))))))"

definition closeAccount :: "auth_env \<Rightarrow> uuid \<Rightarrow> string \<Rightarrow> (world, unit) prog" where
  "closeAccount env userId j =
     bindP (users_findById userId) (\<lambda>user.
     case user of
       None \<Rightarrow> throw (HttpExn NotFoundException ''User not found'')
     | Some _ \<Rightarrow>
         thenP (closeAccount_repo userId)
         (bindP (getAccessTokenTtlSeconds env) (\<lambda>ttl.
         thenP (denylist_revoke j ttl)
         (audit_log USER_ACCOUNT_CLOSED (user_audit userId None)))))"

section \<open>Admin-facing\<close>

record UserQueryDto =
  uq_status :: "account_status option"
  uq_role :: "role option"
  uq_page :: int
  uq_limit :: int

record PaginatedUsersResult =
  pu_users :: "UserProfile list"
  pu_total :: int
  pu_page :: int
  pu_limit :: int
  pu_totalPages :: int

definition listUsers :: "UserQueryDto \<Rightarrow> (world, PaginatedUsersResult) prog" where
  "listUsers query =
     bindP (users_findAll \<lparr>uf_status = uq_status query, uf_role = uq_role query\<rparr> (uq_page query) (uq_limit query))
     (\<lambda>(us, n). ret \<lparr>pu_users = us, pu_total = n, pu_page = uq_page query, pu_limit = uq_limit query,
        pu_totalPages = - ((- n) div uq_limit query)\<rparr>)"

definition getUserById :: "uuid \<Rightarrow> (world, UserWithWallet) prog" where
  "getUserById i =
     bindP (users_findById i) (\<lambda>user. case user of
       None \<Rightarrow> throw (HttpExn NotFoundException ''User not found'')
     | Some u \<Rightarrow> ret u)"

record AdminUpdateUserDto =
  ad_status :: "account_status option"
  ad_role :: "role option"

definition opt_str :: "('a \<Rightarrow> string) \<Rightarrow> 'a option \<Rightarrow> json" where
  "opt_str f v = (case v of None \<Rightarrow> JNull | Some x \<Rightarrow> JStr (f x))"

definition updateUserStatus :: "uuid \<Rightarrow> uuid \<Rightarrow> AdminUpdateUserDto \<Rightarrow> (world, UserWithWallet option) prog" where
  "updateUserStatus requesterId targetId dto =
     (if ad_status dto = None \<and> ad_role dto = None
      then throw (HttpExn BadRequestException ''At least one field (status or role) must be provided'')
      else if requesterId = targetId
      then throw (HttpExn ForbiddenException ''Administrators cannot modify their own account via this endpoint'')
      else
        bindP (users_findById targetId) (\<lambda>target.
        case target of
          None \<Rightarrow> throw (HttpExn NotFoundException ''User not found'')
        | Some _ \<Rightarrow>
            thenP (if ad_status dto = Some CLOSED then closeAccount_repo targetId
                   else thenP (updateStatusOrRole targetId (ad_status dto) (ad_role dto)) (ret ()))
            (thenP (audit_warn ADMIN_USER_STATUS_UPDATED
               \<lparr>ac_userId = Some requesterId, ac_userAgent = None,
                ac_meta = [(''targetId'', JStr targetId), (''status'', opt_str status_str (ad_status dto)),
                  (''role'', opt_str role_str (ad_role dto))]\<rparr>)
            (users_findById targetId))))"

end
