(* ===== verification/System.thy ===== *)
theory System
  imports Processor Auth_Service Users_Service
begin

text \<open>
  The running system: several requests and several processor instances at once. A request
  is split where the code awaits between a read and the atomic block that follows it; what
  it read waits in a list of pending tasks while other requests commit. The section's
  theorems hold in every reachable state, so under every interleaving of the blocks.
\<close>

section \<open>Transactions persist\<close>

lemma tx_unique:
  assumes "books_ok d" and "s \<in> set (transactions d)" and "t \<in> set (transactions d)" and "tx_id s = tx_id t"
  shows "s = t"
proof -
  have "inj_on tx_id (set (transactions d))" using assms(1) by (simp add: books_ok_def distinct_map)
  with assms(2-4) show ?thesis by (meson inj_onD)
qed

text \<open>
  No operation deletes a transaction or changes its payment columns, and its status leaves
  \<open>INITIATED\<close> once, for \<open>SETTLED\<close> or \<open>FAILED\<close>.
\<close>

definition status_moves :: "transaction_status \<Rightarrow> transaction_status \<Rightarrow> bool" where
  "status_moves s s' \<longleftrightarrow> s' = s \<or> s = INITIATED \<and> (s' = SETTLED \<or> s' = FAILED)"

definition tx_kept :: "db \<Rightarrow> db \<Rightarrow> bool" where
  "tx_kept d d' \<longleftrightarrow> (\<forall>t \<in> set (transactions d). \<exists>t' \<in> set (transactions d').
     same_payment t t' \<and> status_moves (tx_status t) (tx_status t'))"

lemma tx_kept_refl [intro]: "transactions d' = transactions d \<Longrightarrow> tx_kept d d'"
  by (auto simp: tx_kept_def same_payment_def status_moves_def)

lemma tx_kept_trans: "tx_kept d d' \<Longrightarrow> tx_kept d' d'' \<Longrightarrow> tx_kept d d''"
  by (fastforce simp: tx_kept_def same_payment_def status_moves_def)

lemma context_in_kept: "context_in c d \<Longrightarrow> tx_kept d d' \<Longrightarrow> context_in c d'"
  by (fastforce simp: context_in_def list_ex_iff tx_kept_def context_of_def same_payment_def)

lemma posted_kept:
  assumes "posted t ls ev v w'" and "transactions (db v) = transactions (db w)"
  shows "tx_kept (db w) (db w')"
  using postedD(3) [OF assms(1)] assms(2) by (auto simp: tx_kept_def same_payment_def status_moves_def)

lemma resolved_kept:
  assumes ok: "books_ok (db w)" "context_in c (db w)" and c: "tc_type c \<noteq> TRANSFER"
    and st: "st = SETTLED \<or> st = FAILED" and r: "resolved st i da dl dp (tc_id c) w w'"
  shows "tx_kept (db w) (db w')"
  unfolding tx_kept_def
proof
  fix t assume t: "t \<in> set (transactions (db w))"
  moreover have "list_all2 (tx_resolved (tc_id c) st) (transactions (db w)) (transactions (db w'))"
    using r by (simp add: resolved_def)
  ultimately obtain t' where t': "t' \<in> set (transactions (db w'))" "tx_resolved (tc_id c) st t t'"
    by (metis in_set_conv_nth list_all2_conv_all_nth)
  have "tx_status t = INITIATED" if "tx_id t = tc_id c"
  proof -
    from ok(2) obtain s where s: "s \<in> set (transactions (db w))" "context_of c s"
      by (auto simp: context_in_def list_ex_iff)
    have "tx_id s = tx_id t" using s(2) that by (simp add: context_of_def)
    then have "s = t" by (rule tx_unique [OF ok(1) s(1) t])
    moreover have "\<not> logged (paymentLogs (db w)) (tc_id c)"
      using r by (auto simp: resolved_def logged_def list_ex_iff)
    ultimately show ?thesis
      using ok(1) t that s(2) c by (auto simp: books_ok_def log_ok_def context_of_def)
  qed
  with t' st show "\<exists>t' \<in> set (transactions (db w')).
      same_payment t t' \<and> status_moves (tx_status t) (tx_status t')"
    by (auto simp: tx_resolved_def same_payment_def status_moves_def split: if_splits)
qed

lemma block_kept:
  assumes "wp m Q (\<lambda>_ w'. db w' = db w) w" and "\<And>a w'. Q a w' \<Longrightarrow> tx_kept (db w) (db w')"
  shows "tx_kept (db w) (db (snd (m w)))"
  by (rule wp_keeps [OF assms(1), where I = "tx_kept (db w)"]) (use assms(2) in auto)

lemma blocks_kept:
  "tx_kept (db w) (db (snd (deposit_block u dto w)))"
  "tx_kept (db w) (db (snd (withdraw_block u dto w)))"
  "w_id sw \<noteq> w_id rw \<Longrightarrow> tx_kept (db w) (db (snd (transfer_block u tdto sw rw w)))"
  "tx_kept (db w) (db (snd (confirmDeposit_block u cdto w)))"
  "tx_kept (db w) (db (snd (createPayout_block u pdto w)))"
  by (rule block_kept, rule deposit_block_run withdraw_block_run transfer_block_run
        confirmDeposit_block_run createPayout_block_run; (assumption | auto elim!: posted_kept))+

lemma settle_kept:
  assumes "books_ok (db w)" and "context_in c (db w)"
  shows "tx_kept (db w) (db (snd (settle c ev r w)))"
  unfolding settle_def audit_log_def
  by (rule keeps_transaction [where I = "tx_kept (db w)"])
     (auto intro!: wlp_if wlp_throw wp_mono [OF settleDeposit_path_run] wp_mono [OF settleWithdrawal_path_run]
       elim!: resolved_kept [OF assms, rotated 2])

lemma fail_kept:
  assumes "books_ok (db w)" and "context_in c (db w)"
  shows "tx_kept (db w) (db (snd (fail c ev r w)))"
  unfolding fail_def audit_warn_def
  by (rule keeps_transaction [where I = "tx_kept (db w)"])
     (auto intro!: wlp_if wlp_throw wp_mono [OF failDeposit_path_run] wp_mono [OF failWithdrawal_path_run]
       elim!: resolved_kept [OF assms, rotated 2])

lemma same_books_kept: "same_books w w' \<Longrightarrow> tx_kept (db w) (db w')"
  by (auto simp: same_books_def)

lemma dispatch_kept:
  assumes "books_ok (db w)" and "context_in c (db w)"
  shows "tx_kept (db w) (db (snd (dispatch c e r w)))"
  using settle_kept [OF assms] fail_kept [OF assms] markDelivered_same_books
  by (auto simp: dispatch_def Let_def within_def intro: same_books_kept)

section \<open>A new user's wallet\<close>

lemma books_new_wallet:
  assumes ok: "books_ok d" and new: "w_id x \<notin> w_id ` set (wallets d)" "w_userId x \<notin> w_userId ` set (wallets d)"
    and zero: "availableBalance x = 0" "lockedBalance x = 0" "pendingBalance x = 0"
    and d': "wallets d' = wallets d @ [x]" "transactions d' = transactions d" "paymentLogs d' = paymentLogs d"
  shows "books_ok d'"
proof -
  have unlinked: "senderWalletId t \<noteq> Some (w_id x) \<and> receiverWalletId t \<noteq> Some (w_id x)"
    if "t \<in> set (transactions d)" for t
  proof -
    have "tx_linked (wallets d) t" using ok that by (simp add: books_ok_def)
    moreover have "w_id y \<noteq> w_id x" if "y \<in> set (wallets d)" for y
      using new(1) that by (metis imageI)
    ultimately show ?thesis
      by (auto simp: tx_linked_def wallet_in_def list_ex_iff split: option.splits)
  qed
  have none: "total f (transactions d) = 0" if "\<And>t. t \<in> set (transactions d) \<Longrightarrow> f t = 0" for f
    unfolding total_def using that by (simp add: map_eq_conv [THEN iffD2, of _ f "\<lambda>_. 0"])
  have "total (available_share (w_id x)) (transactions d) = 0"
    "total (locked_share (w_id x)) (transactions d) = 0" "total (pending_share (w_id x)) (transactions d) = 0"
    by (rule none, use unlinked in \<open>simp add: share_defs\<close>)+
  moreover have "tx_linked (wallets d') t" if "tx_linked (wallets d) t" for t
    using that by (auto simp: tx_linked_def wallet_in_def d' split: option.splits)
  ultimately show ?thesis
    using ok new zero by (auto simp: books_ok_def d' wallet_balanced_def has_transaction_def)
qed

lemma create_user_books:
  assumes "books_ok (db w)"
  shows "books_ok (db (snd (create_user_block dto w)))"
proof (rule wp_keeps [where I = books_ok and Q = "\<lambda>_ w'. books_ok (db w')"])
  show "wp (create_user_block dto) (\<lambda>_ w'. books_ok (db w')) (\<lambda>_ w'. db w' = db w) w"
    unfolding create_user_block_def wp_withTransaction_db
    apply (intro wlp_intros wp_partial_create)
    apply (simp add: users_t_def wallets_t_def new_user_def list_ex_iff split: if_splits)
    apply (rule books_new_wallet [OF assms])
    apply (auto simp: new_wallet_def)
    done
qed (use assms in auto)

lemma create_user_kept: "tx_kept (db w) (db (snd (create_user_block dto w)))"
proof (rule block_kept [where Q = "\<lambda>_ w'. transactions (db w') = transactions (db w)"])
  show "wp (create_user_block dto) (\<lambda>_ w'. transactions (db w') = transactions (db w)) (\<lambda>_ w'. db w' = db w) w"
    unfolding create_user_block_def wp_withTransaction_db
    by (intro wlp_intros wp_partial_create) (simp add: users_t_def wallets_t_def)
qed auto


section \<open>Tasks and steps\<close>

text \<open>
  What a request or a processor holds between its reads and its atomic block. A transfer
  holds the two wallet rows it read before its transaction began; a dispatch holds the
  context read before the provider was called, and the provider's result.
\<close>

datatype task =
    Deposit_task uuid DepositDto
  | Withdraw_task uuid DepositDto
  | Transfer_task uuid TransferDto wallet wallet
  | Confirm_task uuid ConfirmDepositDto
  | Payout_task uuid CreatePayoutDto
  | Dispatch_task TransactionContext uuid ProviderResult

fun run_task :: "task \<Rightarrow> world \<Rightarrow> world" where
  "run_task (Deposit_task u dto) w = snd (deposit_block u dto w)"
| "run_task (Withdraw_task u dto) w = snd (withdraw_block u dto w)"
| "run_task (Transfer_task u dto sw rw) w = snd (transfer_block u dto sw rw w)"
| "run_task (Confirm_task u dto) w = snd (confirmDeposit_block u dto w)"
| "run_task (Payout_task u dto) w = snd (createPayout_block u dto w)"
| "run_task (Dispatch_task c e r) w = snd (dispatch c e r w)"

text \<open>What the reads established, in terms that other commits cannot undo.\<close>

fun task_ok :: "db \<Rightarrow> task \<Rightarrow> bool" where
  "task_ok d (Deposit_task u dto) = (0 < amount dto)"
| "task_ok d (Withdraw_task u dto) = (0 < amount dto)"
| "task_ok d (Transfer_task u dto sw rw) = (0 < amount dto \<and> w_id sw \<noteq> w_id rw)"
| "task_ok d (Confirm_task u dto) = (0 < amount dto)"
| "task_ok d (Payout_task u dto) = (0 < amount dto)"
| "task_ok d (Dispatch_task c e r) = context_in c d"

type_synonym system = "world \<times> task list"

definition unused_key :: "string \<Rightarrow> world \<Rightarrow> bool" where
  "unused_key k w \<longleftrightarrow> find (\<lambda>t. idempotencyKey t = k) (transactions (db w)) = None"

text \<open>
  A step of the system: a request passes its idempotency check and its reads; a pending
  task commits, or is lost with its process; a processor reads a transaction and calls its
  provider; a user registers; or anything happens that touches neither wallets, nor
  transactions, nor ledger entries, nor payment logs (time, Redis, sessions, profiles, outbox
  marks).
\<close>

inductive step :: "registry \<Rightarrow> system \<Rightarrow> system \<Rightarrow> bool" for reg where
  deposit_request: "MoneyDto_valid (amount dto) \<Longrightarrow> unused_key (dto_idempotencyKey dto) w \<Longrightarrow>
    step reg (w, ts) (w, Deposit_task u dto # ts)"
| withdraw_request: "MoneyDto_valid (amount dto) \<Longrightarrow> unused_key (dto_idempotencyKey dto) w \<Longrightarrow>
    step reg (w, ts) (w, Withdraw_task u dto # ts)"
| transfer_request: "MoneyDto_valid (amount dto) \<Longrightarrow> unused_key (dto_idempotencyKey dto) w \<Longrightarrow>
    u \<noteq> recipientUserId dto \<Longrightarrow>
    find (\<lambda>x. w_userId x = u) (wallets (db w)) = Some sw \<Longrightarrow>
    find (\<lambda>x. w_userId x = recipientUserId dto) (wallets (db w)) = Some rw \<Longrightarrow>
    step reg (w, ts) (w, Transfer_task u dto sw rw # ts)"
| confirm_request: "MoneyDto_valid (amount dto) \<Longrightarrow> unused_key (dto_idempotencyKey dto) w \<Longrightarrow>
    step reg (w, ts) (w, Confirm_task u dto # ts)"
| payout_request: "MoneyDto_valid (amount dto) \<Longrightarrow> unused_key (dto_idempotencyKey dto) w \<Longrightarrow>
    step reg (w, ts) (w, Payout_task u dto # ts)"
| provider_call: "t \<in> set (transactions (db w)) \<Longrightarrow> tx_provider t = Some p \<Longrightarrow> reg p = Some a \<Longrightarrow>
    process a q (tx_type t) w = (Inr r, w') \<Longrightarrow>
    step reg (w, ts) (w', Dispatch_task (transaction_context u t) e r # ts)"
| commit: "step reg (w, ts @ k # us) (run_task k w, ts @ us)"
| crash: "step reg (w, ts @ k # us) (w, ts @ us)"
| registration: "step reg (w, ts) (snd (create_user_block d w), ts)"
| elsewhere: "same_books w w' \<Longrightarrow> step reg (w, ts) (w', ts)"

inductive reachable :: "registry \<Rightarrow> system \<Rightarrow> bool" for reg where
  start: "db w = empty_db \<Longrightarrow> reachable reg (w, [])"
| more: "reachable reg s \<Longrightarrow> step reg s s' \<Longrightarrow> reachable reg s'"

inductive_cases stepE: "step reg (w, ts) s'"

definition sys_ok :: "system \<Rightarrow> bool" where
  "sys_ok s \<longleftrightarrow> books_ok (db (fst s)) \<and> list_all (task_ok (db (fst s))) (snd s)"

lemma task_ok_kept: "task_ok d k \<Longrightarrow> tx_kept d d' \<Longrightarrow> task_ok d' k"
  by (cases k) (auto intro: context_in_kept)

lemma run_task_ok:
  assumes "books_ok (db w)" and "task_ok (db w) k"
  shows "books_ok (db (run_task k w))" "tx_kept (db w) (db (run_task k w))"
  using assms
  by (cases k; auto simp: deposit_block_books withdraw_block_books transfer_block_books
    confirmDeposit_block_books createPayout_block_books dispatch_books dispatch_kept blocks_kept)+

lemma tasks_ok_kept: "list_all (task_ok d) ts \<Longrightarrow> tx_kept d d' \<Longrightarrow> list_all (task_ok d') ts"
  by (auto simp: list_all_iff intro: task_ok_kept)


lemma wallets_of_two_users:
  assumes "books_ok d" and "u \<noteq> v"
    and "find (\<lambda>x. w_userId x = u) (wallets d) = Some sw"
    and "find (\<lambda>x. w_userId x = v) (wallets d) = Some rw"
  shows "w_id sw \<noteq> w_id rw"
proof
  assume "w_id sw = w_id rw"
  moreover have "sw \<in> set (wallets d)" "rw \<in> set (wallets d)" "w_userId sw = u" "w_userId rw = v"
    using assms(3,4) by (auto dest: find_Some_iff_hd)
  moreover have "inj_on w_id (set (wallets d))" using assms(1) by (simp add: books_ok_def distinct_map)
  ultimately have "sw = rw" by (meson inj_onD)
  with \<open>w_userId sw = u\<close> \<open>w_userId rw = v\<close> assms(2) show False by simp
qed

lemma process_same_db:
  assumes "adapters_ok reg" and "reg p = Some a" and "process a q ty w = (Inr r, w')"
  shows "db w' = db w"
  using calmD [OF adapter_calm [OF assms(1,2)], of q ty w] assms(3) by auto

lemma same_books_ok: "same_books w w' \<Longrightarrow> books_ok (db w) \<Longrightarrow> books_ok (db w')"
  using same_books_keeps by (auto simp: keeps_rel_def)

lemma step_ok:
  assumes "step reg s s'" and reg: "adapters_ok reg" and "sys_ok s"
  shows "sys_ok s' \<and> tx_kept (db (fst s)) (db (fst s'))"
  using assms(1,3)
proof (induction rule: step.induct)
  case (transfer_request dto w u sw rw ts)
  then show ?case
    using wallets_of_two_users [of "db w" u "recipientUserId dto" sw rw]
    by (auto simp: sys_ok_def MoneyDto_valid_def)
next
  case (provider_call t w p a q r w' ts u e)
  then have "db w' = db w" using process_same_db [OF reg] by blast
  moreover have "context_in (transaction_context u t) (db w)"
    using provider_call transaction_context_of [of u t] by (auto simp: context_in_def list_ex_iff)
  ultimately show ?case using provider_call.prems by (auto simp: sys_ok_def)
next
  case (commit w ts k us)
  then have "books_ok (db w)" "task_ok (db w) k" "list_all (task_ok (db w)) (ts @ us)"
    by (simp_all add: sys_ok_def)
  with run_task_ok [OF this(1,2)] show ?case
    by (simp add: sys_ok_def tasks_ok_kept del: list_all_append)
next
  case (registration w ts d)
  then show ?case
    using tasks_ok_kept [OF _ create_user_kept] by (auto simp: sys_ok_def create_user_books create_user_kept)
next
  case (elsewhere w w' ts)
  then show ?case
    using tasks_ok_kept [OF _ same_books_kept] by (auto simp: sys_ok_def same_books_ok same_books_kept)
qed (auto simp: sys_ok_def MoneyDto_valid_def)

lemma reachable_sys_ok:
  assumes "reachable reg s" and "adapters_ok reg"
  shows "sys_ok s"
  using assms by (induction rule: reachable.induct) (auto simp: sys_ok_def books_empty dest: step_ok)

section \<open>Funds\<close>

text \<open>The money in all wallets of a currency, and what each transaction brought in.\<close>

definition funds :: "currency \<Rightarrow> wallet list \<Rightarrow> decimal" where
  "funds c ws = (\<Sum>x \<leftarrow> filter (\<lambda>x. w_currency x = c) ws.
     availableBalance x + lockedBalance x + pendingBalance x)"

definition net_in :: "currency \<Rightarrow> transaction \<Rightarrow> decimal" where
  "net_in c t = (if tx_currency t \<noteq> c then 0
     else if tx_type t = DEPOSIT \<and> tx_status t \<noteq> FAILED then tx_amount t
     else if tx_type t = WITHDRAWAL \<and> tx_status t = SETTLED then - tx_amount t else 0)"

lemma sum_list_swap: "(\<Sum>x \<leftarrow> xs. \<Sum>y \<leftarrow> ys. f x y) = (\<Sum>y \<leftarrow> ys. \<Sum>x \<leftarrow> xs. (f x y :: int))"
  by (induction xs) (simp_all add: sum_list_addf)

lemma sum_one_wallet:
  assumes "distinct (map w_id ws)" and "wallet_in ws c (Some i)"
  shows "(\<Sum>x \<leftarrow> filter (\<lambda>x. w_currency x = c') ws. if i = w_id x then a else 0)
    = (if c = c' then a else 0 :: int)"
  using assms
proof (induction ws)
  case Nil
  then show ?case by (simp add: wallet_in_def)
next
  case (Cons y ws)
  show ?case
  proof (cases "w_id y = i")
    case True
    with Cons.prems have no: "i \<noteq> w_id x" if "x \<in> set ws" for x using that by auto
    then have "(\<Sum>x \<leftarrow> filter (\<lambda>x. w_currency x = c') ws. if i = w_id x then a else 0) = 0"
      by (induction ws) auto
    moreover from Cons.prems(2) have "w_currency y = c \<or> (\<exists>x \<in> set ws. w_id x = i)"
      by (auto simp: wallet_in_def list_ex_iff)
    then have "w_currency y = c" using no by blast
    ultimately show ?thesis using True by auto
  next
    case False
    then have "wallet_in ws c (Some i)" using Cons.prems by (simp add: wallet_in_def)
    with Cons False show ?thesis by simp
  qed
qed


text \<open>A transaction's shares over the wallets of a currency add up to what it brought in.\<close>

lemma shares_net:
  assumes "distinct (map w_id ws)" and "tx_ok t" and "tx_linked ws t"
  shows "(\<Sum>x \<leftarrow> filter (\<lambda>x. w_currency x = c) ws.
      available_share (w_id x) t + locked_share (w_id x) t + pending_share (w_id x) t) = net_in c t"
proof -
  let ?ws = "filter (\<lambda>x. w_currency x = c) ws"
  let ?r = "if tx_type t = TRANSFER \<or> tx_type t = DEPOSIT \<and> tx_status t \<noteq> FAILED then tx_amount t else 0"
  let ?s = "if tx_type t = TRANSFER \<or> tx_type t = WITHDRAWAL \<and> tx_status t = SETTLED then - tx_amount t else 0"
  let ?one = "\<lambda>i a. \<Sum>x \<leftarrow> ?ws. (case i of None \<Rightarrow> 0 | Some j \<Rightarrow> if j = w_id x then a else 0)"
  have one: "?one i a = (if i = None then 0 else if tx_currency t = c then a else 0)"
    if "wallet_in ws (tx_currency t) i" for i and a :: int
    using sum_one_wallet [OF assms(1), where c = "tx_currency t" and i = "the i" and c' = c and a = a] that by (cases i) simp_all
  have "(\<Sum>x \<leftarrow> ?ws. available_share (w_id x) t + locked_share (w_id x) t + pending_share (w_id x) t)
      = ?one (receiverWalletId t) ?r + ?one (senderWalletId t) ?s"
    unfolding sum_list_addf [symmetric]
    by (rule arg_cong [where f = sum_list], rule map_cong [OF refl])
       (use assms(2) in \<open>cases "tx_type t"; auto simp: share_defs tx_ok_def split: option.splits\<close>)
  also have "\<dots> = net_in c t"
    using assms(2,3) by (cases "tx_type t") (auto simp: one tx_linked_def net_in_def tx_ok_def)
  finally show ?thesis .
qed

text \<open>Conservation: the wallets of a currency hold what the transactions brought in.\<close>

lemma books_funds:
  assumes "books_ok d"
  shows "funds c (wallets d) = total (net_in c) (transactions d)"
proof -
  let ?ws = "filter (\<lambda>x. w_currency x = c) (wallets d)"
  have bal: "availableBalance x + lockedBalance x + pendingBalance x = (\<Sum>t \<leftarrow> transactions d.
      available_share (w_id x) t + locked_share (w_id x) t + pending_share (w_id x) t)" if "x \<in> set ?ws" for x
    using assms that by (simp add: books_ok_def wallet_balanced_def total_def sum_list_addf)
  have "funds c (wallets d) = (\<Sum>x \<leftarrow> ?ws. \<Sum>t \<leftarrow> transactions d.
      available_share (w_id x) t + locked_share (w_id x) t + pending_share (w_id x) t)"
    unfolding funds_def by (rule arg_cong [where f = sum_list], rule map_cong [OF refl bal])
  also have "\<dots> = (\<Sum>t \<leftarrow> transactions d. \<Sum>x \<leftarrow> ?ws.
      available_share (w_id x) t + locked_share (w_id x) t + pending_share (w_id x) t)"
    by (rule sum_list_swap)
  also have "\<dots> = (\<Sum>t \<leftarrow> transactions d. net_in c t)"
    by (rule arg_cong [where f = sum_list], rule map_cong [OF refl])
       (use assms in \<open>auto simp: books_ok_def intro: shares_net\<close>)
  finally show ?thesis by (simp add: total_def)
qed

end
