(* ===== verification/Endpoints.thy ===== *)
theory Endpoints
  imports Payment_Service
begin

text \<open>
  The contract the five money endpoints share: a request carries an idempotency key; a key
  that is already used replays the stored transaction, and only an unused key runs the
  atomic block. The unique column decides a race: when two requests with the same key both
  passed the check, the second block throws and changes nothing.
\<close>

section \<open>The contract\<close>

definition key_used :: "string \<Rightarrow> db \<Rightarrow> bool" where
  "key_used k d = list_ex (\<lambda>t. idempotencyKey t = k) (transactions d)"

lemma key_used_find: "find (\<lambda>t. idempotencyKey t = k) (transactions d) = None \<longleftrightarrow> \<not> key_used k d"
  by (auto simp: key_used_def list_ex_iff find_None_iff_all)

locale idempotent_endpoint =
  fixes endpoint :: "(world, 'r) prog"
    and guard :: bool
    and key :: string
    and block :: "(world, transaction) prog"
    and replay :: "transaction \<Rightarrow> 'r"
    and finish :: "transaction \<Rightarrow> (world, 'r) prog"
  assumes rejects: "\<not> guard \<Longrightarrow> \<exists>e. endpoint w = (Inl e, w)"
    and replays: "guard \<Longrightarrow> find (\<lambda>t. idempotencyKey t = key) (transactions (db w)) = Some t \<Longrightarrow>
      \<exists>w'. endpoint w = (Inr (replay t), w') \<and> db w' = db w"
    and first: "guard \<Longrightarrow> find (\<lambda>t. idempotencyKey t = key) (transactions (db w)) = None \<Longrightarrow>
      endpoint w = bindP block finish w"
    and block_run: "wp block (\<lambda>t w'. \<not> key_used key (db w) \<and> idempotencyKey t = key
        \<and> transactions (db w') = transactions (db w) @ [t]) (\<lambda>_ w'. db w' = db w) w"
    and finishes: "\<exists>r w'. finish t w = (Inr r, w') \<and> db w' = db w"
begin

lemma block_used:
  assumes "key_used key (db w)"
  shows "\<exists>e w'. block w = (Inl e, w') \<and> db w' = db w"
proof -
  obtain r w' where run: "block w = (r, w')" by (cases "block w")
  with block_run [of w] assms show ?thesis by (cases r) (auto simp: wp_def)
qed

text \<open>What a call does to the database: nothing, or one new transaction under its own key.\<close>

lemma effect:
  "wp endpoint (\<lambda>_ w'. db w' = db w \<or> (\<exists>t. \<not> key_used key (db w) \<and> idempotencyKey t = key
       \<and> transactions (db w') = transactions (db w) @ [t])) (\<lambda>_ w'. db w' = db w) w"
proof (cases guard)
  case False
  with rejects [of w] show ?thesis by (auto simp: wp_def)
next
  case True
  show ?thesis
  proof (cases "find (\<lambda>t. idempotencyKey t = key) (transactions (db w))")
    case (Some t)
    with replays [OF True Some] show ?thesis by (auto simp: wp_def)
  next
    case None
    have "wp (bindP block finish) (\<lambda>_ w'. \<exists>t. \<not> key_used key (db w) \<and> idempotencyKey t = key
       \<and> transactions (db w') = transactions (db w) @ [t]) (\<lambda>_ w'. db w' = db w) w"
      unfolding wp_bindP
    proof (rule wp_mono [OF block_run])
      fix t and w' :: world
      assume "\<not> key_used key (db w) \<and> idempotencyKey t = key \<and> transactions (db w') = transactions (db w) @ [t]"
      with finishes [of t w'] show "wp (finish t) (\<lambda>_ w'. \<exists>t. \<not> key_used key (db w) \<and> idempotencyKey t = key
       \<and> transactions (db w') = transactions (db w) @ [t]) (\<lambda>_ w'. db w' = db w) w'"
        by (auto simp: wp_def)
    qed
    then show ?thesis unfolding wp_def first [OF True None] by (auto split: prod.splits sum.splits)
  qed
qed

lemma throws_nothing: "endpoint w = (Inl e, w') \<Longrightarrow> db w' = db w"
  using effect [of w] by (simp add: wp_def)

lemma one_transaction:
  assumes "endpoint w = (r, w')" and "db w' \<noteq> db w"
  shows "\<not> key_used key (db w) \<and> key_used key (db w')
    \<and> length (transactions (db w')) = Suc (length (transactions (db w)))"
  using effect [of w] assms by (cases r) (auto simp: wp_def key_used_def)

text \<open>After a call that returned, a repetition changes nothing, whatever happened between.\<close>

lemma used_replays:
  assumes "guard" and "key_used key (db w)"
  shows "\<exists>t w'. t \<in> set (transactions (db w)) \<and> idempotencyKey t = key
    \<and> endpoint w = (Inr (replay t), w') \<and> db w' = db w"
proof -
  from assms(2) obtain t where t: "find (\<lambda>t. idempotencyKey t = key) (transactions (db w)) = Some t"
    by (cases "find (\<lambda>t. idempotencyKey t = key) (transactions (db w))") (auto simp: key_used_find)
  with replays [OF assms(1) t] find_Some_iff_hd [OF t] show ?thesis by blast
qed

lemma returned_used:
  assumes "endpoint w = (Inr r, w')"
  shows "key_used key (db w')"
proof (cases "key_used key (db w)")
  case True
  then show ?thesis using effect [of w] assms by (auto simp: wp_def key_used_def)
next
  case False
  then have none: "find (\<lambda>t. idempotencyKey t = key) (transactions (db w)) = None" by (simp add: key_used_find)
  have guard using rejects [of w] assms by auto
  from first [OF this none] assms obtain t v where b: "block w = (Inr t, v)" "finish t v = (Inr r, w')"
    by (auto simp: bindP_def split: prod.splits sum.splits)
  then have "key_used key (db v)" using block_run [of w] by (auto simp: wp_def key_used_def)
  with finishes [of t v] b show ?thesis by auto
qed

end

section \<open>The five endpoints\<close>

lemma replay_same_db: "\<exists>w'. idempotent_replay u k t w = (Inr (), w') \<and> db w' = db w"
  by (simp add: idempotent_replay_def audit_log_def audit_emit_def modP_def)

lemma audit_then_ret: "\<exists>w'. thenP (audit_log ev x) (ret r) w = (Inr r, w') \<and> db w' = db w"
  by (simp add: audit_log_def audit_emit_def modP_def thenP_def bindP_def ret_def)

lemma replay_then_ret: "\<exists>w'. thenP (idempotent_replay u k t) (ret r) w = (Inr r, w') \<and> db w' = db w"
  unfolding idempotent_replay_def by (rule audit_then_ret)

lemma find_key_bind:
  "bindP (findByIdempotencyKey k) f w = f (find (\<lambda>t. idempotencyKey t = k) (transactions (db w))) w"
  by (simp add: findByIdempotencyKey_def t_find_def getP_def bindP_def transactions_t_def)

lemma posted_new:
  assumes "posted t ls ev v w'" and "transactions (db v) = transactions (db w)"
  shows "\<not> key_used (idempotencyKey t) (db w) \<and> transactions (db w') = transactions (db w) @ [t]"
  using postedD(1,3) [OF assms(1)] assms(2) by (auto simp: fresh_row_def key_used_def list_ex_iff)

definition created :: "transaction \<Rightarrow> MutationResult" where
  "created t = \<lparr>mr_data = toResult t, mr_replayed = False\<rparr>"

definition replayed :: "transaction \<Rightarrow> MutationResult" where
  "replayed t = \<lparr>mr_data = toResult t, mr_replayed = True\<rparr>"

text \<open>The audit line a successful request ends with, for each endpoint.\<close>

definition money_audit :: "audit_event \<Rightarrow> uuid \<Rightarrow> payload \<Rightarrow> transaction \<Rightarrow> 'r \<Rightarrow> (world, 'r) prog" where
  "money_audit ev userId extra t r = thenP (audit_log ev
     \<lparr>ac_userId = Some userId, ac_userAgent = None,
      ac_meta = (''transactionId'', JStr (tx_id t)) # extra\<rparr>) (ret r)"

lemma money_audit_finishes: "\<exists>r' w'. money_audit ev u fs t r w = (Inr r', w') \<and> db w' = db w"
  unfolding money_audit_def by (rule exI, rule audit_then_ret)

lemma simple_endpoint:
  assumes "endpoint = bindP (findByIdempotencyKey key) (\<lambda>e. case e of
      Some t \<Rightarrow> thenP (idempotent_replay u k t) (ret (replay t))
    | None \<Rightarrow> bindP block finish)"
    and "\<And>w. wp block (\<lambda>t w'. \<not> key_used key (db w) \<and> idempotencyKey t = key
        \<and> transactions (db w') = transactions (db w) @ [t]) (\<lambda>_ w'. db w' = db w) w"
    and "\<And>t w. \<exists>r w'. finish t w = (Inr r, w') \<and> db w' = db w"
  shows "idempotent_endpoint endpoint True key block replay finish"
  using assms(2,3) by unfold_locales (auto simp: assms(1) find_key_bind replay_then_ret)

lemma deposit_block_new:
  "wp (deposit_block u dto) (\<lambda>t w'. \<not> key_used (dto_idempotencyKey dto) (db w)
     \<and> idempotencyKey t = dto_idempotencyKey dto
     \<and> transactions (db w') = transactions (db w) @ [t]) (\<lambda>_ w'. db w' = db w) w"
  by (rule wp_mono [OF deposit_block_run]) (auto dest!: posted_new [where w = w])

lemma withdraw_block_new:
  "wp (withdraw_block u dto) (\<lambda>t w'. \<not> key_used (dto_idempotencyKey dto) (db w)
     \<and> idempotencyKey t = dto_idempotencyKey dto
     \<and> transactions (db w') = transactions (db w) @ [t]) (\<lambda>_ w'. db w' = db w) w"
  by (rule wp_mono [OF withdraw_block_run]) (auto dest!: posted_new [where w = w])

lemma confirmDeposit_block_new:
  "wp (confirmDeposit_block u dto) (\<lambda>t w'. \<not> key_used (dto_idempotencyKey dto) (db w)
     \<and> idempotencyKey t = dto_idempotencyKey dto
     \<and> transactions (db w') = transactions (db w) @ [t]) (\<lambda>_ w'. db w' = db w) w"
  by (rule wp_mono [OF confirmDeposit_block_run]) (auto dest!: posted_new [where w = w])

lemma createPayout_block_new:
  "wp (createPayout_block u dto) (\<lambda>t w'. \<not> key_used (dto_idempotencyKey dto) (db w)
     \<and> idempotencyKey t = dto_idempotencyKey dto
     \<and> transactions (db w') = transactions (db w) @ [t]) (\<lambda>_ w'. db w' = db w) w"
  by (rule wp_mono [OF createPayout_block_run]) (auto dest!: posted_new [where w = w])

interpretation deposit: idempotent_endpoint "deposit u dto" True "dto_idempotencyKey dto"
  "deposit_block u dto" replayed
  "\<lambda>t. money_audit DEPOSIT_INITIATED u [(''amount'', JDec (amount dto)),
     (''currency'', JStr (currency_str (dto_currency dto)))] t (created t)"
  for u dto
  by (rule simple_endpoint [OF _ deposit_block_new money_audit_finishes])
     (simp add: deposit_def replayed_def created_def money_audit_def cong: option.case_cong)

interpretation withdraw: idempotent_endpoint "withdraw u dto" True "dto_idempotencyKey dto"
  "withdraw_block u dto" replayed
  "\<lambda>t. money_audit WITHDRAWAL_INITIATED u [(''amount'', JDec (amount dto)),
     (''currency'', JStr (currency_str (dto_currency dto)))] t (created t)"
  for u dto
  by (rule simple_endpoint [OF _ withdraw_block_new money_audit_finishes])
     (simp add: withdraw_def replayed_def created_def money_audit_def cong: option.case_cong)

interpretation confirmDeposit: idempotent_endpoint "confirmDeposit_service u dto" True
  "dto_idempotencyKey dto" "confirmDeposit_block u dto" payment_result
  "\<lambda>t. money_audit DEPOSIT_INITIATED u [(''amount'', JDec (amount dto)),
     (''currency'', JStr (currency_str (dto_currency dto))),
     (''provider'', JStr (provider_str (cd_provider dto)))] t (payment_result t)"
  for u dto
  by (rule simple_endpoint [OF _ confirmDeposit_block_new money_audit_finishes])
     (simp add: confirmDeposit_service_def money_audit_def cong: option.case_cong)

interpretation createPayout: idempotent_endpoint "createPayout_service u dto" True
  "dto_idempotencyKey dto" "createPayout_block u dto" payment_result
  "\<lambda>t. money_audit WITHDRAWAL_INITIATED u [(''amount'', JDec (amount dto)),
     (''currency'', JStr (currency_str (dto_currency dto))),
     (''provider'', JStr (provider_str (cp_provider dto)))] t (payment_result t)"
  for u dto
  by (rule simple_endpoint [OF _ createPayout_block_new money_audit_finishes])
     (simp add: createPayout_service_def money_audit_def cong: option.case_cong)


section \<open>Transfers\<close>

text \<open>The part of a transfer after its idempotency check: the two reads and the block.\<close>

definition transfer_attempt :: "uuid \<Rightarrow> TransferDto \<Rightarrow> (world, transaction) prog" where
  "transfer_attempt userId dto =
     bindP (findByUserId userId) (\<lambda>senderWallet.
     bindP (findByUserId (recipientUserId dto)) (\<lambda>receiverWallet.
     case senderWallet of
       None \<Rightarrow> throw (HttpExn ForbiddenException ''Sender wallet not found'')
     | Some senderWallet \<Rightarrow> (case receiverWallet of
         None \<Rightarrow> throw (HttpExn ForbiddenException ''Recipient wallet not found'')
       | Some receiverWallet \<Rightarrow> transfer_block userId dto senderWallet receiverWallet)))"

lemma transfer_block_new:
  "wp (transfer_block u dto sw rw) (\<lambda>t w'. \<not> key_used (dto_idempotencyKey dto) (db w)
     \<and> idempotencyKey t = dto_idempotencyKey dto
     \<and> transactions (db w') = transactions (db w) @ [t]) (\<lambda>_ w'. db w' = db w) w"
proof -
  obtain i j where ij: "lock_order (w_id sw) (w_id rw) = (i, j)" by (cases "lock_order (w_id sw) (w_id rw)")
  have *: "\<not> key_used (dto_idempotencyKey dto) (db w) \<and> idempotencyKey t = dto_idempotencyKey dto
      \<and> transactions (db w') = transactions (db w) @ [t]"
    if "posted t ls ev v w'" "transactions (db v) = transactions (db w)" "idempotencyKey t = dto_idempotencyKey dto"
    for t ls ev v w'
    using posted_new [OF that(1,2)] that(3) by auto
  show ?thesis
    unfolding transfer_block_def wp_withTransaction_db ij
    apply (simp only: Let_def prod.case)
    apply (intro wlp_intros executeTransfer_run)
    apply (rule *)
      apply assumption
     apply (simp_all add: new_transaction_def)
    done
qed

lemma transfer_attempt_new:
  "wp (transfer_attempt u dto) (\<lambda>t w'. \<not> key_used (dto_idempotencyKey dto) (db w)
     \<and> idempotencyKey t = dto_idempotencyKey dto
     \<and> transactions (db w') = transactions (db w) @ [t]) (\<lambda>_ w'. db w' = db w) w"
  by (simp add: transfer_attempt_def wp_simps transfer_block_new split: option.splits)

lemma transfer_attempt_bind:
  "bindP (transfer_attempt u dto) g = bindP (findByUserId u) (\<lambda>s. bindP (findByUserId (recipientUserId dto)) (\<lambda>r.
     case s of
       None \<Rightarrow> throw (HttpExn ForbiddenException ''Sender wallet not found'')
     | Some s \<Rightarrow> (case r of
         None \<Rightarrow> throw (HttpExn ForbiddenException ''Recipient wallet not found'')
       | Some r \<Rightarrow> bindP (transfer_block u dto s r) g)))"
  by (rule ext) (simp add: transfer_attempt_def bindP_def throw_def split: prod.splits sum.splits option.splits)

interpretation transfer: idempotent_endpoint "transfer u dto" "u \<noteq> recipientUserId dto"
  "dto_idempotencyKey dto" "transfer_attempt u dto" replayed
  "\<lambda>t. money_audit TRANSFER_SETTLED u [(''recipientUserId'', JStr (recipientUserId dto)),
     (''amount'', JDec (amount dto)), (''currency'', JStr (currency_str (dto_currency dto)))] t (created t)"
  for u dto
proof
  fix w
  show "wp (transfer_attempt u dto) (\<lambda>t w'. \<not> key_used (dto_idempotencyKey dto) (db w)
     \<and> idempotencyKey t = dto_idempotencyKey dto
     \<and> transactions (db w') = transactions (db w) @ [t]) (\<lambda>_ w'. db w' = db w) w"
    by (rule transfer_attempt_new)
next
  fix t w
  show "\<exists>r w'. money_audit TRANSFER_SETTLED u [(''recipientUserId'', JStr (recipientUserId dto)),
     (''amount'', JDec (amount dto)), (''currency'', JStr (currency_str (dto_currency dto)))] t (created t) w
     = (Inr r, w') \<and> db w' = db w"
    by (rule money_audit_finishes)
qed (auto simp: transfer_def find_key_bind replay_then_ret replayed_def
      throw_def transfer_attempt_bind money_audit_def created_def cong: option.case_cong)

end
