(* ===== verification/Simulation.thy ===== *)
theory Simulation
  imports System Endpoints
begin

text \<open>
  The service methods refine the system of \<open>System\<close>: whatever world a method starts in,
  what it does is a sequence of steps of the system, so an invariant of the steps is an
  invariant of every program built from the services.
\<close>

section \<open>Runs\<close>

definition runs :: "registry \<Rightarrow> world \<Rightarrow> world \<Rightarrow> bool" where
  "runs reg w w' \<longleftrightarrow> (\<forall>ts. (step reg)\<^sup>*\<^sup>* (w, ts) (w', ts))"

interpretation runs: effect_order "runs reg" for reg
  by unfold_locales (auto simp: runs_def intro: rtranclp_trans)

lemma runs_step: "(\<And>ts. step reg (w, ts) (w', ts)) \<Longrightarrow> runs reg w w'"
  by (auto simp: runs_def)

lemma runs_elsewhere: "same_books w w' \<Longrightarrow> runs reg w w'"
  by (rule runs_step) (rule step.elsewhere)

lemma runs_task:
  assumes "\<And>ts. step reg (w, ts) (v, k # ts)" and "w' = run_task k v"
  shows "runs reg w w'"
  unfolding runs_def
proof
  fix ts
  have "step reg (v, [] @ k # ts) (run_task k v, [] @ ts)" by (rule step.commit)
  then have "step reg (v, k # ts) (w', ts)" by (simp add: assms(2))
  with assms(1) show "(step reg)\<^sup>*\<^sup>* (w, ts) (w', ts)" by (meson r_into_rtranclp rtranclp.rtrancl_into_rtrancl)
qed

lemma within_runs_books: "within same_books m \<Longrightarrow> within (runs reg) m"
  by (rule within_weaken [OF _ runs_elsewhere])

section \<open>The money endpoints\<close>

lemma audit_same_books:
  "within same_books (audit_log ev m)" "within same_books (audit_warn ev m)" "within same_books (audit_error ev m)"
  by (auto intro!: within_wpI simp: wp_simps same_books_def)

lemma same_db_books: "within same_db m \<Longrightarrow> within same_books m"
  by (erule within_weaken) (simp add: same_db_def same_books_def)

text \<open>An endpoint whose block is a task that a request with an unused key may start.\<close>

lemma endpoint_runs:
  assumes "idempotent_endpoint endpoint guard key block replay finish"
    and "\<And>w. guard \<Longrightarrow> unused_key key w \<Longrightarrow> runs reg w (snd (block w))"
  shows "within (runs reg) endpoint"
proof (rule within_returnsD)
  note ep = idempotent_endpoint.rejects [OF assms(1)] idempotent_endpoint.replays [OF assms(1)]
    idempotent_endpoint.first [OF assms(1)] idempotent_endpoint.finishes [OF assms(1)]
  fix w :: world
  have same: "runs reg v v'" if "db v' = db v" for v v'
    using that by (intro runs_elsewhere) (simp add: same_books_def)
  show "runs reg w (snd (endpoint w))"
  proof (cases guard)
    case False
    with ep(1) [of w] show ?thesis by (auto intro: same)
  next
    case True
    show ?thesis
    proof (cases "find (\<lambda>t. idempotencyKey t = key) (transactions (db w))")
      case (Some t)
      with ep(2) [OF True Some] show ?thesis by (auto intro: same)
    next
      case None
      then have b: "runs reg w (snd (block w))" using assms(2) True by (simp add: unused_key_def)
      obtain r v where run: "block w = (r, v)" by (cases "block w")
      show ?thesis
      proof (cases r)
        case (Inl e)
        with b run ep(3) [OF True None] show ?thesis by (simp add: bindP_def)
      next
        case (Inr t)
        from ep(4) [of t v] obtain r' w' where "finish t v = (Inr r', w')" "db w' = db v" by blast
        with Inr b run ep(3) [OF True None] show ?thesis
          using runs.R_trans [OF b] by (simp add: bindP_def same)
      qed
    qed
  qed
qed

lemma deposit_runs:
  assumes "MoneyDto_valid (amount dto)"
  shows "within (runs reg) (deposit u dto)"
  by (rule endpoint_runs [OF deposit.idempotent_endpoint_axioms])
     (rule runs_task, rule step.deposit_request [OF assms], simp_all)

lemma withdraw_runs:
  assumes "MoneyDto_valid (amount dto)"
  shows "within (runs reg) (withdraw u dto)"
  by (rule endpoint_runs [OF withdraw.idempotent_endpoint_axioms])
     (rule runs_task, rule step.withdraw_request [OF assms], simp_all)

lemma confirmDeposit_runs:
  assumes "MoneyDto_valid (amount dto)"
  shows "within (runs reg) (confirmDeposit_service u dto)"
  by (rule endpoint_runs [OF confirmDeposit.idempotent_endpoint_axioms])
     (rule runs_task, rule step.confirm_request [OF assms], simp_all)

lemma createPayout_runs:
  assumes "MoneyDto_valid (amount dto)"
  shows "within (runs reg) (createPayout_service u dto)"
  by (rule endpoint_runs [OF createPayout.idempotent_endpoint_axioms])
     (rule runs_task, rule step.payout_request [OF assms], simp_all)

lemma transfer_attempt_runs:
  assumes "MoneyDto_valid (amount dto)" and "u \<noteq> recipientUserId dto" and "unused_key (dto_idempotencyKey dto) w"
  shows "runs reg w (snd (transfer_attempt u dto w))"
proof -
  let ?s = "find (\<lambda>x. w_userId x = u) (wallets (db w))"
  let ?r = "find (\<lambda>x. w_userId x = recipientUserId dto) (wallets (db w))"
  have read: "bindP (findByUserId v) f w = f (find (\<lambda>x. w_userId x = v) (wallets (db w))) w" for v and f :: "wallet option \<Rightarrow> (world, transaction) prog"
    by (simp add: findByUserId_def t_find_def getP_def bindP_def wallets_t_def)
  show ?thesis
  proof (cases "?s = None \<or> ?r = None")
    case True
    then show ?thesis
      by (auto simp: transfer_attempt_def read throw_def runs.R_refl split: option.splits)
  next
    case False
    then obtain sw rw where w: "?s = Some sw" "?r = Some rw" by auto
    then have "snd (transfer_attempt u dto w) = run_task (Transfer_task u dto sw rw) w"
      by (simp add: transfer_attempt_def read)
    with step.transfer_request [OF assms(1,3,2) w] show ?thesis by (intro runs_task)
  qed
qed

lemma transfer_runs:
  assumes "MoneyDto_valid (amount dto)"
  shows "within (runs reg) (transfer u dto)"
  by (rule endpoint_runs [OF transfer.idempotent_endpoint_axioms]) (rule transfer_attempt_runs [OF assms])


section \<open>The processor\<close>

lemma call_provider_runs:
  assumes reg: "adapters_ok reg" and t: "t \<in> set (transactions (db w))" "tx_provider t = Some p"
  shows "runs reg w (snd (call_provider reg e u p t w))"
proof (cases "reg p")
  case None
  then show ?thesis
    by (simp add: call_provider_def resolve_def bindP_def throw_def Let_def runs.R_refl)
next
  case (Some a)
  from calmD [OF adapter_calm [OF reg Some], of "oe_payload e" "tx_type t" w]
  obtain r w' where run: "process a (oe_payload e) (tx_type t) w = (Inr r, w')" by blast
  have "snd (call_provider reg e u p t w) = run_task (Dispatch_task (transaction_context u t) (oe_id e) r) w'"
    by (simp add: call_provider_def resolve_def bindP_def ret_def Let_def Some run)
  moreover have "step reg (w, ts) (w', Dispatch_task (transaction_context u t) (oe_id e) r # ts)" for ts
    by (rule step.provider_call [where p = p and a = a]) (use t Some run in simp_all)
  ultimately show ?thesis by (intro runs_task)
qed

lemma processEvent_runs:
  assumes "adapters_ok reg"
  shows "within (runs reg) (processEvent reg e)"
proof -
  note inc = within_runs_books [OF incrementRetry_same_books, of reg "oe_id e"]
  have look: "within (runs reg) (bindP (findTransactionById i) (\<lambda>x. case x of
      None \<Rightarrow> incrementRetry (oe_id e)
    | Some t \<Rightarrow> (case tx_provider t of None \<Rightarrow> incrementRetry (oe_id e)
        | Some p \<Rightarrow> call_provider reg e u p t)))" for i u
  proof (rule within_wpI)
    fix w
    show "wp (bindP (findTransactionById i) (\<lambda>x. case x of
        None \<Rightarrow> incrementRetry (oe_id e)
      | Some t \<Rightarrow> (case tx_provider t of None \<Rightarrow> incrementRetry (oe_id e)
          | Some p \<Rightarrow> call_provider reg e u p t))) (\<lambda>_. runs reg w) (\<lambda>_. runs reg w) w"
    proof (cases "find (\<lambda>t. tx_id t = i) (transactions (db w))")
      case None
      with inc show ?thesis by (simp add: wp_simps wp_withinI)
    next
      case (Some t)
      then have "t \<in> set (transactions (db w))" by (auto dest: find_Some_iff_hd)
      then have "runs reg w (snd (call_provider reg e u p t w))" if "tx_provider t = Some p" for p
        using that by (rule call_provider_runs [OF assms])
      with inc show ?thesis
        unfolding wp_bindP wp_findTransactionById Some option.case
        by (cases "tx_provider t") (simp_all add: within_def wp_same)
    qed
  qed
  have "within (runs reg) (processEvent_body reg e)"
    unfolding processEvent_body_def using inc look
    by (auto split: option.splits json.splits)
  then show ?thesis
    unfolding processEvent_def by (intro runs.within_catchP inc)
qed

lemma redis_same_books: "within same_books (redis_call f)"
  by (rule within_wpI) (simp add: wp_simps same_books_def)

lemma processOutbox_runs:
  assumes "adapters_ok reg"
  shows "within (runs reg) (processOutbox reg)"
  unfolding processOutbox_def processBatch_def findPendingProviderEvents_def t_filter_def redis_ops
  by (intro runs.within_intros within_runs_books [OF redis_same_books] processEvent_runs [OF assms])

section \<open>Registration\<close>

lemma create_user_runs: "within (runs reg) (create_user_block d)"
  by (rule within_returnsD, rule runs_step, rule step.registration)

lemma createUserWithWallet_runs: "within (runs reg) (createUserWithWallet d)"
  unfolding createUserWithWallet_def
  by (intro runs.within_catchP create_user_runs) (auto intro: runs.within_throw split: exn.splits)

section \<open>Invariants of runs\<close>

lemma steps_ok:
  assumes "(step reg)\<^sup>*\<^sup>* s s'" and "adapters_ok reg" and "sys_ok s"
  shows "sys_ok s' \<and> tx_kept (db (fst s)) (db (fst s'))"
  using assms
proof (induction rule: rtranclp_induct)
  case base
  then show ?case by auto
next
  case (step s' s'')
  then show ?case using step_ok [OF step.hyps(2)] by (auto intro: tx_kept_trans)
qed

text \<open>A method built from runs keeps the books and every transaction.\<close>

lemma runs_books:
  assumes "within (runs reg) m" and "adapters_ok reg" and "books_ok (db w)"
  shows "books_ok (db (snd (m w))) \<and> tx_kept (db w) (db (snd (m w)))"
proof -
  have "(step reg)\<^sup>*\<^sup>* (w, []) (snd (m w), [])" using assms(1) by (simp add: within_def runs_def)
  from steps_ok [OF this assms(2)] assms(3) show ?thesis by (simp add: sys_ok_def)
qed

section \<open>Sessions and accounts\<close>

text \<open>Everything else the services write leaves wallets, transactions, ledger entries and payment logs alone.\<close>

lemma write_same_books:
  assumes "\<And>rs d. wallets (t_put T rs d) = wallets d \<and> transactions (t_put T rs d) = transactions d
    \<and> ledgerEntries (t_put T rs d) = ledgerEntries d \<and> paymentLogs (t_put T rs d) = paymentLogs d"
  shows "within same_books (t_create T mk)" "within same_books (t_update T P f)"
    "within same_books (t_updateMany T P f)"
  by (rule within_wpI, use assms in \<open>simp add: wp_simps Let_def same_books_def split: option.splits\<close>)+

lemma user_writes_same_books:
  "within same_books (t_create users_t mk)" "within same_books (t_update users_t P f)"
  "within same_books (t_updateMany users_t P f)"
  "within same_books (t_create refreshTokens_t mk')" "within same_books (t_update refreshTokens_t P' f')"
  "within same_books (t_updateMany refreshTokens_t P' f')"
  by (rule write_same_books, simp add: users_t_def refreshTokens_t_def)+

lemma read_same_books:
  "within same_books (t_find T P)" "within same_books (t_filter T P)" "within same_books (t_count T P)"
  by (simp_all add: t_find_def t_filter_def t_count_def sbooks.within_getP)

lemma transaction_same_books: "within same_books m \<Longrightarrow> within same_books (withTransaction m)"
  by (erule within_withTransaction) (simp add: same_books_def)


lemma random_string_frame: "within same_books random_string"
  by (rule within_wpI) (simp add: random_string_def wp_def same_books_def)

lemma randomBytes_frame: "within same_books (randomBytes n)"
  unfolding randomBytes_def by (intro sbooks.within_intros random_string_frame)

lemmas random_same_books = random_string_frame randomBytes_frame

lemma pure_same_books:
  "within same_books (resolveHashSecret env)" "within same_books (parseExpiry s)"
  "within same_books (resolveKey env)"
  unfolding resolveHashSecret_def parseExpiry_def resolveKey_def
  by (auto intro: sbooks.within_intros split: option.splits)

lemmas frame_intros = sbooks.within_intros user_writes_same_books read_same_books
  transaction_same_books audit_same_books redis_same_books now_same_books random_same_books pure_same_books

text \<open>Token helpers, sessions, then the endpoints: each is framed by the ones below it.\<close>

lemma token_frames:
  "within same_books (hashToken env t)" "within same_books (getRefreshExpiry env)"
  "within same_books (getAccessTokenTtlSeconds env)" "within same_books (generateTokenPair env u m r)"
  "within same_books (hash_password env p)" "within same_books (encrypt env x)" "within same_books (decrypt env y)"
  unfolding hashToken_def getRefreshExpiry_def getAccessTokenTtlSeconds_def generateTokenPair_def
    generateAccessToken_def generateRefreshToken_def hash_password_def encrypt_def decrypt_def
  by (intro frame_intros | simp add: case_prod_beta)+

lemma cache_frames:
  "within same_books (denylist_revoke j n)" "within same_books (isRevoked j)"
  "within same_books (storeRotationCache env h t)" "within same_books (getRotationCache env h)"
  "within same_books (clearRotationCache h)"
  unfolding denylist_revoke_def isRevoked_def storeRotationCache_def getRotationCache_def
    clearRotationCache_def denylist_failure_def redis_ops Let_def
  by (intro frame_intros token_frames)+

lemma find_user_frame: "within same_books (find_user i)"
  unfolding find_user_def by (intro frame_intros)

lemma revokeActive_frame: "within same_books (revokeActive u)"
  unfolding revokeActive_def by (intro frame_intros)

lemma session_frames:
  "within same_books (findTokenWithGrace h)" "within same_books (persistRefreshToken env u t a)"
  "within same_books (rotateToken env h u h' x tp)" "within same_books (revokeAccessToken env j)"
  "within same_books (revokeToken h)" "within same_books (revokeAllTokens u)"
  unfolding findTokenWithGrace_def findRefreshTokenWithGrace_def persistRefreshToken_def
    createSessionAtomic_def evict_oldest_def rotateToken_def rotateRefreshToken_def
    revokeAccessToken_def revokeToken_def revokeRefreshToken_def revokeAllTokens_def revokeAllUserTokens_def
    case_prod_beta
  by (intro frame_intros token_frames cache_frames revokeActive_frame)+

lemma auth_frames:
  "within same_books (login env dto ua)" "within same_books (refresh env raw ua)"
  "within same_books (logout env raw u j ua)" "within same_books (logoutAll env u j ua)"
  "within same_books (validate p)"
  unfolding login_def refresh_def refresh_reuse_def refresh_grace_def refresh_active_def logout_def
    logout_own_def logoutAll_def validate_def findByEmail_def auth_findById_def Let_def
  by (intro frame_intros token_frames cache_frames session_frames find_user_frame
      | split token_state.split; intro allI impI conjI)+

lemma lookup_frames:
  "within same_books (findByUserId u)" "within same_books (users_findById u)"
  "within same_books (findByIdWithPassword u)"
  unfolding users_findById_def findByIdWithPassword_def findByUserId_def
  by (intro frame_intros find_user_frame)+

lemma account_repo_frames:
  "within same_books (updateProfile_repo u n p)" "within same_books (updatePasswordAndRevokeSessions u h)"
  "within same_books (updateStatusOrRole u st r)" "within same_books (closeAccount_repo u)"
  unfolding updateProfile_repo_def updatePasswordAndRevokeSessions_def updateStatusOrRole_def
    closeAccount_defs
  by (intro frame_intros revokeActive_frame | (split exn.split; intro allI impI conjI))+

lemma account_frames:
  "within same_books (updateProfile u pd)" "within same_books (changePassword env u j cd)"
  "within same_books (closeAccount env u j)" "within same_books (updateUserStatus a u ad)"
  unfolding updateProfile_def changePassword_def closeAccount_def updateUserStatus_def case_prod_beta
  by (intro frame_intros token_frames cache_frames lookup_frames account_repo_frames)+


lemma register_runs: "within (runs reg) (register env dto ua)"
  unfolding register_def
  by (intro runs.within_intros createUserWithWallet_runs)
     (rule within_runs_books, rule token_frames session_frames audit_same_books)+


section \<open>Reachability\<close>

lemma reachable_steps: "reachable reg s \<Longrightarrow> (step reg)\<^sup>*\<^sup>* s s' \<Longrightarrow> reachable reg s'"
  by (rotate_tac, induction rule: rtranclp_induct) (auto intro: reachable.more)

lemma reachable_runs: "reachable reg (w, ts) \<Longrightarrow> within (runs reg) m \<Longrightarrow> reachable reg (snd (m w), ts)"
  by (auto simp: within_def runs_def intro: reachable_steps)

end
