(* ===== verification/Demo.thy ===== *)
theory Demo
  imports Simulation
begin

text \<open>
  A small concrete history on which the properties are instantiated: two users register,
  one deposits through a Braintree gateway that accepts the sale, the processor settles
  it, and part of it is transferred.
\<close>

definition demo_start :: world where
  "demo_start = \<lparr>db = empty_db, redis = (\<lambda>_. None), redis_ok = (\<lambda>_. True), redis_calls = 0,
     clock = 1000000, uuids = (\<lambda>n. ''id'' @ nat_str n), uuid_next = 0, audits = [], wire = [],
     paypalToken = None, ctx = None, decimal_text = number_str\<rparr>"

lemma demo_start_simps [simp]:
  "db demo_start = empty_db" "redis demo_start = (\<lambda>_. None)" "redis_ok demo_start = (\<lambda>_. True)"
  "redis_calls demo_start = 0" "clock demo_start = 1000000" "uuids demo_start = (\<lambda>n. ''id'' @ nat_str n)"
  "uuid_next demo_start = 0" "audits demo_start = []" "wire demo_start = []" "paypalToken demo_start = None"
  "ctx demo_start = None" "decimal_text demo_start = number_str"
  by (simp_all add: demo_start_def)

lemma empty_db_simps [simp]:
  "users empty_db = []" "refreshTokens empty_db = []" "wallets empty_db = []" "transactions empty_db = []"
  "ledgerEntries empty_db = []" "paymentLogs empty_db = []" "outboxEvents empty_db = []"
  by (simp_all add: empty_db_def)

lemma digit_small [simp]:
  "digit 0 = CHR ''0''"
  "digit (Suc 0) = CHR ''1''"
  "digit 2 = CHR ''2''"
  "digit 3 = CHR ''3''"
  "digit 4 = CHR ''4''"
  "digit 5 = CHR ''5''"
  "digit 6 = CHR ''6''"
  "digit 7 = CHR ''7''"
  "digit 8 = CHR ''8''"
  "digit 9 = CHR ''9''"
  by code_simp+

lemma nat_str_small [simp]:
  "nat_str (0) = ''0''"
  "nat_str (Suc 0) = ''1''"
  "nat_str (Suc (Suc 0)) = ''2''"
  "nat_str (Suc (Suc (Suc 0))) = ''3''"
  "nat_str (Suc (Suc (Suc (Suc 0)))) = ''4''"
  "nat_str (Suc (Suc (Suc (Suc (Suc 0))))) = ''5''"
  "nat_str (Suc (Suc (Suc (Suc (Suc (Suc 0)))))) = ''6''"
  "nat_str (Suc (Suc (Suc (Suc (Suc (Suc (Suc 0))))))) = ''7''"
  "nat_str (Suc (Suc (Suc (Suc (Suc (Suc (Suc (Suc 0)))))))) = ''8''"
  "nat_str (Suc (Suc (Suc (Suc (Suc (Suc (Suc (Suc (Suc 0))))))))) = ''9''"
  "nat_str (Suc (Suc (Suc (Suc (Suc (Suc (Suc (Suc (Suc (Suc 0)))))))))) = ''10''"
  "nat_str (Suc (Suc (Suc (Suc (Suc (Suc (Suc (Suc (Suc (Suc (Suc 0))))))))))) = ''11''"
  "nat_str (Suc (Suc (Suc (Suc (Suc (Suc (Suc (Suc (Suc (Suc (Suc (Suc 0)))))))))))) = ''12''"
  "nat_str 2 = ''2''"
  "nat_str 3 = ''3''"
  "nat_str 4 = ''4''"
  "nat_str 5 = ''5''"
  "nat_str 6 = ''6''"
  "nat_str 7 = ''7''"
  "nat_str 8 = ''8''"
  "nat_str 9 = ''9''"
  "nat_str 10 = ''10''"
  "nat_str 11 = ''11''"
  "nat_str 12 = ''12''"
  by code_simp+

text \<open>Running a method on a concrete world: the combinators and the table operations unfold.\<close>

lemmas run_defs = thenP_def bindP_def catchP_def finallyP_def ret_def throw_def getP_def modP_def whenP_def
  withTransaction_def t_create_def t_update_def t_updateMany_def t_find_def t_filter_def t_count_def
  now_def redis_call_def redis_ops redis_live_def table_defs has_user_def has_wallet_def
  has_transaction_def decimal_fits_def Let_def audit_log_def audit_warn_def audit_error_def audit_emit_def

lemmas money_run_defs = run_defs findByUserId_def findByIdempotencyKey_def findTransactionById_def
  lockWallet_def lock_row_def decimal_toString_def mutation_defs assertActive_def assertCurrencyMatch_def
  assertSufficientBalance_def transaction_create_def ledgerEntry_create_def outboxEvent_create_def
  new_transaction_def new_ledgerEntry_def new_outboxEvent_def wallet_payload_def

definition demo_sale :: "braintree_result gateway" where
  "demo_sale w p = Inr \<lparr>br_success = True, br_message = None, br_transaction = Some
     \<lparr>bt_id = ''sale1'', bt_status = ''submitted_for_settlement'', bt_amount = ''100'',
      bt_currencyIsoCode = ''USD'', bt_paymentInstrumentType = ''paypal_account'', bt_customerId = None\<rparr>\<rparr>"

definition demo_down :: "'a gateway" where
  "demo_down w p = Inl (JsError ''gateway down'')"

definition demo_registry :: registry where
  "demo_registry = payment_registry
     (StripeProvider \<lparr>paymentIntents_create = demo_down, paymentIntents_retrieve = demo_down,
        payouts_create = demo_down\<rparr> (\<lambda>_. 0))
     (PaypalProvider \<lparr>clientToken_generate = demo_down, transaction_sale = demo_sale\<rparr>
        demo_down demo_down \<lparr>pc_clientId = None, pc_clientSecret = None, pc_environment = ''sandbox''\<rparr>)"

lemma demo_registry_ok: "adapters_ok demo_registry"
  unfolding demo_registry_def by (rule payment_registry_ok)

definition demo_user :: "string \<Rightarrow> CreateUserInput" where
  "demo_user n = \<lparr>cu_name = n, cu_email = n @ ''@x.y'', cu_phone = n, cu_password = n\<rparr>"

definition ann :: user where
  "ann = new_user (demo_user ''ann'') ''id0'' 1000000"

definition bob :: user where
  "bob = new_user (demo_user ''bob'') ''id2'' 1000000"

definition demo_wallet :: "uuid \<Rightarrow> uuid \<Rightarrow> decimal \<Rightarrow> decimal \<Rightarrow> decimal \<Rightarrow> wallet" where
  "demo_wallet u i a l p = \<lparr>w_id = i, w_userId = u, w_currency = USD, w_status = ACTIVE,
     availableBalance = a, lockedBalance = l, pendingBalance = p,
     w_createdAt = 1000000, w_updatedAt = 1000000\<rparr>"

definition demo_registered :: world where
  "demo_registered = demo_start\<lparr>uuid_next := 4, db := empty_db\<lparr>users := [ann, bob],
     wallets := [demo_wallet ''id0'' ''id1'' 0 0 0, demo_wallet ''id2'' ''id3'' 0 0 0]\<rparr>\<rparr>"

lemma demo_registered_run:
  "snd (thenP (create_user_block (demo_user ''ann'')) (create_user_block (demo_user ''bob'')) demo_start)
     = demo_registered"
  by (simp add: demo_registered_def create_user_block_def run_defs new_user_def new_wallet_def
     demo_user_def ann_def bob_def demo_wallet_def)

definition demo_confirm :: ConfirmDepositDto where
  "demo_confirm = \<lparr>amount = 1000000, dto_currency = USD, dto_idempotencyKey = ''k1'', description = None,
     cd_provider = PAYPAL, paymentIntentId = None, nonce = Some ''n'', cd_braintreeCustomerId = None\<rparr>"

definition demo_deposit :: "transaction_status \<Rightarrow> string option \<Rightarrow> instant option \<Rightarrow> transaction" where
  "demo_deposit st ref settled = \<lparr>tx_id = ''id4'', idempotencyKey = ''k1'', tx_type = DEPOSIT,
     tx_status = st, tx_amount = 1000000, tx_currency = USD, tx_description = None,
     senderWalletId = None, receiverWalletId = Some ''id1'', tx_provider = Some PAYPAL,
     tx_providerRef = ref, tx_createdAt = 1000000, tx_updatedAt = 1000000, settledAt = settled\<rparr>"

definition demo_event :: "instant option \<Rightarrow> outbox_event" where
  "demo_event delivered = \<lparr>oe_id = ''id5'', oe_transactionId = ''id4'', eventType = ''DEPOSIT_INITIATED'',
     oe_payload = [(''walletId'', JStr ''id1''), (''userId'', JStr ''id0''), (''amount'', JStr ''100''),
       (''currency'', JStr ''USD''), (''nonce'', JStr ''n'')],
     deliveredAt = delivered, retryCount = 0, oe_createdAt = 1000000\<rparr>"

definition demo_pending_db :: db where
  "demo_pending_db = empty_db\<lparr>users := [ann, bob],
     wallets := [demo_wallet ''id0'' ''id1'' 0 0 1000000, demo_wallet ''id2'' ''id3'' 0 0 0],
     transactions := [demo_deposit INITIATED None None], outboxEvents := [demo_event None]\<rparr>"

definition demo_pending :: world where
  "demo_pending = demo_registered\<lparr>uuid_next := 6, db := demo_pending_db\<rparr>"

lemma dec_hundred [simp]: "number_str 1000000 = ''100''" "number_str 400000 = ''40''"
  by (simp_all add: number_str_def sign_str_def frac4_def strip_zeros_def Let_def nat_str.simps)

lemma demo_pending_run:
  "confirmDeposit_block ''id0'' demo_confirm demo_registered = (Inr (demo_deposit INITIATED None None), demo_pending)"
  by (simp add: demo_pending_def demo_pending_db_def demo_registered_def
    confirmDeposit_block_def money_run_defs demo_confirm_def demo_deposit_def demo_event_def
    demo_wallet_def confirm_payload_def truthy_field_def opt_field_def truthy_def)

definition demo_result :: ProviderResult where
  "demo_result = \<lparr>pr_success = True, requiresWebhook = None, pr_providerRef = Some ''sale1'',
     pr_errorMessage = None, rawResponse = [(''id'', JStr ''sale1''),
       (''status'', JStr ''submitted_for_settlement''), (''amount'', JStr ''100''),
       (''currency'', JStr ''USD''), (''payment_method'', JStr ''paypal_account''), (''customerId'', JNull)]\<rparr>"

definition demo_context :: TransactionContext where
  "demo_context = transaction_context ''id0'' (demo_deposit INITIATED None None)"

definition demo_called :: world where
  "demo_called = demo_pending\<lparr>wire := [(''transaction.sale'', sale_request (oe_payload (demo_event None)))]\<rparr>"

lemma demo_call_run:
  "process (the (demo_registry PAYPAL)) (oe_payload (demo_event None)) DEPOSIT demo_pending =
     (Inr demo_result, demo_called)"
  by (simp add: demo_registry_def payment_registry_def PaypalProvider_def paypal_process_def
    paypal_confirmDeposit_def call_gateway_def demo_sale_def sale_outcome_def demo_result_def
    demo_called_def demo_pending_def demo_registered_def run_defs)

definition demo_settled_db :: db where
  "demo_settled_db = empty_db\<lparr>users := [ann, bob],
     wallets := [demo_wallet ''id0'' ''id1'' 1000000 0 0, demo_wallet ''id2'' ''id3'' 0 0 0],
     transactions := [demo_deposit SETTLED (Some ''sale1'') (Some 1000000)],
     ledgerEntries := [\<lparr>le_id = ''id6'', le_walletId = ''id1'', le_transactionId = ''id4'',
       direction = CREDIT, le_amount = 1000000, le_currency = USD, balanceAfter = 1000000,
       le_createdAt = 1000000\<rparr>],
     paymentLogs := [\<lparr>pl_id = ''id7'', pl_transactionId = ''id4'', pl_provider = PAYPAL,
       pl_providerRef = Some ''sale1'', pl_payload = rawResponse demo_result, pl_status = SETTLED,
       pl_createdAt = 1000000\<rparr>],
     outboxEvents := [demo_event (Some 1000000)]\<rparr>"

lemmas settle_run_defs = settle_def fail_def settleDeposit_path_def settleWithdrawal_path_def
  failDeposit_path_def failWithdrawal_path_def required_def stampProviderRef_def setProviderRef_def
  persistCustomerId_def upsertBraintreeCustomerId_def find_user_def createPaymentLog_def
  payment_log_input_def new_paymentLog_def markDelivered_def incrementRetry_def transaction_context_def
  payload_get_def

definition demo_settled :: world where
  "demo_settled = demo_called\<lparr>uuid_next := 8, db := demo_settled_db,
     audits := [serialize LogLevel DEPOSIT_SETTLED None
       \<lparr>ac_userId = None, ac_userAgent = None,
        ac_meta = [(''transactionId'', JStr ''id4''), (''type'', JStr ''DEPOSIT''),
          (''providerRef'', JStr ''sale1'')]\<rparr> 1000000]\<rparr>"

lemma demo_settle_run: "settle demo_context ''id5'' demo_result demo_called = (Inr (), demo_settled)"
  by (simp add: settle_run_defs money_run_defs demo_context_def demo_result_def demo_called_def
    demo_pending_def demo_pending_db_def demo_registered_def demo_settled_db_def demo_deposit_def
    demo_event_def demo_wallet_def demo_settled_def getContext_def opt_json_def)

lemma demo_settled_simps [simp]: "db demo_settled = demo_settled_db" "uuid_next demo_settled = 8"
  "clock demo_settled = 1000000" "uuids demo_settled = (\<lambda>n. ''id'' @ nat_str n)"
  by (simp_all add: demo_settled_def demo_called_def demo_pending_def demo_registered_def)

section \<open>The history is reachable\<close>

lemma demo_registered_reachable: "reachable demo_registry (demo_registered, [])"
  unfolding demo_registered_run [symmetric]
  by (intro reachable_runs reachable.start runs.within_thenP create_user_runs) simp

lemma demo_pending_reachable: "reachable demo_registry (demo_pending, [])"
proof -
  have "step demo_registry (demo_registered, []) (demo_registered, [Confirm_task ''id0'' demo_confirm])"
    by (rule step.confirm_request)
       (simp_all add: demo_confirm_def MoneyDto_valid_def unused_key_def demo_registered_def)
  moreover have "step demo_registry (demo_registered, [] @ Confirm_task ''id0'' demo_confirm # []) (demo_pending, [] @ [])"
    using step.commit [of demo_registry demo_registered "[]" "Confirm_task ''id0'' demo_confirm" "[]"]
    by (simp add: demo_pending_run)
  ultimately show ?thesis
    using demo_registered_reachable by (auto intro: reachable.more)
qed

lemma demo_called_reachable:
  "reachable demo_registry (demo_called, [Dispatch_task demo_context ''id5'' demo_result])"
proof -
  obtain a where a: "demo_registry PAYPAL = Some a" by (simp add: demo_registry_def payment_registry_def)
  have "step demo_registry (demo_pending, []) (demo_called, [Dispatch_task demo_context ''id5'' demo_result])"
    unfolding demo_context_def
    by (rule step.provider_call [where p = PAYPAL and a = a])
       (use a demo_call_run in \<open>simp_all add: demo_pending_def demo_pending_db_def demo_deposit_def\<close>)
  with demo_pending_reachable show ?thesis by (rule reachable.more)
qed

lemma demo_settled_step:
  "step demo_registry (demo_called, [Dispatch_task demo_context ''id5'' demo_result]) (demo_settled, [])"
proof -
  have "pr_success demo_result" "requiresWebhook demo_result = None" by (simp_all add: demo_result_def)
  then show ?thesis
    using step.commit [of demo_registry demo_called "[]" "Dispatch_task demo_context ''id5'' demo_result" "[]"]
    by (simp add: dispatch_def demo_settle_run)
qed

lemma demo_settled_reachable: "reachable demo_registry (demo_settled, [])"
  by (rule reachable.more [OF demo_called_reachable demo_settled_step])

lemma demo_called_books: "books_ok demo_pending_db" "context_in demo_context demo_pending_db"
  using reachable_sys_ok [OF demo_called_reachable demo_registry_ok]
  by (simp_all add: sys_ok_def demo_called_def demo_pending_def)

lemma demo_settled_books: "books_ok demo_settled_db"
  using reachable_sys_ok [OF demo_settled_reachable demo_registry_ok] by (simp add: sys_ok_def)


section \<open>A transfer request\<close>

definition demo_transfer :: TransferDto where
  "demo_transfer = \<lparr>amount = 400000, dto_currency = USD, dto_idempotencyKey = ''k2'', description = None,
     recipientUserId = ''id2''\<rparr>"

end
