(* ===== verification/Settlement_Total.thy ===== *)
theory Settlement_Total
  imports Payment_Settlement
begin

text \<open>
  The other half of the settlement contract: the paths do return. \<open>resolvable\<close> lists what
  the database must hold for the four paths to commit (the transaction without a payment
  log, its wallet, the outbox event, room in the decimal columns, fresh ids, a customer id
  that no other user has), and the section shows that it is enough.
\<close>

section \<open>Writes that succeed\<close>

lemma find_ex: "list_ex P xs \<Longrightarrow> \<exists>x. find P xs = Some x"
  by (metis find_None_iff_all list_ex_iff not_Some_eq)

lemma total_transaction_update:
  assumes "has_transaction (db w) i" and "list_all (\<lambda>t. decimal_fits (tx_amount t)) (transactions (db w))"
    and same: "\<And>t. same_payment t (f t)"
    and Q: "\<And>t. Q t (w\<lparr>db := (db w)\<lparr>transactions :=
      set_transactions i (\<lambda>t. f t\<lparr>tx_updatedAt := clock w\<rparr>) (transactions (db w))\<rparr>\<rparr>)"
  shows "wp (t_update transactions_t (\<lambda>t. tx_id t = i) f) Q E w"
proof -
  obtain t where t: "find (\<lambda>t. tx_id t = i) (transactions (db w)) = Some t"
    using assms(1) find_ex unfolding has_transaction_def by blast
  then have "t \<in> set (transactions (db w))" by (auto dest: find_Some_iff_hd)
  with assms(2) have "decimal_fits (tx_amount t)" by (simp add: list_all_iff)
  moreover have "tx_id (f t) = tx_id t" "idempotencyKey (f t) = idempotencyKey t" "tx_amount (f t) = tx_amount t"
    using same [of t] by (simp_all add: same_payment_def)
  ultimately show ?thesis
    using t Q [unfolded set_transactions_def]
    by (simp add: wp_t_update transactions_t_def Let_def cong: if_cong)
qed

lemma total_stampProviderRef:
  assumes "has_transaction (db w) i" and "list_all (\<lambda>t. decimal_fits (tx_amount t)) (transactions (db w))"
    and Q: "\<And>f. (\<And>t. same_payment t (f t)) \<Longrightarrow>
      Q () (w\<lparr>db := (db w)\<lparr>transactions := set_transactions i f (transactions (db w))\<rparr>\<rparr>)"
  shows "wp (stampProviderRef i ref) Q E w"
proof -
  have "set_transactions i (\<lambda>t. t) ts = ts" for ts by (simp add: set_transactions_def)
  with Q [of "\<lambda>t. t"] have "Q () w" by (simp add: same_payment_def)
  moreover have "wp (setProviderRef i r) Q E w" for r
    unfolding setProviderRef_def wp_thenP wp_ret_fun
    by (rule total_transaction_update [OF assms(1,2)])
       (auto simp: same_payment_def intro!: Q)
  ultimately show ?thesis
    by (simp add: stampProviderRef_def wp_ret wp_whenP split: option.splits)
qed

lemma total_ledgerEntry_create:
  assumes "li_walletId input = Some i" and "has_wallet (db w) i" and "has_transaction (db w) (li_transactionId input)"
    and "decimal_fits (li_amount input)" and "decimal_fits (li_balanceAfter input)"
    and "list_all (\<lambda>e. le_id e \<noteq> uuids w (uuid_next w)) (ledgerEntries (db w))"
    and Q: "\<And>r e. Q r (w\<lparr>uuid_next := Suc (uuid_next w), db := (db w)\<lparr>ledgerEntries := ledgerEntries (db w) @ [e]\<rparr>\<rparr>)"
  shows "wp (ledgerEntry_create input) Q E w"
  using assms(1-6) Q [unfolded new_ledgerEntry_def]
  by (auto simp: ledgerEntry_create_def wp_t_create ledgerEntries_t_def Let_def list_ex_iff list_all_iff new_ledgerEntry_def Q)

lemma total_createPaymentLog:
  assumes "cl_provider input \<noteq> None" and "has_transaction (db w) (cl_transactionId input)"
    and "list_all (\<lambda>l. pl_transactionId l \<noteq> cl_transactionId input) (paymentLogs (db w))"
    and "list_all (\<lambda>l. pl_id l \<noteq> uuids w (uuid_next w)) (paymentLogs (db w))"
    and Q: "\<And>l. Q () (w\<lparr>uuid_next := Suc (uuid_next w), db := (db w)\<lparr>paymentLogs := paymentLogs (db w) @ [l]\<rparr>\<rparr>)"
  shows "wp (createPaymentLog input) Q E w"
  using assms(1-4)
  by (auto simp: createPaymentLog_def wp_thenP wp_ret_fun wp_t_create paymentLogs_t_def Let_def list_ex_iff
    list_all_iff new_paymentLog_def Q)

lemma total_markDelivered:
  assumes "list_ex (\<lambda>e. oe_id e = i) (outboxEvents (db w))"
    and Q: "Q () (w\<lparr>db := (db w)\<lparr>outboxEvents :=
       map (\<lambda>e. if oe_id e = i then e\<lparr>deliveredAt := Some (clock w)\<rparr> else e) (outboxEvents (db w))\<rparr>\<rparr>)"
  shows "wp (markDelivered i) Q E w"
proof -
  obtain e where "find (\<lambda>e. oe_id e = i) (outboxEvents (db w)) = Some e"
    using find_ex [OF assms(1)] by blast
  with Q show ?thesis
    by (simp add: markDelivered_def wp_bindP wp_now wp_thenP wp_ret_fun wp_t_update outboxEvents_t_def Let_def
      cong: if_cong)
qed

text \<open>The customer id a provider reports is new to the user table, or the user's own.\<close>

definition customer_free :: "TransactionContext \<Rightarrow> ProviderResult \<Rightarrow> user list \<Rightarrow> bool" where
  "customer_free c r us \<longleftrightarrow> list_ex (\<lambda>v. u_id v = tc_userId c) us
     \<and> (case payload_get (rawResponse r) ''customerId'' of
         Some (JStr s) \<Rightarrow> list_all (\<lambda>v. u_id v \<noteq> tc_userId c \<longrightarrow> braintreeCustomerId v \<noteq> Some s) us
       | _ \<Rightarrow> True)"

lemma total_persistCustomerId:
  assumes "customer_free c r (users (db w))" and Q: "\<And>us. Q () (w\<lparr>db := (db w)\<lparr>users := us\<rparr>\<rparr>)"
  shows "wp (persistCustomerId c r) Q E w"
proof -
  from Q [of "users (db w)"] have same: "Q () w" by simp
  obtain v where v: "find (\<lambda>v. u_id v = tc_userId c) (users (db w)) = Some v"
    using assms(1) find_ex unfolding customer_free_def by blast
  have "wp (upsertBraintreeCustomerId (tc_userId c) s) Q E w"
    if "list_all (\<lambda>v. u_id v \<noteq> tc_userId c \<longrightarrow> braintreeCustomerId v \<noteq> Some s) (users (db w))" for s
    using v that same Q
    by (auto simp: upsertBraintreeCustomerId_def find_user_def wp_simps users_t_def list_ex_iff list_all_iff
      Let_def cong: if_cong)
  with same show ?thesis
    using assms(1) by (auto simp: persistCustomerId_def customer_free_def wp_ret wp_whenP split: option.splits json.splits)
qed


section \<open>The four paths return\<close>

definition room :: "uuid \<Rightarrow> decimal \<Rightarrow> decimal \<Rightarrow> decimal \<Rightarrow> db \<Rightarrow> bool" where
  "room i da dl dp d = (case find (\<lambda>x. w_id x = i) (wallets d) of
     None \<Rightarrow> False
   | Some x \<Rightarrow> decimal_fits (availableBalance x + da) \<and> decimal_fits (lockedBalance x + dl)
       \<and> decimal_fits (pendingBalance x + dp))"

definition resolvable :: "TransactionContext \<Rightarrow> uuid \<Rightarrow> ProviderResult \<Rightarrow> world \<Rightarrow> bool" where
  "resolvable c ev r w \<longleftrightarrow> has_transaction (db w) (tc_id c)
     \<and> list_all (\<lambda>t. decimal_fits (tx_amount t)) (transactions (db w)) \<and> decimal_fits (tc_amount c)
     \<and> list_all (\<lambda>l. pl_transactionId l \<noteq> tc_id c) (paymentLogs (db w)) \<and> tc_provider c \<noteq> None
     \<and> list_ex (\<lambda>e. oe_id e = ev) (outboxEvents (db w)) \<and> customer_free c r (users (db w))
     \<and> list_all (\<lambda>e. le_id e \<noteq> uuids w (uuid_next w)) (ledgerEntries (db w))
     \<and> list_all (\<lambda>l. pl_id l \<noteq> uuids w (uuid_next w)) (paymentLogs (db w))
     \<and> list_all (\<lambda>l. pl_id l \<noteq> uuids w (Suc (uuid_next w))) (paymentLogs (db w))"

lemma room_wallet: "room i da dl dp d \<Longrightarrow> \<exists>x. find (\<lambda>x. w_id x = i) (wallets d) = Some x \<and> x \<in> set (wallets d) \<and> w_id x = i
    \<and> decimal_fits (availableBalance x + da) \<and> decimal_fits (lockedBalance x + dl) \<and> decimal_fits (pendingBalance x + dp)"
  by (auto simp: room_def split: option.splits dest: find_Some_iff_hd)

lemma has_wallet_move [simp]:
  "list_ex (\<lambda>x. w_id x = i) (move_wallets j da dl dp t ws) = list_ex (\<lambda>x. w_id x = i) ws"
  by (induction ws) (simp_all add: move_wallets_def)

lemma amounts_set:
  assumes "\<And>t. same_payment t (f t)"
  shows "list_all (\<lambda>t. decimal_fits (tx_amount t)) (set_transactions i f ts)
    = list_all (\<lambda>t. decimal_fits (tx_amount t)) ts"
  using assms by (induction ts) (simp_all add: set_transactions_def same_payment_def)

lemma has_set:
  assumes "\<And>t. same_payment t (f t)"
  shows "list_ex (\<lambda>t. tx_id t = j) (set_transactions i f ts) = list_ex (\<lambda>t. tx_id t = j) ts"
  by (rule has_transaction_set) (use assms in \<open>simp add: same_payment_def\<close>)

lemmas wp_now_total = wp_now [THEN iffD2]

lemmas total_rules = total_stampProviderRef total_transaction_update total_ledgerEntry_create
  total_createPaymentLog total_markDelivered total_persistCustomerId wp_now_total

lemmas total_simps = has_transaction_def has_wallet_def amounts_set has_set payment_log_input_def
  same_payment_def

lemma settleDeposit_returns:
  assumes "resolvable c ev r w" and "tc_receiverWalletId c = Some i"
    and "room i (tc_amount c) 0 (- tc_amount c) (db w)"
  shows "wp (settleDeposit_path c ev r) (\<lambda>_ _. True) (\<lambda>_ _. False) w"
proof -
  from room_wallet [OF assms(3)] obtain x where x: "find (\<lambda>x. w_id x = i) (wallets (db w)) = Some x"
    "x \<in> set (wallets (db w))" "w_id x = i" "decimal_fits (availableBalance x + tc_amount c)"
    "decimal_fits (lockedBalance x)" "decimal_fits (pendingBalance x - tc_amount c)" by auto
  then have w: "list_ex (\<lambda>x. w_id x = i) (wallets (db w))" by (auto simp: list_ex_iff)
  have fits: "t_fits wallets_t (move (tc_amount c) 0 (- tc_amount c) (clock w) x)"
    using x by (simp add: wallets_t_def)
  note r = assms(1) [unfolded resolvable_def has_transaction_def]
  show ?thesis
    unfolding settleDeposit_path_def required_def assms(2) option.case wp_bindP wp_thenP settlePending.op_wp x(1) Let_def
    by (simp only: fits if_True move_simps, intro total_rules)
       (use r w x in \<open>simp_all add: total_simps\<close>)
qed

lemma settleWithdrawal_returns:
  assumes "resolvable c ev r w" and "tc_senderWalletId c = Some i"
    and "room i 0 (- tc_amount c) 0 (db w)"
  shows "wp (settleWithdrawal_path c ev r) (\<lambda>_ _. True) (\<lambda>_ _. False) w"
proof -
  from room_wallet [OF assms(3)] obtain x where x: "find (\<lambda>x. w_id x = i) (wallets (db w)) = Some x"
    "x \<in> set (wallets (db w))" "w_id x = i" "decimal_fits (availableBalance x)"
    "decimal_fits (lockedBalance x - tc_amount c)" "decimal_fits (pendingBalance x)" by auto
  then have w: "list_ex (\<lambda>x. w_id x = i) (wallets (db w))" by (auto simp: list_ex_iff)
  have fits: "t_fits wallets_t (move 0 (- tc_amount c) 0 (clock w) x)"
    using x by (simp add: wallets_t_def)
  note r = assms(1) [unfolded resolvable_def has_transaction_def]
  show ?thesis
    unfolding settleWithdrawal_path_def required_def assms(2) option.case wp_bindP wp_thenP settleWithdrawal.op_wp x(1) Let_def
    by (simp only: fits if_True move_simps, intro total_rules)
       (use r w x in \<open>simp_all add: total_simps\<close>)
qed

text \<open>The fail paths write the wallet in place and no ledger entry.\<close>

lemma total_fail_wallet:
  assumes "find (\<lambda>x. w_id x = i) (wallets (db w)) = Some x" and "t_fits wallets_t (move da dl dp (clock w) x)"
    and "\<And>c x. t_touch wallets_t c (f x) = move da dl dp c x"
    and "\<And>y. Q y (moved i da dl dp w)"
  shows "wp (t_update wallets_t (\<lambda>x. w_id x = i) f) Q E w"
  unfolding wallet_update_move [OF assms(3)] using assms(1,2,4) by (simp add: Let_def)

lemma failDeposit_returns:
  assumes "resolvable c ev r w" and "tc_receiverWalletId c = Some i"
    and "room i 0 0 (- tc_amount c) (db w)"
  shows "wp (failDeposit_path c ev r) (\<lambda>_ _. True) (\<lambda>_ _. False) w"
proof -
  from room_wallet [OF assms(3)] obtain x where x: "find (\<lambda>x. w_id x = i) (wallets (db w)) = Some x"
    "decimal_fits (availableBalance x)" "decimal_fits (lockedBalance x)"
    "decimal_fits (pendingBalance x - tc_amount c)" by auto
  then have fits: "t_fits wallets_t (move 0 0 (- tc_amount c) (clock w) x)" by (simp add: wallets_t_def)
  note r = assms(1) [unfolded resolvable_def has_transaction_def]
  show ?thesis
    unfolding failDeposit_path_def required_def assms(2) option.case wp_thenP
    by (intro total_rules total_fail_wallet [OF x(1) fits])
       (use r in \<open>simp_all add: total_simps wallets_t_def move_def\<close>)
qed

lemma failWithdrawal_returns:
  assumes "resolvable c ev r w" and "tc_senderWalletId c = Some i"
    and "room i (tc_amount c) (- tc_amount c) 0 (db w)"
  shows "wp (failWithdrawal_path c ev r) (\<lambda>_ _. True) (\<lambda>_ _. False) w"
proof -
  from room_wallet [OF assms(3)] obtain x where x: "find (\<lambda>x. w_id x = i) (wallets (db w)) = Some x"
    "decimal_fits (availableBalance x + tc_amount c)" "decimal_fits (lockedBalance x - tc_amount c)"
    "decimal_fits (pendingBalance x)" by auto
  then have fits: "t_fits wallets_t (move (tc_amount c) (- tc_amount c) 0 (clock w) x)" by (simp add: wallets_t_def)
  note r = assms(1) [unfolded resolvable_def has_transaction_def]
  show ?thesis
    unfolding failWithdrawal_path_def required_def assms(2) option.case wp_thenP
    by (intro total_rules total_fail_wallet [OF x(1) fits])
       (use r in \<open>simp_all add: total_simps wallets_t_def move_def\<close>)
qed

end
