(* ===== verification/Payment_Properties.thy ===== *)
theory Payment_Properties
  imports Demo Settlement_Total
begin

text \<open>
  Properties of settlement, of the outbox processor and of the provider adapters.
\<close>

section \<open>Settlement\<close>

text \<open>What \<open>settle\<close> and \<open>fail\<close> do around their path: commit and audit, or leave the database.\<close>

lemma around_transaction:
  assumes "wp m (\<lambda>_. P) (\<lambda>_ _. True) w" and "\<And>w' tr. P (w'\<lparr>audits := tr\<rparr>) = P w'"
  shows "wp (thenP (withTransaction m) (audit_emit lvl e x)) (\<lambda>_. P) (\<lambda>_ w'. db w' = db w) w"
  by (simp add: wp_simps assms(2)) (rule wp_mono [OF assms(1)], simp_all)

lemma resolved_audits [simp]: "resolved st i da dl dp c w (w'\<lparr>audits := tr\<rparr>) = resolved st i da dl dp c w w'"
  by (simp add: resolved_def)

lemma settle_effect_raw:
  "wp (settle c ev r)
     (\<lambda>_ w'. tc_type c = DEPOSIT \<and> (\<exists>i. tc_receiverWalletId c = Some i
           \<and> resolved SETTLED i (tc_amount c) 0 (- tc_amount c) (tc_id c) w w')
       \<or> tc_type c = WITHDRAWAL \<and> (\<exists>i. tc_senderWalletId c = Some i
           \<and> resolved SETTLED i 0 (- tc_amount c) 0 (tc_id c) w w'))
     (\<lambda>_ w'. db w' = db w) w"
  unfolding settle_def audit_log_def
  by (rule around_transaction, intro wlp_if wlp_throw)
     ((rule wp_mono [OF settleDeposit_path_run] wp_mono [OF settleWithdrawal_path_run])?; force)+

text \<open>
  C12. Settling is exact and atomic: when \<open>settle\<close> returns, the transaction of its context
  (which had no payment log) has become SETTLED with a payment log of that status, and
  exactly one wallet moved: a deposit's amount from pending to available of the receiver,
  or a withdrawal's amount out of locked of the sender. When it throws, the database is as
  before.
\<close>

theorem settle_effect:
  "wp (settle c ev r)
     (\<lambda>_ w'. tc_type c = DEPOSIT \<and> (\<exists>i. tc_receiverWalletId c = Some i
           \<and> resolved SETTLED i (tc_amount c) 0 (- tc_amount c) (tc_id c) w w')
       \<or> tc_type c = WITHDRAWAL \<and> (\<exists>i. tc_senderWalletId c = Some i
           \<and> resolved SETTLED i 0 (- tc_amount c) 0 (tc_id c) w w'))
     (\<lambda>_ w'. db w' = db w) w"
  by (rule settle_effect_raw)

lemma fail_effect_raw:
  "wp (fail c ev r)
     (\<lambda>_ w'. tc_type c = DEPOSIT \<and> (\<exists>i. tc_receiverWalletId c = Some i
           \<and> resolved FAILED i 0 0 (- tc_amount c) (tc_id c) w w')
       \<or> tc_type c = WITHDRAWAL \<and> (\<exists>i. tc_senderWalletId c = Some i
           \<and> resolved FAILED i (tc_amount c) (- tc_amount c) 0 (tc_id c) w w'))
     (\<lambda>_ w'. db w' = db w) w"
  unfolding fail_def audit_warn_def
  by (rule around_transaction, intro wlp_if wlp_throw)
     ((rule wp_mono [OF failDeposit_path_run] wp_mono [OF failWithdrawal_path_run])?; force)+

text \<open>
  C13. Failing a payment gives the money back and is atomic: when \<open>fail\<close> returns, the
  transaction has become FAILED with a payment log of that status, and a deposit's amount
  left the receiver's pending bucket, or a withdrawal's amount went from locked back to
  available of the sender. When it throws, the database is as before.
\<close>

theorem fail_effect:
  "wp (fail c ev r)
     (\<lambda>_ w'. tc_type c = DEPOSIT \<and> (\<exists>i. tc_receiverWalletId c = Some i
           \<and> resolved FAILED i 0 0 (- tc_amount c) (tc_id c) w w')
       \<or> tc_type c = WITHDRAWAL \<and> (\<exists>i. tc_senderWalletId c = Some i
           \<and> resolved FAILED i (tc_amount c) (- tc_amount c) 0 (tc_id c) w w'))
     (\<lambda>_ w'. db w' = db w) w"
  by (rule fail_effect_raw)

text \<open>
  A payment is settled or failed at most once: while a payment log of the transaction
  exists, every further \<open>settle\<close> or \<open>fail\<close> of it, with whatever context, event and
  provider result, throws and leaves the database as it is.
\<close>

theorem logged_payment_is_final:
  assumes "l \<in> set (paymentLogs (db w))" and "pl_transactionId l = tc_id c"
  shows "(\<exists>e w'. settle c ev r w = (Inl e, w') \<and> db w' = db w)
    \<and> (\<exists>e w'. fail c ev r w = (Inl e, w') \<and> db w' = db w)"
proof -
  have no: "\<not> resolved st i da dl dp (tc_id c) w w'" for st i da dl dp w'
    using assms by (auto simp: resolved_def)
  obtain rs ws where s: "settle c ev r w = (rs, ws)" by (cases "settle c ev r w")
  obtain rf wf where f: "fail c ev r w = (rf, wf)" by (cases "fail c ev r w")
  have "wp (settle c ev r) (\<lambda>_ _. False) (\<lambda>_ w'. db w' = db w) w"
    by (rule wp_mono [OF settle_effect_raw]) (auto simp: no)
  moreover have "wp (fail c ev r) (\<lambda>_ _. False) (\<lambda>_ w'. db w' = db w) w"
    by (rule wp_mono [OF fail_effect_raw]) (auto simp: no)
  ultimately show ?thesis using s f by (cases rs; cases rf) (auto simp: wp_def)
qed


text \<open>
  A pending payment does settle: for a transaction without a payment log, with its
  wallet, its outbox event, room in the decimal columns, fresh ids and a customer id nobody
  else holds, \<open>settle\<close> returns, and the amount moved exactly.
\<close>

theorem resolvable_payment_settles:
  assumes "resolvable c ev r w"
    and "tc_type c = DEPOSIT \<and> tc_receiverWalletId c = Some i \<and> room i (tc_amount c) 0 (- tc_amount c) (db w)
      \<or> tc_type c = WITHDRAWAL \<and> tc_senderWalletId c = Some i \<and> room i 0 (- tc_amount c) 0 (db w)"
  shows "\<exists>w'. settle c ev r w = (Inr (), w') \<and>
    (if tc_type c = DEPOSIT then resolved SETTLED i (tc_amount c) 0 (- tc_amount c) (tc_id c) w w'
     else resolved SETTLED i 0 (- tc_amount c) 0 (tc_id c) w w')"
proof -
  have "wp (settle c ev r) (\<lambda>_ _. True) (\<lambda>_ _. False) w"
    unfolding settle_def wp_thenP wp_withTransaction wp_audit wp_if
    using assms settleDeposit_returns settleWithdrawal_returns by auto
  from wp_conj [OF this settle_effect_raw] show ?thesis
    using assms(2) by (auto simp: wp_def split: prod.splits sum.splits)
qed

lemma demo_resolvable:
  "resolvable demo_context ''id5'' demo_result demo_called"
  "room ''id1'' 1000000 0 (- 1000000) (db demo_called)"
  by (simp_all add: resolvable_def demo_context_def transaction_context_def demo_deposit_def demo_called_def
      demo_pending_def demo_pending_db_def demo_registered_def has_transaction_def decimal_fits_def
      demo_event_def customer_free_def demo_result_def payload_get_def ann_def new_user_def room_def demo_wallet_def)

theorem resolvable_payment_settles_witness:
  "resolved SETTLED ''id1'' 1000000 0 (- 1000000) ''id4'' demo_called demo_settled"
proof -
  have "tc_type demo_context = DEPOSIT" "tc_receiverWalletId demo_context = Some ''id1''"
    "tc_amount demo_context = 1000000" "tc_id demo_context = ''id4''"
    by (simp_all add: demo_context_def transaction_context_def demo_deposit_def)
  then show ?thesis
    using resolvable_payment_settles [OF demo_resolvable(1), of "''id1''"] demo_resolvable(2)
    by (simp add: demo_settle_run)
qed

theorem logged_payment_is_final_witness:
  "\<exists>e w'. fail demo_context ''id5'' demo_result demo_settled = (Inl e, w') \<and> db w' = demo_settled_db"
  using logged_payment_is_final [of "hd (paymentLogs demo_settled_db)" demo_settled demo_context "''id5''" demo_result]
  by (simp add: demo_settled_db_def demo_context_def transaction_context_def demo_deposit_def)

section \<open>The fate of an outbox event\<close>

definition mark_event :: "uuid \<Rightarrow> instant \<Rightarrow> outbox_event list \<Rightarrow> outbox_event list" where
  "mark_event i t = map (\<lambda>e. if oe_id e = i then e\<lparr>deliveredAt := Some t\<rparr> else e)"

lemma path_marks:
  "wp (settleDeposit_path c ev r) (\<lambda>_ w'. outboxEvents (db w') = mark_event ev (clock w) (outboxEvents (db w))) (\<lambda>_ _. True) w"
  "wp (settleWithdrawal_path c ev r) (\<lambda>_ w'. outboxEvents (db w') = mark_event ev (clock w) (outboxEvents (db w))) (\<lambda>_ _. True) w"
  "wp (failDeposit_path c ev r) (\<lambda>_ w'. outboxEvents (db w') = mark_event ev (clock w) (outboxEvents (db w))) (\<lambda>_ _. True) w"
  "wp (failWithdrawal_path c ev r) (\<lambda>_ w'. outboxEvents (db w') = mark_event ev (clock w) (outboxEvents (db w))) (\<lambda>_ _. True) w"
     apply (unfold settleDeposit_path_def settleWithdrawal_path_def failDeposit_path_def failWithdrawal_path_def)
     apply (intro wlp_intros wp_partial_ledgerEntry_create, simp only: Let_def, intro wlp_intros, simp_all add: mark_event_def)
    apply (intro wlp_intros wp_partial_ledgerEntry_create, simp only: Let_def, intro wlp_intros, simp_all add: mark_event_def)
   apply (intro wlp_intros wlp_t_update, simp_all add: wallets_t_def mark_event_def)+
  done


definition bump_event :: "uuid \<Rightarrow> outbox_event list \<Rightarrow> outbox_event list" where
  "bump_event i = map (\<lambda>e. if oe_id e = i then e\<lparr>retryCount := retryCount e + 1\<rparr> else e)"

text \<open>The two ways a processor leaves the row of the event it was given.\<close>

definition event_served :: "uuid \<Rightarrow> outbox_event list \<Rightarrow> outbox_event list \<Rightarrow> bool" where
  "event_served i es es' \<longleftrightarrow> (\<exists>t. es' = mark_event i t es) \<or> es' = bump_event i es"

lemma markDelivered_wp:
  "wp (markDelivered i) (\<lambda>_ w'. outboxEvents (db w') = mark_event i (clock w) (outboxEvents (db w)))
     (\<lambda>_ w'. db w' = db w) w"
  by (simp add: markDelivered_def wp_simps outboxEvents_t_def Let_def mark_event_def cong: if_cong split: option.splits)

lemma incrementRetry_serves:
  assumes "list_ex (\<lambda>e. oe_id e = i) (outboxEvents (db w))"
  shows "\<exists>w'. incrementRetry i w = (Inr (), w') \<and> outboxEvents (db w') = bump_event i (outboxEvents (db w))"
proof -
  obtain e where "find (\<lambda>e. oe_id e = i) (outboxEvents (db w)) = Some e" using find_ex [OF assms] by blast
  then have "wp (incrementRetry i) (\<lambda>_ w'. outboxEvents (db w') = bump_event i (outboxEvents (db w))) (\<lambda>_ _. False) w"
    by (simp add: incrementRetry_def wp_simps outboxEvents_t_def Let_def bump_event_def cong: if_cong)
  then show ?thesis by (auto simp: wp_def split: prod.splits sum.splits)
qed

lemma settle_marks:
  "wp (settle c ev r) (\<lambda>_ w'. outboxEvents (db w') = mark_event ev (clock w) (outboxEvents (db w)))
     (\<lambda>_ w'. db w' = db w) w"
  unfolding settle_def audit_log_def
  by (rule around_transaction, intro wlp_if wlp_throw path_marks) simp

lemma fail_marks:
  "wp (fail c ev r) (\<lambda>_ w'. outboxEvents (db w') = mark_event ev (clock w) (outboxEvents (db w)))
     (\<lambda>_ w'. db w' = db w) w"
  unfolding fail_def audit_warn_def
  by (rule around_transaction, intro wlp_if wlp_throw path_marks) simp

lemma dispatch_marks:
  "wp (dispatch c ev r) (\<lambda>_ w'. outboxEvents (db w') = mark_event ev (clock w) (outboxEvents (db w)))
     (\<lambda>_ w'. db w' = db w) w"
  by (simp add: dispatch_def Let_def wp_if settle_marks fail_marks markDelivered_wp)

lemma call_provider_serves:
  assumes "adapters_ok reg"
  shows "wp (call_provider reg e u p t) (\<lambda>_ w'. event_served (oe_id e) (outboxEvents (db w)) (outboxEvents (db w')))
     (\<lambda>_ w'. db w' = db w) w"
proof (cases "reg p")
  case None
  then show ?thesis by (simp add: call_provider_def resolve_def wp_simps)
next
  case (Some a)
  show ?thesis
    unfolding call_provider_def Let_def wp_bindP resolve_def Some option.case wp_ret
  proof (rule wp_calm [OF adapter_calm [OF assms Some]])
    fix r and v :: world assume "db v = db w"
    then show "wp (dispatch (transaction_context u t) (oe_id e) r)
        (\<lambda>_ w'. event_served (oe_id e) (outboxEvents (db w)) (outboxEvents (db w'))) (\<lambda>_ w'. db w' = db w) v"
      by (intro wp_mono [OF dispatch_marks]) (auto simp: event_served_def)
  qed
qed

lemma processEvent_serves:
  assumes "adapters_ok reg" and ex: "list_ex (\<lambda>x. oe_id x = oe_id e) (outboxEvents (db w))"
  shows "\<exists>w'. processEvent reg e w = (Inr (), w')
    \<and> event_served (oe_id e) (outboxEvents (db w)) (outboxEvents (db w'))"
proof -
  let ?Q = "\<lambda>w'. event_served (oe_id e) (outboxEvents (db w)) (outboxEvents (db w'))"
  have inc: "wp (incrementRetry (oe_id e)) (\<lambda>_. ?Q) E v" if "db v = db w" for E v
    using incrementRetry_serves [of "oe_id e" v] ex that by (auto simp: wp_def event_served_def)
  have inc_all: "wp (processEvent_body reg e) (\<lambda>_. ?Q) (\<lambda>_ w'. db w' = db w) w"
    unfolding processEvent_body_def
    using inc [OF refl] call_provider_serves [OF assms(1)]
    by (auto simp: wp_bindP wp_findTransactionById wp_if split: option.splits json.splits)
  have "wp (processEvent reg e) (\<lambda>_. ?Q) (\<lambda>_ _. False) w"
    unfolding processEvent_def wp_catchP
    by (rule wp_mono [OF inc_all]) (simp_all add: inc)
  then show ?thesis by (auto simp: wp_def split: prod.splits sum.splits)
qed


section \<open>The outbox drains\<close>

text \<open>The attempts left for the events a batch may still select.\<close>

definition attempts_left :: "outbox_event list \<Rightarrow> nat" where
  "attempts_left es = (\<Sum>e \<leftarrow> es. if pending_event 5 e then 5 - retryCount e else 0)"

lemma sum_list_map_le: "(\<And>x. x \<in> set xs \<Longrightarrow> f (g x) \<le> f x) \<Longrightarrow> sum_list (map f (map g xs)) \<le> sum_list (map f xs)"
  for f :: "'a \<Rightarrow> nat"
  by (induction xs) (auto intro: add_mono)

lemma sum_list_map_less:
  fixes f :: "'a \<Rightarrow> nat"
  assumes "\<And>x. x \<in> set xs \<Longrightarrow> f (g x) \<le> f x" and "y \<in> set xs" and "f (g y) < f y"
  shows "sum_list (map f (map g xs)) < sum_list (map f xs)"
  using assms
proof (induction xs)
  case (Cons x xs)
  show ?case
  proof (cases "x = y")
    case True
    then show ?thesis using Cons.prems sum_list_map_le [of xs f g] by (auto intro: add_less_le_mono)
  next
    case False
    then show ?thesis using Cons by (auto intro: add_le_less_mono)
  qed
qed simp

lemma served_map: "event_served i es es' \<Longrightarrow> \<exists>g. es' = map g es \<and> (\<forall>e. oe_id (g e) = oe_id e
    \<and> (if pending_event 5 (g e) then 5 - retryCount (g e) else 0) \<le> (if pending_event 5 e then 5 - retryCount e else 0)
    \<and> (oe_id e = i \<longrightarrow> pending_event 5 e \<longrightarrow>
        (if pending_event 5 (g e) then 5 - retryCount (g e) else 0) < 5 - retryCount e))"
  unfolding event_served_def mark_event_def bump_event_def
  by (elim disjE exE; (rule exI, rule conjI, assumption)?)
     (auto simp: pending_event_def)

lemma served_ids: "event_served i es es' \<Longrightarrow> list_ex (\<lambda>x. oe_id x = j) es' = list_ex (\<lambda>x. oe_id x = j) es"
proof -
  assume "event_served i es es'"
  from served_map [OF this] obtain g where g: "es' = map g es" "\<And>e. oe_id (g e) = oe_id e" by blast
  show ?thesis by (simp add: g list_ex_iff)
qed

lemma served_le: "event_served i es es' \<Longrightarrow> attempts_left es' \<le> attempts_left es"
  by (drule served_map) (auto simp only: attempts_left_def intro!: sum_list_map_le)

lemma served_less:
  assumes "event_served (oe_id e) es es'" and "e \<in> set es" and "pending_event 5 e"
  shows "attempts_left es' < attempts_left es"
proof -
  from served_map [OF assms(1)] obtain g where g: "es' = map g es"
    "\<forall>e'. (if pending_event 5 (g e') then 5 - retryCount (g e') else 0) \<le> (if pending_event 5 e' then 5 - retryCount e' else 0)"
    "(if pending_event 5 (g e) then 5 - retryCount (g e) else 0) < 5 - retryCount e"
    using assms(3) by blast
  show ?thesis
    unfolding attempts_left_def g(1)
    by (rule sum_list_map_less [where y = e]) (use g assms(2,3) in auto)
qed

lemma serve_all:
  assumes "adapters_ok reg" and "\<forall>e \<in> set events. list_ex (\<lambda>x. oe_id x = oe_id e) (outboxEvents (db w))"
  shows "\<exists>w'. forP events (processEvent reg) w = (Inr (), w')
    \<and> attempts_left (outboxEvents (db w')) \<le> attempts_left (outboxEvents (db w))"
  using assms(2)
proof (induction events arbitrary: w)
  case Nil
  then show ?case by (simp add: ret_def)
next
  case (Cons e events)
  then obtain v where v: "processEvent reg e w = (Inr (), v)"
    "event_served (oe_id e) (outboxEvents (db w)) (outboxEvents (db v))"
    using processEvent_serves [OF assms(1)] by fastforce
  then have "\<forall>e \<in> set events. list_ex (\<lambda>x. oe_id x = oe_id e) (outboxEvents (db v))"
    using Cons.prems by (simp add: served_ids)
  from Cons.IH [OF this] v served_le [OF v(2)] show ?case
    by (fastforce simp: thenP_def bindP_def)
qed

lemma batch_progress:
  assumes "adapters_ok reg" and "filter (pending_event 5) (outboxEvents (db w)) \<noteq> []"
  shows "\<exists>w'. processBatch reg w = (Inr (), w')
    \<and> attempts_left (outboxEvents (db w')) < attempts_left (outboxEvents (db w))"
proof -
  let ?sel = "take 100 (oldest_first (filter (pending_event 5) (outboxEvents (db w))))"
  have sel: "set (oldest_first es) = set es" "length (oldest_first es) = length es" for es
    by (simp_all add: oldest_first_def)
  have run: "processBatch reg w = forP ?sel (processEvent reg) w"
    using assms(2) sel(2)
    by (simp add: processBatch_def findPendingProviderEvents_def t_filter_def getP_def bindP_def ret_def outboxEvents_t_def)
  obtain e es where es: "?sel = e # es"
    using assms(2) sel(2) by (cases ?sel) (auto, metis length_0_conv)
  have mem: "x \<in> set (outboxEvents (db w)) \<and> pending_event 5 x" if "x \<in> set (e # es)" for x
    using that set_take_subset [of 100 "oldest_first (filter (pending_event 5) (outboxEvents (db w)))"] sel(1)
    unfolding es [symmetric] by auto
  then have "list_ex (\<lambda>x. oe_id x = oe_id e) (outboxEvents (db w))" by (auto simp: list_ex_iff)
  from processEvent_serves [OF assms(1) this] obtain v where v: "processEvent reg e w = (Inr (), v)"
    "event_served (oe_id e) (outboxEvents (db w)) (outboxEvents (db v))" by blast
  have "\<forall>x \<in> set es. list_ex (\<lambda>y. oe_id y = oe_id x) (outboxEvents (db v))"
    using mem served_ids [OF v(2)] by (auto simp: list_ex_iff)
  from serve_all [OF assms(1) this] obtain w' where "forP es (processEvent reg) v = (Inr (), w')"
    "attempts_left (outboxEvents (db w')) \<le> attempts_left (outboxEvents (db v))" by blast
  moreover have "attempts_left (outboxEvents (db v)) < attempts_left (outboxEvents (db w))"
    using served_less [OF v(2)] mem by simp
  ultimately show ?thesis using run es v(1) by (simp add: thenP_def bindP_def)
qed


text \<open>
  C15. The outbox drains: while events are pending, every batch returns and uses up
  attempts, so after at most \<open>attempts_left\<close> batches with no new events (five attempts for
  each event) nothing is pending: every event was delivered or given up.
\<close>

theorem outbox_drains:
  assumes "adapters_ok reg"
  shows "\<exists>n \<le> attempts_left (outboxEvents (db w)).
    filter (pending_event 5) (outboxEvents (db (((\<lambda>v. snd (processBatch reg v)) ^^ n) w))) = []"
proof (induction "attempts_left (outboxEvents (db w))" arbitrary: w rule: less_induct)
  case less
  show ?case
  proof (cases "filter (pending_event 5) (outboxEvents (db w)) = []")
    case True
    then show ?thesis by (intro exI [of _ 0]) simp
  next
    case False
    let ?v = "snd (processBatch reg w)"
    from batch_progress [OF assms False]
    have lt: "attempts_left (outboxEvents (db ?v)) < attempts_left (outboxEvents (db w))" by auto
    from less [OF lt] obtain n where n: "n \<le> attempts_left (outboxEvents (db ?v))"
      "filter (pending_event 5) (outboxEvents (db (((\<lambda>v. snd (processBatch reg v)) ^^ n) ?v))) = []" by blast
    then show ?thesis
      using lt by (intro exI [of _ "Suc n"]) (simp add: funpow_swap1 [symmetric] del: funpow.simps, simp add: funpow_Suc_right del: funpow.simps)
  qed
qed

theorem outbox_drains_witness:
  "\<exists>n \<le> 5. filter (pending_event 5)
     (outboxEvents (db (((\<lambda>v. snd (processBatch demo_registry v)) ^^ n) demo_pending))) = []"
  using outbox_drains [OF demo_registry_ok, of demo_pending]
  by (simp add: demo_pending_def demo_pending_db_def attempts_left_def pending_event_def provider_events_def demo_event_def)

text \<open>
  Every attempt counts exactly once: processing an event that is stored never throws,
  and leaves the outbox with that event delivered, or with its retry count one higher, and
  no other row touched.
\<close>

theorem event_attempt_counts:
  assumes "adapters_ok reg" and "e \<in> set (outboxEvents (db w))"
  shows "\<exists>w'. processEvent reg e w = (Inr (), w')
    \<and> ((\<exists>t. outboxEvents (db w') =
          map (\<lambda>x. if oe_id x = oe_id e then x\<lparr>deliveredAt := Some t\<rparr> else x) (outboxEvents (db w)))
      \<or> outboxEvents (db w') =
          map (\<lambda>x. if oe_id x = oe_id e then x\<lparr>retryCount := retryCount x + 1\<rparr> else x) (outboxEvents (db w)))"
  using processEvent_serves [OF assms(1), of e w] assms(2)
  unfolding event_served_def mark_event_def bump_event_def by (auto simp: list_ex_iff)

theorem event_attempt_counts_witness:
  "\<exists>w'. processEvent demo_registry (demo_event None) demo_pending = (Inr (), w')
    \<and> length (outboxEvents (db w')) = 1"
proof -
  have "demo_event None \<in> set (outboxEvents (db demo_pending))"
    and n: "length (outboxEvents (db demo_pending)) = 1"
    by (simp_all add: demo_pending_def demo_pending_db_def)
  from event_attempt_counts [OF demo_registry_ok this(1)] obtain w' where
    "processEvent demo_registry (demo_event None) demo_pending = (Inr (), w')"
    and "length (outboxEvents (db w')) = length (outboxEvents (db demo_pending))" by auto
  with n show ?thesis by simp
qed

text \<open>
  C16. A deposit or withdrawal recorded by the transaction service carries the provider
  INTERNAL, which has no adapter: processing its event throws inside the attempt, so the
  event only gains a retry and the funds stay pending or locked.
\<close>

theorem internal_event_never_settles:
  assumes "find (\<lambda>t. tx_id t = oe_transactionId e) (transactions (db w)) = Some t"
    and "tx_provider t = Some INTERNAL" and "payload_get (oe_payload e) ''userId'' = Some (JStr u)" and "u \<noteq> []"
  shows "processEvent (payment_registry stripe paypal) e w = incrementRetry (oe_id e) w
    \<and> same_books w (snd (processEvent (payment_registry stripe paypal) e w))"
proof -
  have find: "findTransactionById (oe_transactionId e) w = (Inr (Some t), w)"
    using assms(1) by (simp add: findTransactionById_def t_find_def getP_def transactions_t_def)
  have "processEvent (payment_registry stripe paypal) e w = incrementRetry (oe_id e) w"
    using assms(2-4)
    by (simp add: processEvent_def processEvent_body_def catchP_def bindP_def find call_provider_def
      resolve_def payment_registry_def throw_def Let_def)
  moreover have "same_books w (snd (incrementRetry (oe_id e) w))"
    using incrementRetry_same_books by (simp add: within_def)
  ultimately show ?thesis by simp
qed

definition demo_internal :: world where
  "demo_internal = demo_pending\<lparr>db := demo_pending_db\<lparr>transactions :=
     [(demo_deposit INITIATED None None)\<lparr>tx_provider := Some INTERNAL\<rparr>]\<rparr>\<rparr>"

theorem internal_event_never_settles_witness:
  "same_books demo_internal (snd (processEvent demo_registry (demo_event None) demo_internal))
   \<and> length (transactions (db demo_internal)) = 1"
proof -
  let ?t = "(demo_deposit INITIATED None None)\<lparr>tx_provider := Some INTERNAL\<rparr>"
  have "find (\<lambda>t. tx_id t = oe_transactionId (demo_event None)) (transactions (db demo_internal)) = Some ?t"
    "tx_provider ?t = Some INTERNAL"
    "payload_get (oe_payload (demo_event None)) ''userId'' = Some (JStr ''id0'')" "''id0'' \<noteq> []"
    and n: "length (transactions (db demo_internal)) = 1"
    by (simp_all add: demo_internal_def demo_event_def demo_deposit_def payload_get_def)
  from internal_event_never_settles [OF this(1-4)] n show ?thesis
    unfolding demo_registry_def by blast
qed

lemma demo_answer:
  "find (\<lambda>t. tx_id t = oe_transactionId (demo_event None)) (transactions (db demo_pending))
      = Some (demo_deposit INITIATED None None)"
  "tx_provider (demo_deposit INITIATED None None) = Some PAYPAL"
  "payload_get (oe_payload (demo_event None)) ''userId'' = Some (JStr ''id0'')" "''id0'' \<noteq> []"
  "demo_registry PAYPAL = Some (the (demo_registry PAYPAL))"
  "process (the (demo_registry PAYPAL)) (oe_payload (demo_event None)) (tx_type (demo_deposit INITIATED None None))
      demo_pending = (Inr demo_result, demo_called)"
  using demo_call_run
  by (simp_all add: demo_pending_def demo_pending_db_def demo_event_def demo_deposit_def payload_get_def
      demo_registry_def payment_registry_def)

lemma processEvent_dispatch:
  assumes "find (\<lambda>t. tx_id t = oe_transactionId e) (transactions (db w)) = Some t"
    and "tx_provider t = Some p" and "payload_get (oe_payload e) ''userId'' = Some (JStr u)" and "u \<noteq> []"
    and "reg p = Some a" and "process a (oe_payload e) (tx_type t) w = (Inr r, w')"
  shows "processEvent reg e w = catchP (dispatch (transaction_context u t) (oe_id e) r) (\<lambda>_. incrementRetry (oe_id e)) w'"
proof -
  have find: "findTransactionById (oe_transactionId e) w = (Inr (Some t), w)"
    using assms(1) by (simp add: findTransactionById_def t_find_def getP_def transactions_t_def)
  show ?thesis
    using assms(2-6)
    by (simp add: processEvent_def processEvent_body_def catchP_def bindP_def find call_provider_def
      resolve_def ret_def Let_def)
qed

text \<open>The wallet and the movement a final answer gives a payment.\<close>

definition final_move :: "transaction \<Rightarrow> bool \<Rightarrow> (uuid \<times> decimal \<times> decimal \<times> decimal) option" where
  "final_move t ok = (case tx_type t of
     DEPOSIT \<Rightarrow> map_option (\<lambda>i. (i, if ok then tx_amount t else 0, 0, - tx_amount t)) (receiverWalletId t)
   | WITHDRAWAL \<Rightarrow> map_option (\<lambda>i. (i, if ok then 0 else tx_amount t, - tx_amount t, 0)) (senderWalletId t)
   | TRANSFER \<Rightarrow> None)"

lemma final_move_cases:
  assumes "final_move t ok = Some (i, da, dl, dp)"
  obtains (deposit) "tx_type t = DEPOSIT" "receiverWalletId t = Some i" "dl = 0" "dp = - tx_amount t"
      "da = (if ok then tx_amount t else 0)"
    | (withdrawal) "tx_type t = WITHDRAWAL" "senderWalletId t = Some i" "dp = 0" "dl = - tx_amount t"
      "da = (if ok then 0 else tx_amount t)"
  using assms by (auto simp: final_move_def split: transaction_type.splits)

lemma settle_resolves:
  assumes "resolvable (transaction_context u t) ev r w" and "final_move t True = Some (i, da, dl, dp)"
    and "room i da dl dp (db w)"
  shows "wp (settle (transaction_context u t) ev r) (\<lambda>_. resolved SETTLED i da dl dp (tx_id t) w) (\<lambda>_ _. False) w"
proof -
  let ?c = "transaction_context u t"
  have "wp (settle ?c ev r) (\<lambda>_ _. True) (\<lambda>_ _. False) w"
    using assms(2) unfolding settle_def wp_thenP wp_withTransaction wp_audit wp_if
    by (cases rule: final_move_cases)
       (use assms settleDeposit_returns [OF assms(1)] settleWithdrawal_returns [OF assms(1)] in \<open>auto simp: transaction_context_def\<close>)
  from wp_conj [OF this settle_effect_raw] show ?thesis
    by (rule wp_mono) (use assms(2) in \<open>auto simp: transaction_context_def elim!: final_move_cases\<close>)
qed

lemma fail_resolves:
  assumes "resolvable (transaction_context u t) ev r w" and "final_move t False = Some (i, da, dl, dp)"
    and "room i da dl dp (db w)"
  shows "wp (fail (transaction_context u t) ev r) (\<lambda>_. resolved FAILED i da dl dp (tx_id t) w) (\<lambda>_ _. False) w"
proof -
  let ?c = "transaction_context u t"
  have "wp (fail ?c ev r) (\<lambda>_ _. True) (\<lambda>_ _. False) w"
    using assms(2) unfolding fail_def wp_thenP wp_withTransaction wp_audit wp_if
    by (cases rule: final_move_cases)
       (use assms failDeposit_returns [OF assms(1)] failWithdrawal_returns [OF assms(1)] in \<open>auto simp: transaction_context_def\<close>)
  from wp_conj [OF this fail_effect_raw] show ?thesis
    by (rule wp_mono) (use assms(2) in \<open>auto simp: transaction_context_def elim!: final_move_cases\<close>)
qed

text \<open>
  C14. An answered payment resolves: when the provider of a stored event's transaction has
  given a final answer, processing the event settles the transaction on success and fails
  it otherwise, with exactly one movement of its wallet, one payment log, and the event
  delivered, provided the database admits the rows.
\<close>

theorem answered_payment_resolves:
  assumes "find (\<lambda>t. tx_id t = oe_transactionId e) (transactions (db w)) = Some t"
    and "tx_provider t = Some p" and "payload_get (oe_payload e) ''userId'' = Some (JStr u)" and "u \<noteq> []"
    and "reg p = Some a" and "process a (oe_payload e) (tx_type t) w = (Inr r, v)"
    and final: "pr_success r \<longrightarrow> requiresWebhook r \<noteq> Some True"
    and "resolvable (transaction_context u t) (oe_id e) r v"
    and "final_move t (pr_success r) = Some (i, da, dl, dp)" and "room i da dl dp (db v)"
  shows "\<exists>w'. processEvent reg e w = (Inr (), w')
    \<and> resolved (if pr_success r then SETTLED else FAILED) i da dl dp (tx_id t) v w'
    \<and> outboxEvents (db w') = map (\<lambda>x. if oe_id x = oe_id e then x\<lparr>deliveredAt := Some (clock v)\<rparr> else x) (outboxEvents (db v))"
proof -
  let ?R = "\<lambda>w'. resolved (if pr_success r then SETTLED else FAILED) i da dl dp (tx_id t) v w'"
  have "wp (dispatch (transaction_context u t) (oe_id e) r) (\<lambda>_. ?R) (\<lambda>_ _. False) v"
    using final settle_resolves [OF assms(8) _ assms(10)] fail_resolves [OF assms(8) _ assms(10)] assms(9)
    by (cases "pr_success r") (simp_all add: dispatch_def Let_def)
  from wp_conj [OF this dispatch_marks]
  obtain w' where "dispatch (transaction_context u t) (oe_id e) r v = (Inr (), w')" "?R w'"
    "outboxEvents (db w') = mark_event (oe_id e) (clock v) (outboxEvents (db v))"
    by (auto simp: dispatch_def wp_def split: prod.splits sum.splits)
  with processEvent_dispatch [where reg = reg, OF assms(1-6)] show ?thesis
    by (simp add: catchP_def mark_event_def)
qed

theorem answered_payment_resolves_witness:
  "\<exists>w'. processEvent demo_registry (demo_event None) demo_pending = (Inr (), w')
    \<and> resolved SETTLED ''id1'' 1000000 0 (- 1000000) ''id4'' demo_called w'"
proof -
  have "pr_success demo_result" "pr_success demo_result \<longrightarrow> requiresWebhook demo_result \<noteq> Some True"
    by (simp_all add: demo_result_def)
  moreover have "resolvable (transaction_context ''id0'' (demo_deposit INITIATED None None)) (oe_id (demo_event None))
      demo_result demo_called"
    using demo_resolvable(1) by (simp add: demo_context_def demo_event_def)
  moreover have "final_move (demo_deposit INITIATED None None) (pr_success demo_result) = Some (''id1'', 1000000, 0, - 1000000)"
    and "tx_id (demo_deposit INITIATED None None) = ''id4''"
    by (simp_all add: final_move_def demo_deposit_def demo_result_def)
  ultimately show ?thesis
    using answered_payment_resolves [where reg = demo_registry, OF demo_answer _ _ _ demo_resolvable(2)] by auto
qed

text \<open>
  The processor acts on a provider's result by the contract's table: an accepted
  asynchronous payment is only marked delivered (no balance moves), a confirmed synchronous
  one is settled, and every failure is failed; an attempt that throws counts a retry.
\<close>

theorem processor_decision_table:
  assumes "find (\<lambda>t. tx_id t = oe_transactionId e) (transactions (db w)) = Some t"
    and "tx_provider t = Some p" and "payload_get (oe_payload e) ''userId'' = Some (JStr u)" and "u \<noteq> []"
    and "reg p = Some a" and "process a (oe_payload e) (tx_type t) w = (Inr r, w')"
  shows "processEvent reg e w = catchP
    (if requiresWebhook r = Some True
     then if pr_success r then markDelivered (oe_id e) else fail (transaction_context u t) (oe_id e) r
     else if pr_success r then settle (transaction_context u t) (oe_id e) r
       else fail (transaction_context u t) (oe_id e) r)
    (\<lambda>_. incrementRetry (oe_id e)) w'"
  unfolding processEvent_dispatch [where reg = reg, OF assms]
  by (simp add: catchP_def dispatch_def Let_def)

theorem processor_decision_table_witness:
  "processEvent demo_registry (demo_event None) demo_pending = (Inr (), demo_settled)"
  using processor_decision_table [where reg = demo_registry, OF demo_answer] demo_settle_run
  unfolding demo_context_def [symmetric]
  by (simp add: demo_result_def catchP_def demo_event_def)

text \<open>
  One processor at a time: while the lock key is live a run returns without reading an
  event or touching the lock, and when Redis refuses the lock call the run throws before it
  reads an event.
\<close>

theorem processor_lock:
  "processOutbox reg w =
     (if \<not> redis_ok w (redis_calls w)
      then (Inl (JsError ''redis unavailable''), w\<lparr>redis_calls := Suc (redis_calls w)\<rparr>)
      else if redis_live w PROCESSOR_LOCK_KEY \<noteq> None
      then (Inr (), w\<lparr>redis_calls := Suc (redis_calls w)\<rparr>)
      else finallyP (catchP (processBatch reg) (\<lambda>_. ret ())) (redis_del PROCESSOR_LOCK_KEY)
        (w\<lparr>redis_calls := Suc (redis_calls w), redis := (redis w)
            (''locks:payment_processor'' \<mapsto> (''1'', Some (clock w + 900000)))\<rparr>))"
  by (simp add: processOutbox_def redis_set_nx_def redis_call_def bindP_def ret_def
    PROCESSOR_LOCK_KEY_def PROCESSOR_LOCK_TTL_SECONDS_def)

text \<open>
  Adapters report, they never throw: whatever the gateways answer, \<open>process\<close> of the
  Stripe and of the PayPal adapter returns a result and leaves the database alone, for
  every transaction type.
\<close>

theorem adapters_never_throw:
  "(\<exists>r w'. process (StripeProvider api to_cents) q ty w = (Inr r, w') \<and> db w' = db w)
   \<and> (\<exists>r w'. process (PaypalProvider bt oauth payouts cfg) q ty w = (Inr r, w') \<and> db w' = db w)"
  using calmD [OF stripe.calm_process] calmD [OF paypal.calm_process] by blast

text \<open>
  A PayPal access token is used at most until a minute before it expires: while the
  cached token is valid no request is sent; otherwise one token request is sent, and what a
  successful answer gives is cached until its own expiry. A failed request leaves the cache.
\<close>

theorem paypal_token_cache:
  "wp (getAccessToken oauth cfg)
     (\<lambda>t w'. if isTokenValid (paypalToken w) (clock w)
        then w' = w \<and> (\<exists>x. paypalToken w = Some (t, x) \<and> clock w < x - 60000)
        else length (wire w') = Suc (length (wire w))
          \<and> (\<exists>n. paypalToken w' = Some (t, clock w + n * 1000)))
     (\<lambda>_ w'. paypalToken w' = paypalToken w) w"
  by (auto simp: getAccessToken_def fetchAndCacheToken_def wp_simps call_gateway_def wp_def [of "call_gateway _ _ _"]
    isTokenValid_def EXPIRY_BUFFER_MS_def from_sum_def Let_def split: option.splits sum.splits prod.splits)

end
