(* ===== verification/Isolation.thy ===== *)
theory Isolation
  imports Row_Locks System Payment_Properties
begin

text \<open>
  The money blocks of the services as their statements on wallet rows, and what the row locks
  of \<open>Row_Locks\<close> give for them: whatever the interleaving of their statements, the committed
  rows are those of running the committed blocks one after another, no wallet is overdrawn,
  and no schedule of the statements deadlocks.
\<close>

section \<open>Wallet rows\<close>

definition rows_of :: "db \<Rightarrow> rows" where
  "rows_of d = (\<lambda>i. map_option snapshot (find (\<lambda>x. w_id x = i) (wallets d)))"

text \<open>The wallet a user owns; neither column ever changes.\<close>

definition own_wallet :: "db \<Rightarrow> uuid \<Rightarrow> uuid option" where
  "own_wallet d u = map_option w_id (find (\<lambda>x. w_userId x = u) (wallets d))"

section \<open>Blocks as statements\<close>

definition admitted :: "currency \<Rightarrow> wallet_snapshot \<Rightarrow> bool" where
  "admitted c s \<longleftrightarrow> ws_status s = ACTIVE \<and> ws_currency s = c"

definition pending_credit_rows :: "uuid \<Rightarrow> currency \<Rightarrow> decimal \<Rightarrow> stmt" where
  "pending_credit_rows i c a = LockRow i (\<lambda>row. case row of
     None \<Rightarrow> Rollback
   | Some s \<Rightarrow> if admitted c s then AddRow i 0 0 a Commit else Rollback)"

definition reserve_rows :: "uuid \<Rightarrow> currency \<Rightarrow> decimal \<Rightarrow> stmt" where
  "reserve_rows i c a = LockRow i (\<lambda>row. case row of
     None \<Rightarrow> Rollback
   | Some s \<Rightarrow>
       if admitted c s \<and> a \<le> ws_availableBalance s then AddRow i (- a) a 0 Commit else Rollback)"

definition transfer_rows :: "uuid \<Rightarrow> uuid \<Rightarrow> currency \<Rightarrow> decimal \<Rightarrow> stmt" where
  "transfer_rows senderId receiverId c a = (let (firstId, secondId) = lock_order senderId receiverId in
     LockRow firstId (\<lambda>row1. case row1 of
       None \<Rightarrow> Rollback
     | Some firstLocked \<Rightarrow> LockRow secondId (\<lambda>row2. case row2 of
         None \<Rightarrow> Rollback
       | Some secondLocked \<Rightarrow>
           let lockedSender = (if ws_id firstLocked = senderId then firstLocked else secondLocked);
               lockedReceiver = (if ws_id firstLocked = receiverId then firstLocked else secondLocked) in
           if admitted c lockedSender \<and> admitted c lockedReceiver \<and> a \<le> ws_availableBalance lockedSender
           then AddRow senderId (- a) 0 0 (AddRow receiverId a 0 0 Commit) else Rollback)))"

definition resolve_rows :: "uuid option \<Rightarrow> decimal \<Rightarrow> decimal \<Rightarrow> decimal \<Rightarrow> stmt" where
  "resolve_rows walletId da dl dp = (case walletId of None \<Rightarrow> Rollback | Some i \<Rightarrow> AddRow i da dl dp Commit)"

definition settle_rows :: "TransactionContext \<Rightarrow> stmt" where
  "settle_rows c = (if tc_type c = DEPOSIT then resolve_rows (tc_receiverWalletId c) (tc_amount c) 0 (- tc_amount c)
     else if tc_type c = WITHDRAWAL then resolve_rows (tc_senderWalletId c) 0 (- tc_amount c) 0
     else Rollback)"

definition fail_rows :: "TransactionContext \<Rightarrow> stmt" where
  "fail_rows c = (if tc_type c = DEPOSIT then resolve_rows (tc_receiverWalletId c) 0 0 (- tc_amount c)
     else if tc_type c = WITHDRAWAL then resolve_rows (tc_senderWalletId c) (tc_amount c) (- tc_amount c) 0
     else Rollback)"

definition dispatch_rows :: "TransactionContext \<Rightarrow> ProviderResult \<Rightarrow> stmt" where
  "dispatch_rows c r = (if pr_success r then if requiresWebhook r = Some True then Commit else settle_rows c
     else fail_rows c)"

definition on_wallet :: "db \<Rightarrow> uuid \<Rightarrow> (uuid \<Rightarrow> stmt) \<Rightarrow> stmt" where
  "on_wallet d u f = (case own_wallet d u of None \<Rightarrow> Rollback | Some i \<Rightarrow> f i)"

fun row_program :: "db \<Rightarrow> task \<Rightarrow> stmt" where
  "row_program d (Deposit_task u dto) = on_wallet d u (\<lambda>i. pending_credit_rows i (dto_currency dto) (amount dto))"
| "row_program d (Withdraw_task u dto) = on_wallet d u (\<lambda>i. reserve_rows i (dto_currency dto) (amount dto))"
| "row_program d (Transfer_task u dto sw rw) = transfer_rows (w_id sw) (w_id rw) (dto_currency dto) (amount dto)"
| "row_program d (Confirm_task u dto) = on_wallet d u (\<lambda>i. pending_credit_rows i (dto_currency dto) (amount dto))"
| "row_program d (Payout_task u dto) = on_wallet d u (\<lambda>i. reserve_rows i (dto_currency dto) (amount dto))"
| "row_program d (Dispatch_task c e r) = dispatch_rows c r"

section \<open>The blocks do what their statements do\<close>

lemma rows_of_Some: "find (\<lambda>x. w_id x = i) (wallets d) = Some x \<Longrightarrow> rows_of d i = Some (snapshot x)"
  by (simp add: rows_of_def)

lemma add_snapshot: "add_balances da dl dp (snapshot x) = snapshot (move da dl dp t x)"
  by (simp add: add_balances_def snapshot_def)

lemma rows_of_moved:
  assumes "wallets d' = move_wallets i da dl dp t (wallets d)" and "find (\<lambda>x. w_id x = i) (wallets d) = Some x"
  shows "rows_of d' = (rows_of d)(i \<mapsto> add_balances da dl dp (snapshot x))"
proof
  fix j
  have "w_id y = j" if "find (\<lambda>x. w_id x = j) (wallets d) = Some y" for y
    using find_wallet_id [OF that] .
  then show "rows_of d' j = ((rows_of d)(i \<mapsto> add_balances da dl dp (snapshot x))) j"
    using assms add_snapshot [of da dl dp x t]
    by (cases "find (\<lambda>x. w_id x = j) (wallets d)") (auto simp: rows_of_def find_move_wallets)
qed

lemma rows_of_resolved:
  assumes "resolved st i da dl dp c w w'"
  shows "alone (resolve_rows (Some i) da dl dp) (rows_of (db w)) = Some (rows_of (db w'))"
  using assms rows_of_moved [of "db w'" i da dl dp "clock w" "db w"]
  by (auto simp: resolved_def resolve_rows_def rows_of_Some)

lemma deposit_rows_run:
  assumes "find (\<lambda>x. w_userId x = u) (wallets (db w)) = Some x"
    and "find (\<lambda>y. w_id y = w_id x) (wallets (db w)) = Some y" and "w_id y = w_id x"
    and "w_status y = ACTIVE" and "w_currency y = c"
    and "posted t ls ev (moved (w_id y) 0 0 a w) w'"
  shows "alone (on_wallet (db w) u (\<lambda>i. pending_credit_rows i c a)) (rows_of (db w)) = Some (rows_of (db w'))"
  using assms rows_of_moved [of "db w'" "w_id x" 0 0 a "clock w" "db w"] postedD(2) [OF assms(6)]
  by (simp add: on_wallet_def own_wallet_def pending_credit_rows_def rows_of_Some admitted_def)

lemma reserve_rows_run:
  assumes "find (\<lambda>x. w_userId x = u) (wallets (db w)) = Some x"
    and "find (\<lambda>y. w_id y = w_id x) (wallets (db w)) = Some y" and "w_id y = w_id x"
    and "w_status y = ACTIVE" and "w_currency y = c" and "a \<le> availableBalance y"
    and "posted t ls ev (moved (w_id y) (- a) a 0 w) w'"
  shows "alone (on_wallet (db w) u (\<lambda>i. reserve_rows i c a)) (rows_of (db w)) = Some (rows_of (db w'))"
  using assms rows_of_moved [of "db w'" "w_id x" "- a" a 0 "clock w" "db w"] postedD(2) [OF assms(7)]
  by (simp add: on_wallet_def own_wallet_def reserve_rows_def rows_of_Some admitted_def)

lemma transfer_rows_run:
  assumes ij: "i \<noteq> j"
    and s: "find (\<lambda>x. w_id x = i) (wallets (db w)) = Some s" "w_status s = ACTIVE" "w_currency s = c"
    and r: "find (\<lambda>x. w_id x = j) (wallets (db w)) = Some r" "w_status r = ACTIVE" "w_currency r = c"
    and a: "a \<le> availableBalance s"
    and p: "posted t ls ev (moved j a 0 0 (moved i (- a) 0 0 w)) w'"
  shows "alone (transfer_rows i j c a) (rows_of (db w)) = Some (rows_of (db w'))"
proof -
  let ?v = "moved i (- a) 0 0 w"
  have id: "w_id s = i" "w_id r = j" using find_wallet_id [OF s(1)] find_wallet_id [OF r(1)] .
  have v: "rows_of (db ?v) = (rows_of (db w))(i \<mapsto> add_balances (- a) 0 0 (snapshot s))"
    by (rule rows_of_moved [OF _ s(1)]) simp
  have rv: "find (\<lambda>x. w_id x = j) (wallets (db ?v)) = Some r"
    using r(1) ij id by (simp add: find_move_wallets)
  have w': "rows_of (db w') = (rows_of (db ?v))(j \<mapsto> add_balances a 0 0 (snapshot r))"
    by (rule rows_of_moved [OF _ rv]) (simp add: postedD(2) [OF p] moved_def)
  show ?thesis
    using ij s r a id
    by (simp add: transfer_rows_def lock_order_def Let_def rows_of_Some admitted_def w' v)
qed

text \<open>The block of a task, with its answer dropped.\<close>

fun task_block :: "task \<Rightarrow> (world, unit) prog" where
  "task_block (Deposit_task u dto) = thenP (deposit_block u dto) (ret ())"
| "task_block (Withdraw_task u dto) = thenP (withdraw_block u dto) (ret ())"
| "task_block (Transfer_task u dto sw rw) = thenP (transfer_block u dto sw rw) (ret ())"
| "task_block (Confirm_task u dto) = thenP (confirmDeposit_block u dto) (ret ())"
| "task_block (Payout_task u dto) = thenP (createPayout_block u dto) (ret ())"
| "task_block (Dispatch_task c e r) = dispatch c e r"

lemma run_task_block: "run_task k w = snd (task_block k w)"
  by (cases k) (simp_all add: thenP_def bindP_def ret_def split: prod.split sum.split)

definition runs_rows :: "stmt \<Rightarrow> world \<Rightarrow> world \<Rightarrow> bool" where
  "runs_rows b w w' \<longleftrightarrow> alone b (rows_of (db w)) = Some (rows_of (db w'))"

lemma settle_rows_run: "wp (settle c e r) (\<lambda>_. runs_rows (settle_rows c) w) (\<lambda>_ w'. db w' = db w) w"
  by (rule wp_mono [OF settle_effect_raw])
     (auto simp: runs_rows_def settle_rows_def dest: rows_of_resolved)

lemma fail_rows_run: "wp (fail c e r) (\<lambda>_. runs_rows (fail_rows c) w) (\<lambda>_ w'. db w' = db w) w"
  by (rule wp_mono [OF fail_effect_raw])
     (auto simp: runs_rows_def fail_rows_def dest: rows_of_resolved)

lemma markDelivered_rows: "wp (markDelivered i) (\<lambda>_ w'. rows_of (db w') = rows_of (db w)) (\<lambda>_ w'. db w' = db w) w"
  by (simp add: markDelivered_def wp_simps outboxEvents_t_def Let_def rows_of_def cong: if_cong split: option.splits)

lemma dispatch_rows_run:
  "wp (dispatch c e r) (\<lambda>_. runs_rows (dispatch_rows c r) w) (\<lambda>_ w'. db w' = db w) w"
  using settle_rows_run [of c e r w] fail_rows_run [of c e r w] markDelivered_rows [of e w]
  by (simp add: dispatch_def dispatch_rows_def Let_def wp_if) (auto simp: runs_rows_def intro: wp_mono)

lemma block_rows:
  assumes "wp m Q (\<lambda>_ w'. db w' = db w) w" and "\<And>a w'. Q a w' \<Longrightarrow> runs_rows b w w'"
  shows "wp (thenP m (ret ())) (\<lambda>_. runs_rows b w) (\<lambda>_ w'. db w' = db w) w"
  by (simp add: wp_simps) (rule wp_mono [OF assms(1)], simp_all add: assms(2))

lemma task_block_rows:
  assumes "task_ok (db w) k"
  shows "wp (task_block k) (\<lambda>_. runs_rows (row_program (db w) k) w) (\<lambda>_ w'. db w' = db w) w"
proof (cases k)
  case (Deposit_task u dto)
  then show ?thesis
    by simp (rule block_rows [OF deposit_block_run], use deposit_rows_run in \<open>force simp: runs_rows_def\<close>)
next
  case (Withdraw_task u dto)
  then show ?thesis
    by simp (rule block_rows [OF withdraw_block_run], use reserve_rows_run in \<open>force simp: runs_rows_def\<close>)
next
  case (Transfer_task u dto sw rw)
  then have "w_id sw \<noteq> w_id rw" using assms by simp
  then show ?thesis
    unfolding Transfer_task task_block.simps row_program.simps
    by (intro block_rows [OF transfer_block_run])
       (use transfer_rows_run [of "w_id sw" "w_id rw"] in \<open>auto simp: runs_rows_def\<close>)
next
  case (Confirm_task u dto)
  then show ?thesis
    by simp (rule block_rows [OF confirmDeposit_block_run], use deposit_rows_run in \<open>force simp: runs_rows_def\<close>)
next
  case (Payout_task u dto)
  then show ?thesis
    by simp (rule block_rows [OF createPayout_block_run], use reserve_rows_run in \<open>force simp: runs_rows_def\<close>)
next
  case (Dispatch_task c e r)
  then show ?thesis by (simp add: dispatch_rows_run)
qed

section \<open>What the statements keep\<close>

lemmas rows_defs = pending_credit_rows_def reserve_rows_def transfer_rows_def resolve_rows_def settle_rows_def
  fail_rows_def dispatch_rows_def on_wallet_def lock_order_def Let_def

lemma program_reads_locked: "reads_locked (row_program d k)"
  by (cases k) (auto simp: rows_defs split: option.splits)

lemma program_short: "short (row_program d k) 5"
  by (cases k) (auto simp: rows_defs eval_nat_numeral split: option.splits)

lemma program_ascending:
  assumes "task_ok d k"
  shows "ascending (row_program d k) {}"
  using assms by (cases k) (auto simp: rows_defs may_lock_def split: option.splits)

text \<open>A block of the services, started in a state whose books are in order.\<close>

definition money_block :: "stmt \<Rightarrow> bool" where
  "money_block b \<longleftrightarrow> (\<exists>d k. books_ok d \<and> task_ok d k \<and> b = row_program d k)"

lemma money_block_reads_locked: "money_block b \<Longrightarrow> reads_locked b"
  by (auto simp: money_block_def program_reads_locked)

lemma money_block_short: "money_block b \<Longrightarrow> short b 5"
  by (auto simp: money_block_def program_short)

lemma money_block_ascending: "money_block b \<Longrightarrow> ascending b {}"
  by (auto simp: money_block_def program_ascending)

text \<open>No wallet overdrawn.\<close>

definition covered :: "rows \<Rightarrow> bool" where
  "covered m \<longleftrightarrow> (\<forall>i x. m i = Some x \<longrightarrow> 0 \<le> ws_availableBalance x)"

lemma covered_add:
  assumes "covered m" and "m i = Some x" and "0 \<le> ws_availableBalance x + da"
  shows "covered (m(i \<mapsto> add_balances da dl dp x))"
  using assms by (simp add: covered_def add_balances_def)

lemma resolve_covered:
  assumes "alone (resolve_rows i da dl dp) m = Some m'" and "covered m" and "0 \<le> da"
  shows "covered m'"
proof -
  from assms(1) obtain j x where "m j = Some x" "m' = m(j \<mapsto> add_balances da dl dp x)"
    by (auto simp: resolve_rows_def split: option.splits)
  moreover from this(1) assms(2) have "0 \<le> ws_availableBalance x" by (simp add: covered_def)
  ultimately show ?thesis using assms(2,3) by (simp add: covered_add)
qed

lemma dispatch_covered:
  assumes "alone (dispatch_rows c r) m = Some m'" and "covered m" and "0 \<le> tc_amount c"
  shows "covered m'"
  using assms
  by (auto simp: dispatch_rows_def settle_rows_def fail_rows_def split: if_splits elim!: resolve_covered)

lemma pending_covered:
  assumes "alone (pending_credit_rows i c a) m = Some m'" and "covered m"
  shows "covered m'"
proof (cases "m i")
  case None
  then show ?thesis using assms by (simp add: pending_credit_rows_def)
next
  case (Some x)
  moreover from this have "0 \<le> ws_availableBalance x" using assms(2) by (simp add: covered_def)
  ultimately show ?thesis using assms covered_add [OF assms(2) Some, of 0 0 a]
    by (auto simp: pending_credit_rows_def split: if_splits)
qed

lemma reserve_covered:
  assumes "alone (reserve_rows i c a) m = Some m'" and "covered m"
  shows "covered m'"
proof (cases "m i")
  case None
  then show ?thesis using assms by (simp add: reserve_rows_def)
next
  case (Some x)
  then show ?thesis using assms covered_add [OF assms(2) Some, of "- a" a 0]
    by (auto simp: reserve_rows_def split: if_splits)
qed

definition rows_identified :: "rows \<Rightarrow> bool" where
  "rows_identified m \<longleftrightarrow> (\<forall>i x. m i = Some x \<longrightarrow> ws_id x = i)"

lemma add_identified: "rows_identified m \<Longrightarrow> m i = Some x \<Longrightarrow> rows_identified (m(i \<mapsto> add_balances da dl dp x))"
  by (simp add: rows_identified_def add_balances_def)

lemma alone_identified: "alone b m = Some m' \<Longrightarrow> rows_identified m \<Longrightarrow> rows_identified m'"
proof (induction b arbitrary: m)
  case (AddRow i da dl dp b)
  from AddRow.prems(1) obtain x where "m i = Some x" "alone b (m(i \<mapsto> add_balances da dl dp x)) = Some m'"
    by (auto split: option.splits)
  with AddRow show ?case by (blast intro: add_identified)
next
  case (LockRow i f)
  from LockRow.prems show ?case by (intro LockRow.IH [of "f (m i)" m]) simp_all
next
  case (ReadRow i f)
  from ReadRow.prems show ?case by (intro ReadRow.IH [of "f (m i)" m]) simp_all
qed simp_all

lemma transfer_covered:
  assumes run: "alone (transfer_rows i j c a) m = Some m'" and ok: "covered m" "rows_identified m"
    and ij: "i \<noteq> j" and a: "0 \<le> a"
  shows "covered m'"
proof -
  have id: "ws_id x = k" if "m k = Some x" for k x using ok(2) that by (simp add: rows_identified_def)
  from run obtain x y where xy: "m i = Some x" "m j = Some y"
    by (auto simp: transfer_rows_def lock_order_def Let_def split: option.splits if_splits)
  with run id ij have m': "m' = m(i \<mapsto> add_balances (- a) 0 0 x, j \<mapsto> add_balances a 0 0 y)"
    and enough: "a \<le> ws_availableBalance x"
    by (auto simp: transfer_rows_def lock_order_def Let_def split: if_splits)
  have paid: "covered (m(i \<mapsto> add_balances (- a) 0 0 x))"
    by (rule covered_add [OF ok(1) xy(1)]) (use enough in simp)
  have "0 \<le> ws_availableBalance y" using ok(1) xy(2) by (simp add: covered_def)
  then show ?thesis unfolding m' by (intro covered_add [OF paid]) (use a ij xy(2) in simp_all)
qed

lemma money_block_covered:
  assumes "money_block b" and run: "alone b m = Some m'" and ok: "covered m" "rows_identified m"
  shows "covered m'"
proof -
  from assms(1) obtain d k where k: "books_ok d" "task_ok d k" "b = row_program d k"
    by (auto simp: money_block_def)
  show ?thesis
  proof (cases k)
    case (Transfer_task u dto sw rw)
    with k run show ?thesis by (auto intro: transfer_covered [OF _ ok])
  next
    case (Dispatch_task c e r)
    with k have "0 < tc_amount c" by (auto intro: context_amount)
    with Dispatch_task k run ok show ?thesis by (auto intro: dispatch_covered)
  qed (use k run ok in \<open>auto simp: on_wallet_def split: option.splits
        intro: pending_covered reserve_covered\<close>)
qed

lemma serially_covered:
  "serially l m = Some m' \<Longrightarrow> \<forall>b \<in> set l. money_block b \<Longrightarrow> covered m \<Longrightarrow> rows_identified m \<Longrightarrow> covered m'"
  by (induction l arbitrary: m)
     (auto simp: bind_eq_Some_conv intro: money_block_covered alone_identified)

lemma rows_of_identified: "rows_identified (rows_of d)"
  by (auto simp: rows_identified_def rows_of_def dest: find_wallet_id)

lemma books_covered: "books_ok d \<Longrightarrow> covered (rows_of d)"
  by (auto simp: covered_def rows_of_def dest: find_wallet_mem books_nonneg)

section \<open>Two transfers at once\<close>

definition demo_task :: task where
  "demo_task = Transfer_task ''id0'' demo_transfer (demo_wallet ''id0'' ''id1'' 1000000 0 0) (demo_wallet ''id2'' ''id3'' 0 0 0)"

definition demo_block :: stmt where
  "demo_block = row_program demo_settled_db demo_task"

lemma demo_task_ok: "task_ok d demo_task"
  by (simp add: demo_task_def demo_transfer_def demo_wallet_def)

lemma demo_money_block: "money_block demo_block"
  unfolding money_block_def demo_block_def using demo_settled_books demo_task_ok by blast

definition demo_paid :: rows where
  "demo_paid = rows_of (demo_settled_db\<lparr>wallets :=
     [demo_wallet ''id0'' ''id1'' 600000 0 0, demo_wallet ''id2'' ''id3'' 400000 0 0]\<rparr>)"

lemma demo_rows:
  "rows_of demo_settled_db = [''id1'' \<mapsto> snapshot (demo_wallet ''id0'' ''id1'' 1000000 0 0),
      ''id3'' \<mapsto> snapshot (demo_wallet ''id2'' ''id3'' 0 0 0)]"
  "demo_paid = [''id1'' \<mapsto> snapshot (demo_wallet ''id0'' ''id1'' 600000 0 0),
      ''id3'' \<mapsto> snapshot (demo_wallet ''id2'' ''id3'' 400000 0 0)]"
  by (auto simp: demo_paid_def rows_of_def demo_settled_db_def demo_wallet_def)

lemma demo_block_rows: "demo_block = transfer_rows ''id1'' ''id3'' USD 400000"
  by (simp add: demo_block_def demo_task_def demo_transfer_def demo_wallet_def)

text \<open>The first of two transfers commits while the second waits for its locks.\<close>

lemma demo_schedule:
  "schedule [0, 0, 0, 0, 0] (rows_of demo_settled_db, map begun [demo_block, demo_block], [])
     = Some (demo_paid, [begun demo_block], [demo_block])"
  unfolding demo_rows demo_block_rows
  by (simp add: transfer_rows_def lock_order_def admitted_def add_balances_def snapshot_def demo_wallet_def
      work_at_def statement_def begun_def unlocked_def)

section \<open>What the row locks give\<close>

text \<open>
  C21. Every money block is its row statements: run as a whole, a block that returns changed
  the wallet rows exactly as its locks, checks and updates in the code's order say, and a
  block that throws left the database.
\<close>

theorem blocks_run_their_statements:
  assumes "task_ok (db w) k"
  shows "case task_block k w of
      (Inr _, w') \<Rightarrow> alone (row_program (db w) k) (rows_of (db w)) = Some (rows_of (db w'))
    | (Inl e, w') \<Rightarrow> db w' = db w"
  using task_block_rows [OF assms] by (auto simp: wp_def runs_rows_def split: prod.splits sum.splits)

theorem blocks_run_their_statements_witness:
  "alone (dispatch_rows demo_context demo_result) (rows_of (db demo_called)) = Some (rows_of demo_settled_db)"
proof -
  have "task_ok (db demo_called) (Dispatch_task demo_context ''id5'' demo_result)"
    using demo_called_books(2) by (simp add: demo_called_def demo_pending_def)
  moreover have "task_block (Dispatch_task demo_context ''id5'' demo_result) demo_called = (Inr (), demo_settled)"
    using demo_settle_run by (simp add: dispatch_def demo_result_def)
  ultimately show ?thesis
    using blocks_run_their_statements [of demo_called "Dispatch_task demo_context ''id5'' demo_result"]
    by (simp add: demo_settled_def)
qed

text \<open>
  C23. The row locks make interleaved requests as good as one after another: however the
  statements of any number of money blocks, begun at any time and aborted at any point,
  interleave on the rows of a database whose books are in order, the committed rows are
  those of running the committed blocks alone in the order of their commits, and no wallet
  is overdrawn.
\<close>

theorem money_blocks_serialisable:
  assumes "books_ok d0" and "running_from money_block (rows_of d0) (m, ts, l)"
  shows "serially l (rows_of d0) = Some m \<and> (\<forall>i x. m i = Some x \<longrightarrow> 0 \<le> ws_availableBalance x)"
proof -
  have run: "serially l (rows_of d0) = Some m"
    using running_serial [OF assms(2) money_block_reads_locked] by (simp add: serial_so_far_def)
  have "\<forall>b \<in> set l. money_block b" using running_kinds [OF assms(2)] by simp
  from serially_covered [OF run this books_covered [OF assms(1)] rows_of_identified]
  show ?thesis using run by (simp add: covered_def)
qed

theorem money_blocks_serialisable_witness:
  "serially [demo_block] (rows_of demo_settled_db) = Some demo_paid
   \<and> map_option ws_availableBalance (demo_paid ''id1'') = Some 600000"
proof -
  have "running_from money_block (rows_of demo_settled_db) (demo_paid, [begun demo_block], [demo_block])"
    by (rule schedule_running [OF _ demo_schedule]) (simp add: demo_money_block)
  from money_blocks_serialisable [OF demo_settled_books this] show ?thesis
    by (simp add: demo_rows demo_wallet_def)
qed

text \<open>
  C32. The row locks never deadlock, and every schedule ends: from any state the database
  gets into, whatever statements run next, as long as transactions are open some statement
  can run, and after at most five statements for each of them all have ended.
\<close>

theorem row_locks_never_deadlock:
  assumes "running_from money_block m0 (m, ts, l)" and "(work ^^ n) (m, ts, l) (m', us, l')"
  shows "(us = [] \<or> (\<exists>s. work (m', us, l') s)) \<and> n \<le> 5 * length ts"
  using running_progress [OF running_works [OF assms] money_block_ascending]
    running_bounded [OF assms(1) money_block_short assms(2)] by auto

theorem row_locks_never_deadlock_witness:
  "(\<exists>s. work (demo_paid, [begun demo_block], [demo_block]) s) \<and> length [0, 0, 0, 0, 0 :: nat] \<le> 10"
proof -
  have "running_from money_block (rows_of demo_settled_db) (rows_of demo_settled_db, map begun [demo_block, demo_block], [])"
    by (rule begin_all) (simp add: demo_money_block)
  from row_locks_never_deadlock [OF this schedule_works [OF demo_schedule]] show ?thesis by simp
qed

section \<open>A read without a lock\<close>

text \<open>
  Closing an account reads the wallet row without locking it, so it is not among the money
  blocks: a deposit may commit between its check and its commit, and then the rows are not
  those of any check that came after the deposit.
\<close>

definition close_rows :: "uuid option \<Rightarrow> stmt" where
  "close_rows walletId = (case walletId of
     None \<Rightarrow> Commit
   | Some i \<Rightarrow> ReadRow i (\<lambda>row. case row of
       None \<Rightarrow> Commit
     | Some s \<Rightarrow> if ws_availableBalance s > 0 \<or> ws_lockedBalance s > 0 \<or> ws_pendingBalance s > 0
         then Rollback else Commit))"

theorem closing_races_with_deposit:
  defines "close \<equiv> close_rows (Some ''id3'')" and "credit \<equiv> pending_credit_rows ''id3'' USD 50000"
  shows "\<exists>m. running_from (\<lambda>b. b = close \<or> b = credit) (rows_of demo_settled_db) (m, [], [credit, close])
    \<and> serially [credit, close] (rows_of demo_settled_db) = None"
proof -
  let ?m = "(rows_of demo_settled_db)(''id3'' \<mapsto> snapshot (demo_wallet ''id2'' ''id3'' 0 0 50000))"
  have "schedule [0, 1, 1, 1, 0] (rows_of demo_settled_db, map begun [close, credit], []) = Some (?m, [], [credit, close])"
    unfolding demo_rows close_def credit_def close_rows_def pending_credit_rows_def admitted_def
    by (simp add: add_balances_def snapshot_def demo_wallet_def work_at_def statement_def begun_def unlocked_def)
  then have "running_from (\<lambda>b. b = close \<or> b = credit) (rows_of demo_settled_db) (?m, [], [credit, close])"
    by (rule schedule_running [rotated]) simp
  moreover have "serially [credit, close] (rows_of demo_settled_db) = None"
    unfolding demo_rows close_def credit_def
    by (simp add: close_rows_def pending_credit_rows_def admitted_def add_balances_def snapshot_def demo_wallet_def)
  ultimately show ?thesis by blast
qed

end
