(* ===== verification/Endpoint_Total.thy ===== *)
theory Endpoint_Total
  imports Endpoints Settlement_Total
begin

text \<open>
  The other half of the endpoints' contract: a request the guards admit is carried out.
  \<open>fresh_ids\<close> says that the next generated ids are new to their tables; with an unused key,
  room in the decimal columns and an admissible wallet each block returns.
\<close>

section \<open>Rows that can be created\<close>

definition fresh_ids :: "nat \<Rightarrow> world \<Rightarrow> bool" where
  "fresh_ids k w \<longleftrightarrow> distinct (map (uuids w) [uuid_next w..<uuid_next w + k])
     \<and> list_all (\<lambda>i. list_all (\<lambda>t. tx_id t \<noteq> i) (transactions (db w))
         \<and> list_all (\<lambda>e. le_id e \<noteq> i) (ledgerEntries (db w))
         \<and> list_all (\<lambda>e. oe_id e \<noteq> i) (outboxEvents (db w)))
       (map (uuids w) [uuid_next w..<uuid_next w + k])"

lemma total_transaction_create:
  assumes "\<not> key_used (ti_idempotencyKey input) (db w)" and "decimal_fits (ti_amount input)"
    and "list_all (\<lambda>t. tx_id t \<noteq> uuids w (uuid_next w)) (transactions (db w))"
    and "case_option True (has_wallet (db w)) (ti_senderWalletId input)"
    and "case_option True (has_wallet (db w)) (ti_receiverWalletId input)"
    and Q: "Q (new_transaction input s (uuids w (uuid_next w)) (clock w))
      (w\<lparr>uuid_next := Suc (uuid_next w), db := (db w)\<lparr>transactions := transactions (db w)
         @ [new_transaction input s (uuids w (uuid_next w)) (clock w)]\<rparr>\<rparr>)"
  shows "wp (transaction_create input s) Q E w"
  using assms
  by (auto simp: transaction_create_def wp_t_create transactions_t_def Let_def list_ex_iff list_all_iff key_used_def
    split: option.splits)

lemma total_outboxEvent_create:
  assumes "has_transaction (db w) (oi_transactionId input)"
    and "list_all (\<lambda>e. oe_id e \<noteq> uuids w (uuid_next w)) (outboxEvents (db w))"
    and Q: "\<And>r e. Q r (w\<lparr>uuid_next := Suc (uuid_next w), db := (db w)\<lparr>outboxEvents := outboxEvents (db w) @ [e]\<rparr>\<rparr>)"
  shows "wp (outboxEvent_create input) Q E w"
  using assms(1,2)
  by (auto simp: outboxEvent_create_def wp_t_create outboxEvents_t_def Let_def list_ex_iff list_all_iff
    new_outboxEvent_def intro: Q [unfolded new_outboxEvent_def])

text \<open>
  A second ledger entry of the same block: its id must differ from the first one's, so the
  rule names the row that was added.
\<close>

lemma total_ledgerEntry_row:
  assumes "case_option False (has_wallet (db w)) (li_walletId input)" and "has_transaction (db w) (li_transactionId input)"
    and "decimal_fits (li_amount input)" and "decimal_fits (li_balanceAfter input)"
    and "list_all (\<lambda>e. le_id e \<noteq> uuids w (uuid_next w)) (ledgerEntries (db w))"
    and Q: "\<And>r e. le_id e = uuids w (uuid_next w) \<Longrightarrow>
      Q r (w\<lparr>uuid_next := Suc (uuid_next w), db := (db w)\<lparr>ledgerEntries := ledgerEntries (db w) @ [e]\<rparr>\<rparr>)"
  shows "wp (ledgerEntry_create input) Q E w"
  using assms(1-5)
  by (auto simp: ledgerEntry_create_def wp_t_create ledgerEntries_t_def Let_def list_ex_iff list_all_iff
    new_ledgerEntry_def intro!: Q split: option.splits)

lemmas create_rules = total_transaction_create total_outboxEvent_create total_ledgerEntry_row wp_now_total

lemmas create_simps = has_wallet_def has_transaction_def fresh_ids_def numeral_eq_Suc upt_rec

lemma executeTransfer_returns:
  assumes "\<not> key_used (ti_idempotencyKey input) (db w)" and "fresh_ids 4 w" and "decimal_fits (ti_amount input)"
    and "decimal_fits a" and "decimal_fits b"
    and "ti_senderWalletId input = Some i" and "list_ex (\<lambda>x. w_id x = i) (wallets (db w))"
    and "ti_receiverWalletId input = Some j" and "list_ex (\<lambda>x. w_id x = j) (wallets (db w))"
  shows "wp (executeTransfer input a b p) (\<lambda>_ _. True) (\<lambda>_ _. False) w"
  unfolding executeTransfer_def wp_bindP wp_thenP wp_ret_fun
  by (intro create_rules) (use assms in \<open>simp_all add: create_simps\<close>)

lemma initiateDeposit_returns:
  assumes "\<not> key_used (ti_idempotencyKey input) (db w)" and "fresh_ids 3 w" and "decimal_fits (ti_amount input)"
    and "decimal_fits a" and "ti_receiverWalletId input = Some j" and "list_ex (\<lambda>x. w_id x = j) (wallets (db w))"
  shows "wp (initiateDeposit input a p) (\<lambda>_ _. True) (\<lambda>_ _. False) w"
  unfolding initiateDeposit_def wp_bindP wp_thenP wp_ret_fun
  by (intro create_rules) (use assms in \<open>simp_all add: create_simps\<close>)

lemma initiateWithdrawal_returns:
  assumes "\<not> key_used (ti_idempotencyKey input) (db w)" and "fresh_ids 3 w" and "decimal_fits (ti_amount input)"
    and "decimal_fits a" and "ti_senderWalletId input = Some j" and "list_ex (\<lambda>x. w_id x = j) (wallets (db w))"
  shows "wp (initiateWithdrawal input a p) (\<lambda>_ _. True) (\<lambda>_ _. False) w"
  unfolding initiateWithdrawal_def wp_bindP wp_thenP wp_ret_fun
  by (intro create_rules) (use assms in \<open>simp_all add: create_simps\<close>)

section \<open>The blocks return\<close>

text \<open>A wallet that the guards admit for a debit or credit in a currency.\<close>

definition usable :: "currency \<Rightarrow> wallet \<Rightarrow> bool" where
  "usable c x \<longleftrightarrow> w_status x = ACTIVE \<and> w_currency x = c"

lemma fresh_ids_moved [simp]: "fresh_ids k (moved i da dl dp w) = fresh_ids k w"
  by (simp add: fresh_ids_def)

lemma key_used_moved [simp]: "key_used k (db (moved i da dl dp w)) = key_used k (db w)"
  by (simp add: key_used_def)

lemma found_listed: "find (\<lambda>x. w_id x = i) ws = Some x \<Longrightarrow> list_ex (\<lambda>x. w_id x = i) ws"
  by (auto simp: list_ex_iff dest: find_Some_iff_hd)

lemma deposit_block_returns:
  assumes "find (\<lambda>x. w_userId x = u) (wallets (db w)) = Some x"
    and "find (\<lambda>y. w_id y = w_id x) (wallets (db w)) = Some x" and "usable (dto_currency dto) x"
    and "\<not> key_used (dto_idempotencyKey dto) (db w)" and "fresh_ids 3 w" and "decimal_fits (amount dto)"
    and "room (w_id x) 0 0 (amount dto) (db w)"
  shows "wp (deposit_block u dto) (\<lambda>_ _. True) (\<lambda>_ _. False) w"
proof -
  have "decimal_fits (availableBalance x)" "decimal_fits (lockedBalance x)" "decimal_fits (pendingBalance x + amount dto)"
    using assms(2,7) by (simp_all add: room_def)
  then have fits: "t_fits wallets_t (move 0 0 (amount dto) (clock w) x)" and new: "decimal_fits (pendingBalance x + amount dto)"
    by (simp_all add: wallets_t_def)
  show ?thesis
    unfolding deposit_block_def wp_withTransaction
    by (simp add: wp_bindP wp_thenP wp_decimal_toString wp_findByUserId wp_lockWallet assms(1,2) wp_assertActive wp_assertCurrencyMatch
      assms(3) [unfolded usable_def] snapshot_def creditPending.op_wp Let_def fits)
       (rule initiateDeposit_returns, use assms new found_listed [OF assms(2)] in simp_all)
qed


lemma withdraw_block_returns:
  assumes "find (\<lambda>x. w_userId x = u) (wallets (db w)) = Some x"
    and "find (\<lambda>y. w_id y = w_id x) (wallets (db w)) = Some x" and "usable (dto_currency dto) x"
    and "amount dto \<le> availableBalance x"
    and "\<not> key_used (dto_idempotencyKey dto) (db w)" and "fresh_ids 3 w" and "decimal_fits (amount dto)"
    and "room (w_id x) (- amount dto) (amount dto) 0 (db w)"
  shows "wp (withdraw_block u dto) (\<lambda>_ _. True) (\<lambda>_ _. False) w"
proof -
  have "decimal_fits (availableBalance x - amount dto)" "decimal_fits (pendingBalance x)"
    and new: "decimal_fits (lockedBalance x + amount dto)"
    using assms(2,8) by (simp_all add: room_def)
  then have fits: "t_fits wallets_t (move (- amount dto) (amount dto) 0 (clock w) x)" by (simp add: wallets_t_def)
  show ?thesis
    unfolding withdraw_block_def wp_withTransaction
    by (simp add: wp_bindP wp_thenP wp_decimal_toString wp_findByUserId wp_lockWallet assms(1,2) wp_assertActive wp_assertCurrencyMatch
      assms(3) [unfolded usable_def] snapshot_def assertSufficientBalance_def assms(4) [THEN leD] wp_ret
      debitAvailableAndLock.op_wp Let_def fits)
       (rule initiateWithdrawal_returns, use assms new found_listed [OF assms(2)] in simp_all)
qed

lemma transfer_block_returns:
  assumes "find (\<lambda>y. w_id y = i) (wallets (db w)) = Some s" and "find (\<lambda>y. w_id y = j) (wallets (db w)) = Some r"
    and "w_id sw = i" and "w_id rw = j" and ij: "i \<noteq> j"
    and s: "usable (dto_currency dto) s" and r: "usable (dto_currency dto) r"
    and enough: "amount dto \<le> availableBalance s"
    and "\<not> key_used (dto_idempotencyKey dto) (db w)" and "fresh_ids 4 w" and "decimal_fits (amount dto)"
    and rs: "room i (- amount dto) 0 0 (db w)" and rr: "room j (amount dto) 0 0 (db w)"
  shows "wp (transfer_block u dto sw rw) (\<lambda>_ _. True) (\<lambda>_ _. False) w"
proof -
  note ids = find_wallet_id [OF assms(1)] find_wallet_id [OF assms(2)]
  have ns: "decimal_fits (availableBalance s - amount dto)" and nr: "decimal_fits (availableBalance r + amount dto)"
    and rest: "decimal_fits (lockedBalance s)" "decimal_fits (pendingBalance s)"
      "decimal_fits (lockedBalance r)" "decimal_fits (pendingBalance r)"
    using assms(1,2) rs rr by (simp_all add: room_def)
  have f1: "t_fits wallets_t (move (- amount dto) 0 0 (clock w) s)"
    and f2: "t_fits wallets_t (move (amount dto) 0 0 (clock w) r)"
    using ns nr rest by (simp_all add: wallets_t_def)
  have run: "wp (executeTransfer input (availableBalance s - amount dto) (availableBalance r + amount dto) p)
      (\<lambda>_ _. True) (\<lambda>_ _. False) (moved j (amount dto) 0 0 (moved i (- amount dto) 0 0 w))"
    if "ti_idempotencyKey input = dto_idempotencyKey dto" "ti_amount input = amount dto"
      "ti_senderWalletId input = Some i" "ti_receiverWalletId input = Some j" for input p
    by (rule executeTransfer_returns [where i = i and j = j])
       (use that assms ns nr found_listed [OF assms(1)] found_listed [OF assms(2)] in simp_all)
  obtain a b where ab: "lock_order i j = (a, b)" and which: "(a = i \<and> b = j) \<or> (a = j \<and> b = i)"
    by (cases "i < j") (auto simp: lock_order_def)
  from which show ?thesis
    unfolding transfer_block_def wp_withTransaction assms(3,4) ab
    by (elim disjE conjE)
       (simp_all add: Let_def wp_bindP wp_thenP wp_decimal_toString wp_lockWallet assms(1,2) ids ij ij [symmetric] snapshot_def
          wp_assertActive wp_assertCurrencyMatch s [unfolded usable_def] r [unfolded usable_def]
          assertSufficientBalance_def enough [THEN leD] wp_ret debitAvailable.op_wp creditAvailable.op_wp
          find_move_wallets f1 f2 run)
qed

text \<open>Enlisting a provider payment: the transaction and its outbox event.\<close>

lemma total_enlist:
  assumes "\<not> key_used (ti_idempotencyKey input) (db w)" and "fresh_ids 2 w" and "decimal_fits (ti_amount input)"
    and "case_option True (has_wallet (db w)) (ti_senderWalletId input)"
    and "case_option True (has_wallet (db w)) (ti_receiverWalletId input)"
    and "\<And>s t. oi_transactionId (g s t) = tx_id t"
  shows "wp (bindP (transaction_create input None) (\<lambda>t. bindP (decimal_toString d) (\<lambda>s. thenP (outboxEvent_create (g s t)) (ret t))))
    (\<lambda>_ _. True) (\<lambda>_ _. False) w"
  unfolding wp_bindP wp_thenP wp_decimal_toString wp_ret_fun
  by (intro create_rules) (use assms in \<open>simp_all add: create_simps\<close>)

lemma confirmDeposit_block_returns:
  assumes "find (\<lambda>x. w_userId x = u) (wallets (db w)) = Some x"
    and "find (\<lambda>y. w_id y = w_id x) (wallets (db w)) = Some x" and "usable (dto_currency dto) x"
    and "\<not> key_used (dto_idempotencyKey dto) (db w)" and "fresh_ids 2 w" and "decimal_fits (amount dto)"
    and "room (w_id x) 0 0 (amount dto) (db w)"
  shows "wp (confirmDeposit_block u dto) (\<lambda>_ _. True) (\<lambda>_ _. False) w"
proof -
  have "decimal_fits (availableBalance x)" "decimal_fits (lockedBalance x)" "decimal_fits (pendingBalance x + amount dto)"
    using assms(2,7) by (simp_all add: room_def)
  then have fits: "t_fits wallets_t (move 0 0 (amount dto) (clock w) x)" by (simp add: wallets_t_def)
  show ?thesis
    unfolding confirmDeposit_block_def wp_withTransaction wp_bindP [of "findByUserId u"] wp_findByUserId assms(1)
      option.case wp_bindP [of "lockWallet (w_id x)"] wp_lockWallet assms(2)
    by (simp add: wp_thenP wp_assertActive wp_assertCurrencyMatch assms(3) [unfolded usable_def] snapshot_def
         creditPending.op_wp Let_def assms(2) fits)
       (rule total_enlist, use assms found_listed [OF assms(2)] in \<open>simp_all add: has_wallet_def\<close>)
qed


text \<open>The payout destination is linked to the user.\<close>

definition payout_ready :: "uuid \<Rightarrow> provider \<Rightarrow> db \<Rightarrow> bool" where
  "payout_ready u p d = (case find (\<lambda>v. u_id v = u) (users d) of
     None \<Rightarrow> p = INTERNAL
   | Some v \<Rightarrow> (p = STRIPE \<longrightarrow> truthy (stripeConnectAccountId v)) \<and> (p = PAYPAL \<longrightarrow> truthy (paypalEmail v)))"

lemma total_destination:
  assumes "payout_ready u p (db w)"
  shows "p = STRIPE \<Longrightarrow> (\<And>a. Q a w) \<Longrightarrow> wp (resolveStripeConnectAccount u) Q E w"
    and "p = PAYPAL \<Longrightarrow> (\<And>a. Q a w) \<Longrightarrow> wp (resolvePaypalEmail u) Q E w"
  using assms
  by (auto simp: payout_ready_def resolveStripeConnectAccount_def resolvePaypalEmail_def connect_findById_def
    findUserById_payment_def find_user_def users_t_def wp_simps truthy_def split: option.splits)

lemma createPayout_block_returns:
  assumes "find (\<lambda>x. w_userId x = u) (wallets (db w)) = Some x"
    and "find (\<lambda>y. w_id y = w_id x) (wallets (db w)) = Some x" and "usable (dto_currency dto) x"
    and "amount dto \<le> availableBalance x" and "payout_ready u (cp_provider dto) (db w)"
    and "\<not> key_used (dto_idempotencyKey dto) (db w)" and "fresh_ids 2 w" and "decimal_fits (amount dto)"
    and "room (w_id x) (- amount dto) (amount dto) 0 (db w)"
  shows "wp (createPayout_block u dto) (\<lambda>_ _. True) (\<lambda>_ _. False) w"
proof -
  let ?v = "moved (w_id x) (- amount dto) (amount dto) 0 w"
  have "decimal_fits (availableBalance x - amount dto)" "decimal_fits (pendingBalance x)"
    "decimal_fits (lockedBalance x + amount dto)"
    using assms(2,9) by (simp_all add: room_def)
  then have fits: "t_fits wallets_t (move (- amount dto) (amount dto) 0 (clock w) x)" by (simp add: wallets_t_def)
  have ready: "payout_ready u (cp_provider dto) (db ?v)" using assms(5) by (simp add: payout_ready_def)
  have enlist: "wp (bindP (transaction_create input None) (\<lambda>t. bindP (decimal_toString d) (\<lambda>s. thenP (outboxEvent_create (g s t)) (ret t)))) (\<lambda>_ _. True) (\<lambda>_ _. False) ?v"
    if "ti_idempotencyKey input = dto_idempotencyKey dto" "ti_amount input = amount dto"
      "ti_senderWalletId input = Some (w_id x)" "ti_receiverWalletId input = None"
      "\<And>s t. oi_transactionId (g s t) = tx_id t" for input g d
    by (rule total_enlist) (use that assms found_listed [OF assms(2)] in \<open>simp_all add: has_wallet_def\<close>)
  show ?thesis
    unfolding createPayout_block_def wp_withTransaction wp_bindP [of "findByUserId u"] wp_findByUserId assms(1)
      option.case wp_bindP [of "lockWallet (w_id x)"] wp_lockWallet assms(2)
    by (cases "cp_provider dto")
       (simp_all add: wp_thenP wp_assertActive wp_assertCurrencyMatch assms(3) [unfolded usable_def] snapshot_def
         assertSufficientBalance_def assms(4) [THEN leD] wp_ret wp_bindP [of "bindP _ _"] wp_bindP [of "ret _"]
         wp_bindP [of "resolveStripeConnectAccount u"] wp_bindP [of "resolvePaypalEmail u"]
         total_destination [OF ready]
         debitAvailableAndLock.op_wp Let_def assms(2) fits enlist)
qed

end
