(* ===== verification/Money_Properties.thy ===== *)
theory Money_Properties
  imports Demo Endpoint_Total
begin

text \<open>
  Properties of the money endpoints: idempotency, transfers, withdrawals and queries.
\<close>

section \<open>Idempotency\<close>

text \<open>
  C17. A used idempotency key never moves money again: each of the five endpoints, called
  with a key that a stored transaction carries, returns that transaction and leaves the
  database as it is, whatever the rest of the request says.
\<close>

theorem used_key_replays:
  assumes "key_used k (db w)"
  shows "(dto_idempotencyKey dto = k \<longrightarrow> (\<exists>t w'. t \<in> set (transactions (db w)) \<and> idempotencyKey t = k
            \<and> deposit u dto w = (Inr (replayed t), w') \<and> db w' = db w))
    \<and> (dto_idempotencyKey dto = k \<longrightarrow> (\<exists>t w'. t \<in> set (transactions (db w)) \<and> idempotencyKey t = k
            \<and> withdraw u dto w = (Inr (replayed t), w') \<and> db w' = db w))
    \<and> (dto_idempotencyKey tdto = k \<and> u \<noteq> recipientUserId tdto \<longrightarrow>
          (\<exists>t w'. t \<in> set (transactions (db w)) \<and> idempotencyKey t = k
            \<and> transfer u tdto w = (Inr (replayed t), w') \<and> db w' = db w))
    \<and> (dto_idempotencyKey cdto = k \<longrightarrow> (\<exists>t w'. t \<in> set (transactions (db w)) \<and> idempotencyKey t = k
            \<and> confirmDeposit_service u cdto w = (Inr (tx_id t, tx_status t), w') \<and> db w' = db w))
    \<and> (dto_idempotencyKey pdto = k \<longrightarrow> (\<exists>t w'. t \<in> set (transactions (db w)) \<and> idempotencyKey t = k
            \<and> createPayout_service u pdto w = (Inr (tx_id t, tx_status t), w') \<and> db w' = db w))"
  using assms deposit.used_replays [of dto w u] withdraw.used_replays [of dto w u]
    transfer.used_replays [of u tdto w] confirmDeposit.used_replays [of cdto w u]
    createPayout.used_replays [of pdto w u]
  unfolding payment_result_def by blast

theorem used_key_replays_witness:
  "\<exists>t w'. idempotencyKey t = ''k1'' \<and> deposit ''id2''
      \<lparr>amount = 1, dto_currency = EUR, dto_idempotencyKey = ''k1'', description = None\<rparr> demo_settled
    = (Inr (replayed t), w') \<and> db w' = demo_settled_db"
proof -
  have "key_used ''k1'' (db demo_settled)"
    by (simp add: key_used_def demo_settled_db_def demo_deposit_def)
  from conjunct1 [OF used_key_replays [OF this, where u = "''id2''" and dto =
      "\<lparr>amount = 1, dto_currency = EUR, dto_idempotencyKey = ''k1'', description = None\<rparr>"]]
  show ?thesis by auto
qed

text \<open>
  C18. The unique key decides a race: when several requests with one key have passed the
  check, only the first block commits. Every block that runs while its key is stored throws
  and leaves the database as it is.
\<close>

theorem racing_blocks_roll_back:
  assumes "key_used k (db w)"
  shows "(dto_idempotencyKey dto = k \<longrightarrow> (\<exists>e w'. deposit_block u dto w = (Inl e, w') \<and> db w' = db w))
    \<and> (dto_idempotencyKey dto = k \<longrightarrow> (\<exists>e w'. withdraw_block u dto w = (Inl e, w') \<and> db w' = db w))
    \<and> (dto_idempotencyKey tdto = k \<longrightarrow> (\<exists>e w'. transfer_block u tdto sw rw w = (Inl e, w') \<and> db w' = db w))
    \<and> (dto_idempotencyKey cdto = k \<longrightarrow> (\<exists>e w'. confirmDeposit_block u cdto w = (Inl e, w') \<and> db w' = db w))
    \<and> (dto_idempotencyKey pdto = k \<longrightarrow> (\<exists>e w'. createPayout_block u pdto w = (Inl e, w') \<and> db w' = db w))"
proof -
  have "dto_idempotencyKey tdto = k \<Longrightarrow> \<exists>e w'. transfer_block u tdto sw rw w = (Inl e, w') \<and> db w' = db w"
    using transfer_block_new [of u tdto sw rw w] assms
    by (cases "transfer_block u tdto sw rw w"; cases "fst (transfer_block u tdto sw rw w)") (auto simp: wp_def)
  then show ?thesis
    using assms deposit.block_used [of dto w u] withdraw.block_used [of dto w u]
      confirmDeposit.block_used [of cdto w u] createPayout.block_used [of pdto w u] by blast
qed

theorem racing_blocks_roll_back_witness:
  "\<exists>e w'. confirmDeposit_block ''id0'' demo_confirm demo_pending = (Inl e, w') \<and> db w' = demo_pending_db"
proof -
  have "key_used ''k1'' (db demo_pending)" "dto_idempotencyKey demo_confirm = ''k1''" "db demo_pending = demo_pending_db"
    by (simp_all add: key_used_def demo_pending_def demo_pending_db_def demo_deposit_def demo_confirm_def)
  with racing_blocks_roll_back [OF this(1), where cdto = demo_confirm and u = "''id0''"] show ?thesis by metis
qed

section \<open>Transfers\<close>

text \<open>A transfer whose two wallets, funds, key and decimal columns admit it.\<close>

definition transfer_admitted :: "uuid \<Rightarrow> TransferDto \<Rightarrow> wallet \<Rightarrow> wallet \<Rightarrow> world \<Rightarrow> bool" where
  "transfer_admitted u dto s r w \<longleftrightarrow> u \<noteq> recipientUserId dto
     \<and> find (\<lambda>x. w_userId x = u) (wallets (db w)) = Some s
     \<and> find (\<lambda>x. w_userId x = recipientUserId dto) (wallets (db w)) = Some r
     \<and> usable (dto_currency dto) s \<and> usable (dto_currency dto) r \<and> amount dto \<le> availableBalance s
     \<and> \<not> key_used (dto_idempotencyKey dto) (db w) \<and> fresh_ids 4 w \<and> decimal_fits (amount dto)
     \<and> room (w_id s) (- amount dto) 0 0 (db w) \<and> room (w_id r) (amount dto) 0 0 (db w)"

lemma wallet_by_id:
  assumes "books_ok d" and "x \<in> set (wallets d)"
  shows "find (\<lambda>y. w_id y = w_id x) (wallets d) = Some x"
  by (rule find_distinct_key) (use assms in \<open>simp_all add: books_ok_def\<close>)

lemma transfer_total:
  assumes ok: "books_ok (db w)" and a: "transfer_admitted u dto s r w"
  shows "\<exists>t ev v w'. transfer u dto w = (Inr (created t), w') \<and> db w' = db v
    \<and> posted t (transfer_entries s r t) ev
        (moved (w_id r) (amount dto) 0 0 (moved (w_id s) (- amount dto) 0 0 w)) v
    \<and> tx_type t = TRANSFER \<and> tx_status t = SETTLED \<and> tx_amount t = amount dto
    \<and> tx_currency t = dto_currency dto \<and> senderWalletId t = Some (w_id s)
    \<and> receiverWalletId t = Some (w_id r) \<and> idempotencyKey t = dto_idempotencyKey dto"
proof -
  note a' = a [unfolded transfer_admitted_def]
  then have mem: "s \<in> set (wallets (db w))" "r \<in> set (wallets (db w))" by (auto dest: find_Some_iff_hd)
  have ne: "w_id s \<noteq> w_id r" using a' wallets_of_two_users [OF ok, of u "recipientUserId dto"] by simp
  note ids = wallet_by_id [OF ok mem(1)] wallet_by_id [OF ok mem(2)]
  have "wp (transfer_block u dto s r) (\<lambda>_ _. True) (\<lambda>_ _. False) w"
    by (rule transfer_block_returns [OF ids refl refl ne]) (use a' in simp_all)
  from wp_conj [OF this transfer_block_run [OF ne]] obtain t v ev where run: "transfer_block u dto s r w = (Inr t, v)"
    and t: "tx_type t = TRANSFER \<and> tx_status t = SETTLED \<and> tx_amount t = amount dto
      \<and> tx_currency t = dto_currency dto \<and> senderWalletId t = Some (w_id s)
      \<and> receiverWalletId t = Some (w_id r) \<and> idempotencyKey t = dto_idempotencyKey dto
      \<and> posted t (transfer_entries s r t) ev
        (moved (w_id r) (amount dto) 0 0 (moved (w_id s) (- amount dto) 0 0 w)) v"
    by (auto simp: wp_def ids split: prod.splits sum.splits)
  have "transfer_attempt u dto w = (Inr t, v)"
    using a' run by (simp add: transfer_attempt_def bindP_def findByUserId_def t_find_def getP_def wallets_t_def)
  moreover have "find (\<lambda>t. idempotencyKey t = dto_idempotencyKey dto) (transactions (db w)) = None"
    using a' by (simp add: key_used_find)
  ultimately obtain w' where "transfer u dto w = (Inr (created t), w')" "db w' = db v"
    using transfer.first [of u dto w] a'
      audit_then_ret [of TRANSFER_SETTLED _ "created t" v]
    by (fastforce simp: bindP_def money_audit_def)
  with t show ?thesis by blast
qed

lemma demo_transfer_admitted:
  "transfer_admitted ''id0'' demo_transfer (demo_wallet ''id0'' ''id1'' 1000000 0 0) (demo_wallet ''id2'' ''id3'' 0 0 0) demo_settled"
  by (simp add: transfer_admitted_def demo_settled_db_def demo_wallet_def demo_transfer_def usable_def key_used_def
    demo_deposit_def fresh_ids_def upt_rec demo_event_def room_def decimal_fits_def)

text \<open>
  C19. An endpoint call is all or nothing: when it throws, the database is as before; when
  it changes the database, it has stored exactly one transaction, under its own key, which
  was not in use.
\<close>

theorem endpoint_all_or_nothing:
  "(\<forall>r w'. deposit u dto w = (r, w') \<and> db w' \<noteq> db w \<longrightarrow> returns (r, w')
       \<and> (\<exists>t. transactions (db w') = transactions (db w) @ [t] \<and> idempotencyKey t = dto_idempotencyKey dto
              \<and> \<not> key_used (dto_idempotencyKey dto) (db w)))
   \<and> (\<forall>r w'. withdraw u dto w = (r, w') \<and> db w' \<noteq> db w \<longrightarrow> returns (r, w')
       \<and> (\<exists>t. transactions (db w') = transactions (db w) @ [t] \<and> idempotencyKey t = dto_idempotencyKey dto
              \<and> \<not> key_used (dto_idempotencyKey dto) (db w)))
   \<and> (\<forall>r w'. transfer u tdto w = (r, w') \<and> db w' \<noteq> db w \<longrightarrow> returns (r, w')
       \<and> (\<exists>t. transactions (db w') = transactions (db w) @ [t] \<and> idempotencyKey t = dto_idempotencyKey tdto
              \<and> \<not> key_used (dto_idempotencyKey tdto) (db w)))"
proof -
  have *: "returns (r, w') \<and> (\<exists>t. transactions (db w') = transactions (db w) @ [t] \<and> idempotencyKey t = k \<and> \<not> key_used k (db w))"
    if "wp m (\<lambda>_ w'. db w' = db w \<or> (\<exists>t. \<not> key_used k (db w) \<and> idempotencyKey t = k
       \<and> transactions (db w') = transactions (db w) @ [t])) (\<lambda>_ w'. db w' = db w) w"
      "m w = (r, w')" "db w' \<noteq> db w" for m :: "(world, MutationResult) prog" and k r w'
    using that by (cases r) (auto simp: wp_def)
  show ?thesis
    using * [OF deposit.effect] * [OF withdraw.effect] * [OF transfer.effect] by blast
qed

theorem endpoint_all_or_nothing_witness:
  "\<exists>r w' t. transfer ''id0'' demo_transfer demo_settled = (r, w') \<and> returns (r, w')
     \<and> transactions (db w') = transactions demo_settled_db @ [t] \<and> idempotencyKey t = ''k2''"
proof -
  from transfer_total [OF _ demo_transfer_admitted] demo_settled_books obtain t ev v w' where
    run: "transfer ''id0'' demo_transfer demo_settled = (Inr (created t), w')" "db w' = db v"
    and p: "posted t (transfer_entries (demo_wallet ''id0'' ''id1'' 1000000 0 0) (demo_wallet ''id2'' ''id3'' 0 0 0) t) ev
        (moved ''id3'' 400000 0 0 (moved ''id1'' (- 400000) 0 0 demo_settled)) v"
    by (auto simp: demo_transfer_def demo_wallet_def)
  have "db w' \<noteq> db demo_settled" using postedD(3) [OF p] run(2) by auto
  with run endpoint_all_or_nothing [where tdto = demo_transfer and u = "''id0''" and w = demo_settled]
  show ?thesis by (fastforce simp: demo_transfer_def)
qed


text \<open>
  C20. A transfer is carried out in double entry: when both wallets are active, in the
  currency, the sender has the funds and the key is unused, the transfer returns a settled
  transaction; the sender's available balance falls and the receiver's rises by the amount,
  no other wallet changes, and the ledger gains one debit and one credit of the transaction
  whose \<open>balanceAfter\<close> are the new balances.
\<close>

theorem transfer_double_entry:
  assumes "books_ok (db w)" and "transfer_admitted u dto s r w"
  shows "\<exists>t w' d c. transfer u dto w = (Inr (created t), w') \<and> tx_type t = TRANSFER \<and> tx_status t = SETTLED
    \<and> tx_amount t = amount dto \<and> senderWalletId t = Some (w_id s) \<and> receiverWalletId t = Some (w_id r)
    \<and> transactions (db w') = transactions (db w) @ [t]
    \<and> wallets (db w') = map (\<lambda>x. if w_id x = w_id s then move (- amount dto) 0 0 (clock w) x
         else if w_id x = w_id r then move (amount dto) 0 0 (clock w) x else x) (wallets (db w))
    \<and> ledgerEntries (db w') = ledgerEntries (db w) @ [d, c]
    \<and> le_walletId d = w_id s \<and> direction d = DEBIT \<and> balanceAfter d = availableBalance s - amount dto
    \<and> le_walletId c = w_id r \<and> direction c = CREDIT \<and> balanceAfter c = availableBalance r + amount dto
    \<and> le_amount d = amount dto \<and> le_amount c = amount dto
    \<and> le_transactionId d = tx_id t \<and> le_transactionId c = tx_id t"
proof -
  from transfer_total [OF assms] obtain t ev v w' where run: "transfer u dto w = (Inr (created t), w')" "db w' = db v"
    and t: "tx_type t = TRANSFER" "tx_status t = SETTLED" "tx_amount t = amount dto"
      "senderWalletId t = Some (w_id s)" "receiverWalletId t = Some (w_id r)"
    and p: "posted t (transfer_entries s r t) ev
        (moved (w_id r) (amount dto) 0 0 (moved (w_id s) (- amount dto) 0 0 w)) v" by blast
  have ne: "w_id s \<noteq> w_id r"
    using assms(2) wallets_of_two_users [OF assms(1), of u "recipientUserId dto"]
    by (simp add: transfer_admitted_def)
  have ws: "wallets (db w') = map (\<lambda>x. if w_id x = w_id s then move (- amount dto) 0 0 (clock w) x
         else if w_id x = w_id r then move (amount dto) 0 0 (clock w) x else x) (wallets (db w))"
    using postedD(2) [OF p] run(2) ne by (auto simp: move_wallets_def)
  moreover have "transactions (db w') = transactions (db w) @ [t]" using postedD(3) [OF p] run(2) by simp
  moreover have "\<exists>d c. ledgerEntries (db w') = ledgerEntries (db w) @ [d, c]
    \<and> le_walletId d = w_id s \<and> direction d = DEBIT \<and> balanceAfter d = availableBalance s - amount dto
    \<and> le_walletId c = w_id r \<and> direction c = CREDIT \<and> balanceAfter c = availableBalance r + amount dto
    \<and> le_amount d = amount dto \<and> le_amount c = amount dto
    \<and> le_transactionId d = tx_id t \<and> le_transactionId c = tx_id t"
    using p run(2) t by (simp add: posted_def transfer_entries_def new_ledgerEntry_def upt_rec)
  ultimately show ?thesis using run(1) t by blast
qed

theorem transfer_double_entry_witness:
  "\<exists>t w'. transfer ''id0'' demo_transfer demo_settled = (Inr (created t), w')
     \<and> map availableBalance (wallets (db w')) = [600000, 400000]
     \<and> map balanceAfter (ledgerEntries (db w')) = [1000000, 600000, 400000]"
proof -
  let ?s = "demo_wallet ''id0'' ''id1'' 1000000 0 0" and ?r = "demo_wallet ''id2'' ''id3'' 0 0 0"
  have dto: "amount demo_transfer = 400000" by (simp add: demo_transfer_def)
  have start: "wallets (db demo_settled) = [?s, ?r]" "map balanceAfter (ledgerEntries (db demo_settled)) = [1000000]"
    "w_id ?s = ''id1''" "w_id ?r = ''id3''" "availableBalance ?s = 1000000" "availableBalance ?r = 0"
    by (simp_all add: demo_settled_db_def demo_wallet_def)
  have "books_ok (db demo_settled)" using demo_settled_books by simp
  from transfer_double_entry [OF this demo_transfer_admitted] obtain t w' d c where
    run: "transfer ''id0'' demo_transfer demo_settled = (Inr (created t), w')"
    "ledgerEntries (db w') = ledgerEntries (db demo_settled) @ [d, c]"
    "balanceAfter d = availableBalance ?s - amount demo_transfer" "balanceAfter c = availableBalance ?r + amount demo_transfer"
    and ws: "wallets (db w') = map (\<lambda>x. if w_id x = w_id ?s then move (- amount demo_transfer) 0 0 (clock demo_settled) x
         else if w_id x = w_id ?r then move (amount demo_transfer) 0 0 (clock demo_settled) x else x) (wallets (db demo_settled))"
    by blast
  have "map availableBalance (wallets (db w')) = [600000, 400000]"
    unfolding ws start(1) by (simp add: start dto)
  moreover have "map balanceAfter (ledgerEntries (db w')) = [1000000, 600000, 400000]"
    unfolding run(2) map_append start(2) using run(3,4) by (simp add: start dto)
  ultimately show ?thesis using run(1) by (intro exI [of _ t] exI [of _ w'] conjI)
qed

text \<open>
  Transfers cannot deadlock: the two wallets of a transfer are locked in an order that
  does not depend on who sends, so the relation \<open>holds one lock, waits for the other\<close> of any
  set of running transfers has no cycle.
\<close>

theorem transfers_cannot_deadlock:
  "lock_order a b = lock_order b a \<and> {fst (lock_order a b), snd (lock_order a b)} = {a, b}
   \<and> acyclic {(i, j). \<exists>(x, y) \<in> T. x \<noteq> y \<and> lock_order x y = (i, j)}"
proof -
  have "{(i, j). \<exists>(x, y) \<in> T. x \<noteq> y \<and> lock_order x y = (i, j)} \<subseteq> {(i, j). i < j}"
    by (auto simp: lock_order_def split: if_splits)
  moreover have "acyclic {(i :: string, j). i < j}"
    by (rule acyclicI) (auto dest: trancl_id [OF transI, THEN equalityD1, THEN subsetD, rotated])
  ultimately have "acyclic {(i, j). \<exists>(x, y) \<in> T. x \<noteq> y \<and> lock_order x y = (i, j)}" by (rule acyclic_subset [rotated])
  then show ?thesis by (auto simp: lock_order_def)
qed

section \<open>Withdrawals\<close>

text \<open>
  C22. A withdrawal is refused for the right reason and without a trace: for a user whose
  wallet is not active, has another currency, or holds too little, the block throws the
  documented HTTP error, tested in this order, and leaves the database as it is.
\<close>

theorem withdrawal_refusals:
  assumes "find (\<lambda>x. w_userId x = u) (wallets (db w)) = Some x"
    and "find (\<lambda>y. w_id y = w_id x) (wallets (db w)) = Some x"
    and "\<not> (usable (dto_currency dto) x \<and> amount dto \<le> availableBalance x)"
  shows "\<exists>w'. withdraw_block u dto w = (Inl (
      if w_status x \<noteq> ACTIVE
      then HttpExn ForbiddenException (''Wallet is '' @ toLowerCase (status_str (w_status x)) @ ''. Contact support.'')
      else if w_currency x \<noteq> dto_currency dto
      then HttpExn ForbiddenException (''Currency mismatch: wallet is '' @ currency_str (w_currency x) @
             '', transaction is '' @ currency_str (dto_currency dto) @ ''.'')
      else HttpExn UnprocessableEntityException ''Insufficient balance.''), w') \<and> db w' = db w"
proof -
  consider "w_status x \<noteq> ACTIVE" | "w_status x = ACTIVE" "w_currency x \<noteq> dto_currency dto"
    | "w_status x = ACTIVE" "w_currency x = dto_currency dto" "availableBalance x < amount dto"
    using assms(3) unfolding usable_def by (metis not_le)
  then have "wp (withdraw_block u dto) (\<lambda>_ _. False) (\<lambda>e w'. e = (
      if w_status x \<noteq> ACTIVE
      then HttpExn ForbiddenException (''Wallet is '' @ toLowerCase (status_str (w_status x)) @ ''. Contact support.'')
      else if w_currency x \<noteq> dto_currency dto
      then HttpExn ForbiddenException (''Currency mismatch: wallet is '' @ currency_str (w_currency x) @
             '', transaction is '' @ currency_str (dto_currency dto) @ ''.'')
      else HttpExn UnprocessableEntityException ''Insufficient balance.'') \<and> db w' = db w) w"
    unfolding withdraw_block_def wp_withTransaction
    by cases (simp_all add: wp_bindP wp_thenP wp_findByUserId wp_lockWallet assms(1,2) wp_assertActive
      wp_assertCurrencyMatch snapshot_def assertSufficientBalance_def wp_decimal_toString wp_audit wp_throw)
  then show ?thesis by (auto simp: wp_def split: prod.splits sum.splits)
qed

theorem withdrawal_refusals_witness:
  "\<exists>w'. withdraw_block ''id2'' \<lparr>amount = 5, dto_currency = USD, dto_idempotencyKey = ''k9'', description = None\<rparr> demo_settled
     = (Inl (HttpExn UnprocessableEntityException ''Insufficient balance.''), w') \<and> db w' = demo_settled_db"
  using withdrawal_refusals [of "''id2''" demo_settled "demo_wallet ''id2'' ''id3'' 0 0 0"
      "\<lparr>amount = 5, dto_currency = USD, dto_idempotencyKey = ''k9'', description = None\<rparr>"]
  by (simp add: demo_settled_db_def demo_wallet_def usable_def)

text \<open>
  Funds cannot be spent twice: a withdrawal or payout block that commits found at
  least its amount available under the row lock and moved exactly that amount from
  available to locked; in particular no committed debit overdraws the wallet.
\<close>

theorem committed_withdrawal_was_covered:
  "wp (withdraw_block u dto) (\<lambda>t w'. \<exists>x \<in> set (wallets (db w)). w_userId x = u \<and> usable (dto_currency dto) (the (find (\<lambda>y. w_id y = w_id x) (wallets (db w))))
       \<and> amount dto \<le> availableBalance (the (find (\<lambda>y. w_id y = w_id x) (wallets (db w))))
       \<and> wallets (db w') = move_wallets (w_id x) (- amount dto) (amount dto) 0 (clock w) (wallets (db w))
       \<and> tx_status t = INITIATED \<and> tx_type t = WITHDRAWAL) (\<lambda>_ w'. db w' = db w) w
   \<and> wp (createPayout_block u pdto) (\<lambda>t w'. \<exists>x \<in> set (wallets (db w)). w_userId x = u \<and> usable (dto_currency pdto) (the (find (\<lambda>y. w_id y = w_id x) (wallets (db w))))
       \<and> amount pdto \<le> availableBalance (the (find (\<lambda>y. w_id y = w_id x) (wallets (db w))))
       \<and> wallets (db w') = move_wallets (w_id x) (- amount pdto) (amount pdto) 0 (clock w) (wallets (db w))
       \<and> tx_status t = INITIATED \<and> tx_type t = WITHDRAWAL) (\<lambda>_ w'. db w' = db w) w"
  by (rule conjI; rule wp_mono, rule withdraw_block_run createPayout_block_run,
      auto dest!: postedD(2) find_Some_iff_hd [of "\<lambda>x. w_userId x = u"] simp: usable_def)

section \<open>Queries\<close>

text \<open>
  C24. A user only reads their own transactions: \<open>getTransaction\<close> returns a transaction
  exactly when it is stored under that id and the user's wallet is its sender or its
  receiver; otherwise the answer is the same 403, whether or not the id exists.
\<close>

theorem getTransaction_authorised:
  assumes "find (\<lambda>x. w_userId x = u) (wallets (db w)) = Some x"
  shows "getTransaction u i w =
    (case find (\<lambda>t. tx_id t = i) (transactions (db w)) of
       None \<Rightarrow> (Inl (HttpExn ForbiddenException ''Transaction not found.''), w)
     | Some t \<Rightarrow> if senderWalletId t = Some (w_id x) \<or> receiverWalletId t = Some (w_id x)
         then (Inr (toResult t), w) else (Inl (HttpExn ForbiddenException ''Transaction not found.''), w))"
  using assms
  by (auto simp: getTransaction_def findByUserId_def findTransactionById_def t_find_def getP_def bindP_def
    wallets_t_def transactions_t_def throw_def ret_def split: option.splits)

theorem getTransaction_authorised_witness:
  "getTransaction ''id2'' ''id4'' demo_settled = (Inl (HttpExn ForbiddenException ''Transaction not found.''), demo_settled)"
  using getTransaction_authorised [of "''id2''" demo_settled "demo_wallet ''id2'' ''id3'' 0 0 0" "''id4''"]
  by (simp add: demo_settled_db_def demo_wallet_def demo_deposit_def)

end
