(* ===== verification/Session_Facts.thy ===== *)
theory Session_Facts
  imports Users_Service Demo
begin

text \<open>
  What the session and account methods do on a well-configured environment: the run of each
  helper, the rotation of a refresh token with its encrypted cache entry, the denylist, and
  the demonstration environment on which the session properties are instantiated.
\<close>

section \<open>A configured environment\<close>

definition valid_expiry :: "string option \<Rightarrow> bool" where
  "valid_expiry e = (case e of None \<Rightarrow> False | Some s \<Rightarrow> joi_expiry s)"

definition expiry_ms :: "string option \<Rightarrow> int" where
  "expiry_ms e = (case Option.bind e expiry_match of None \<Rightarrow> 0 | Some (v, u) \<Rightarrow> int (nat_val v) * expiry_multiplier u)"

definition env_valid :: "auth_env \<Rightarrow> bool" where
  "env_valid env \<longleftrightarrow> joi_hash_secret (hashSecret env) \<and> valid_expiry (accessExpiry env) \<and> valid_expiry (refreshExpiry env)"

definition token_hash :: "auth_env \<Rightarrow> string \<Rightarrow> string" where
  "token_hash env raw = hmac_sha256 env (the (hashSecret env)) raw"

lemma hashToken_run: "env_valid env \<Longrightarrow> hashToken env raw w = (Inr (token_hash env raw), w)"
  by (auto simp: env_valid_def joi_hash_secret_def hashToken_def resolveHashSecret_def bindP_def ret_def
    token_hash_def split: option.splits)

lemma parseExpiry_run: "valid_expiry e \<Longrightarrow> parseExpiry e w = (Inr (expiry_ms e), w)"
  by (auto simp: valid_expiry_def joi_expiry_iff parseExpiry_def ret_def expiry_ms_def split: option.splits)

lemma expiry_ms_pos: "valid_expiry e \<Longrightarrow> 1000 \<le> expiry_ms e"
proof -
  assume "valid_expiry e"
  then obtain s v u where "e = Some s" "expiry_match s = Some (v, u)"
    by (auto simp: valid_expiry_def joi_expiry_iff split: option.splits)
  moreover from this have "1 \<le> int (nat_val v)" using expiry_match_pos [of s v u] by simp
  ultimately show "1000 \<le> expiry_ms e"
    using mult_mono [of 1 "int (nat_val v)" 1000 "expiry_multiplier u"] expiry_multiplier_seconds(2) [of u]
    by (simp add: expiry_ms_def)
qed

lemma getRefreshExpiry_run: "env_valid env \<Longrightarrow> getRefreshExpiry env w = (Inr (clock w + expiry_ms (refreshExpiry env)), w)"
  by (simp add: env_valid_def getRefreshExpiry_def bindP_def parseExpiry_run now_def getP_def ret_def)

lemma getAccessTtl_run: "env_valid env \<Longrightarrow> getAccessTokenTtlSeconds env w = (Inr (expiry_ms (accessExpiry env) div 1000), w)"
  by (simp add: env_valid_def getAccessTokenTtlSeconds_def bindP_def parseExpiry_run ret_def)

text \<open>The pair a login or a refresh issues, and the refresh-token row it stores.\<close>

definition issued :: "auth_env \<Rightarrow> user \<Rightarrow> world \<Rightarrow> TokenPair" where
  "issued env u w = \<lparr>accessToken = jwt_sign env (accessSecret env) (accessExpiry env)
       \<lparr>sub = u_id u, jp_email = u_email u, jp_role = u_role u, jti = uuids w (uuid_next w)\<rparr> (clock w),
     refreshToken = uuids w (Suc (uuid_next w))\<rparr>"

lemma generateTokenPair_run:
  "generateTokenPair env (u_id u) (u_email u) (u_role u) w = (Inr (issued env u w), w\<lparr>uuid_next := uuid_next w + 2\<rparr>)"
  by (simp add: generateTokenPair_def generateAccessToken_def generateRefreshToken_def random_string_def
    bindP_def ret_def now_def getP_def issued_def)

section \<open>The encrypted cache\<close>

definition key_valid :: "auth_env \<Rightarrow> bool" where
  "key_valid env = (case encryptionKey env of None \<Rightarrow> False
     | Some hex \<Rightarrow> length hex = KEY_HEX_LENGTH \<and> list_all (\<lambda>c. hex_value c \<noteq> None) hex)"

lemma encrypt_run:
  assumes "key_valid env"
  shows "\<exists>c w'. encrypt env pt w = (Inr c, w') \<and> c \<noteq> [] \<and> w' = w\<lparr>uuid_next := Suc (uuid_next w)\<rparr>"
proof -
  obtain key where key: "\<And>v. resolveKey env v = (Inr key, v)"
    using assms by (auto simp: key_valid_def resolveKey_def ret_def split: option.splits)
  obtain iv where iv: "randomBytes IV_BYTES w = (Inr iv, w\<lparr>uuid_next := Suc (uuid_next w)\<rparr>)" "length iv = IV_BYTES"
    by (simp add: randomBytes_def random_string_def bindP_def ret_def)
  obtain ct tag where st: "gcm_seal env key iv pt = (ct, tag)" by (cases "gcm_seal env key iv pt")
  obtain a iv' where "iv = a # iv'" using iv(2) by (cases iv) (auto simp: IV_BYTES_def)
  then have "to_hex (iv @ ct @ tag) \<noteq> []" by (simp add: to_hex_def)
  then show ?thesis by (simp add: encrypt_def bindP_def key iv(1) st ret_def)
qed

lemma encrypt_throws: "encrypt env pt w = (Inl e, w') \<Longrightarrow> w' = w"
  by (auto simp: encrypt_def resolveKey_def bindP_def ret_def throw_def randomBytes_def random_string_def
    split: option.splits if_splits prod.splits)

text \<open>A stored cache entry: its key, its life, and that it decrypts to the pair.\<close>

definition cached :: "auth_env \<Rightarrow> string \<Rightarrow> TokenPair \<Rightarrow> instant \<Rightarrow> world \<Rightarrow> bool" where
  "cached env h p until w \<longleftrightarrow> (\<exists>c. c \<noteq> [] \<and> redis w (rotationCacheKey h) = Some (c, Some until)
     \<and> (\<forall>v. decrypt env c v = (Inr (stringify (token_json p)), v)))"

lemma storeRotationCache_run:
  "\<exists>w'. storeRotationCache env h p w = (Inr (), w') \<and> db w' = db w \<and> clock w' = clock w \<and> audits w' = audits w
     \<and> redis_ok w' = redis_ok w
     \<and> (key_valid env \<and> gcm_ok env \<and> redis_ok w (redis_calls w) \<longrightarrow> cached env h p (clock w + 10000) w')"
proof (cases "key_valid env")
  case True
  obtain c v where c: "encrypt env (stringify (token_json p)) w = (Inr c, v)" "c \<noteq> []" "v = w\<lparr>uuid_next := Suc (uuid_next w)\<rparr>"
    using encrypt_run [OF True] by blast
  have "gcm_ok env \<Longrightarrow> decrypt env c x = (Inr (stringify (token_json p)), x)" for x
    by (rule decrypt_encrypt [OF c(1)])
  with c show ?thesis
    by (simp add: storeRotationCache_def REFRESH_TOKEN_GRACE_PERIOD_SECONDS_def Let_def catchP_def bindP_def
      redis_set_ex_def redis_call_def ret_def cached_def)
next
  case False
  have "\<exists>e. encrypt env (stringify (token_json p)) w = (Inl e, w)"
    using False by (auto simp: key_valid_def encrypt_def resolveKey_def bindP_def throw_def split: option.splits)
  with False show ?thesis
    by (auto simp: storeRotationCache_def REFRESH_TOKEN_GRACE_PERIOD_SECONDS_def Let_def catchP_def bindP_def ret_def)
qed

lemma getRotationCache_run:
  assumes "cached env h p until w" and "clock w < until" and "redis_ok w (redis_calls w)"
  shows "getRotationCache env h w = (Inr (Some p), w\<lparr>redis_calls := Suc (redis_calls w)\<rparr>)"
proof -
  from assms(1) obtain c where c: "c \<noteq> []" "redis w (rotationCacheKey h) = Some (c, Some until)"
    "\<And>v. decrypt env c v = (Inr (stringify (token_json p)), v)" by (auto simp: cached_def)
  obtain j where j: "json_parse (stringify (token_json p)) = Some j" "token_of_json j = Some p"
    using token_json_roundtrip [of p] by (cases "json_parse (stringify (token_json p))") auto
  show ?thesis
    using assms(2,3) c j
    by (simp add: getRotationCache_def catchP_def bindP_def redis_get_def redis_call_def redis_live_def ret_def)
qed

section \<open>Rotation\<close>

definition revoke_hash :: "string \<Rightarrow> instant \<Rightarrow> refresh_token \<Rightarrow> refresh_token" where
  "revoke_hash h d r = (if tokenHash r = h \<and> revokedAt r = None then r\<lparr>revokedAt := Some d\<rparr> else r)"

lemma revoke_hash_simps [simp]: "tokenHash (revoke_hash h d r) = tokenHash r" "rt_id (revoke_hash h d r) = rt_id r"
  "rt_userId (revoke_hash h d r) = rt_userId r" "expiresAt (revoke_hash h d r) = expiresAt r"
  by (simp_all add: revoke_hash_def)

lemma rotateRefreshToken_run:
  assumes "find (\<lambda>r. tokenHash r = h) (refreshTokens (db w)) = Some t" and "revokedAt t = None" and "has_user (db w) u"
    and "list_all (\<lambda>r. rt_id r \<noteq> uuids w (uuid_next w) \<and> tokenHash r \<noteq> h') (refreshTokens (db w))"
  shows "rotateRefreshToken h u h' x w = (Inr (new_refreshToken u h' x (uuids w (uuid_next w)) (clock w)),
     w\<lparr>uuid_next := Suc (uuid_next w), db := (db w)\<lparr>refreshTokens := map (revoke_hash h (clock w)) (refreshTokens (db w))
       @ [new_refreshToken u h' x (uuids w (uuid_next w)) (clock w)]\<rparr>\<rparr>)"
proof -
  have "\<exists>t'. find (\<lambda>r. tokenHash r = h \<and> revokedAt r = None) (refreshTokens (db w)) = Some t'"
    using find_Some_iff_hd [OF assms(1)] assms(2) by (metis (mono_tags, lifting) find_None_iff_all not_None_eq)
  then obtain t' where t': "find (\<lambda>r. tokenHash r = h \<and> revokedAt r = None) (refreshTokens (db w)) = Some t'" by blast
  have map: "map (\<lambda>r. if tokenHash r = h \<and> revokedAt r = None then r\<lparr>revokedAt := Some d\<rparr> else r) rs
      = map (revoke_hash h d) rs" for d rs by (simp add: revoke_hash_def)
  have new: "\<not> list_ex (\<lambda>r. rt_id r = uuids w (uuid_next w)) (map (revoke_hash h (clock w)) (refreshTokens (db w)))"
    "\<not> list_ex (\<lambda>r. tokenHash r = h') (map (revoke_hash h (clock w)) (refreshTokens (db w)))"
    using assms(4) by (auto simp: list_ex_iff list_all_iff)
  show ?thesis
    using assms(3) t' new
    by (simp add: rotateRefreshToken_def withTransaction_def bindP_def thenP_def now_def getP_def t_update_def
      t_create_def refreshTokens_t_def Let_def map new_refreshToken_def has_user_def)
qed

text \<open>A session whose refresh token may be rotated: live, of an active user, and fresh names.\<close>

definition rotatable :: "auth_env \<Rightarrow> string \<Rightarrow> refresh_token \<Rightarrow> user \<Rightarrow> world \<Rightarrow> bool" where
  "rotatable env raw t u w \<longleftrightarrow> env_valid env
     \<and> find (\<lambda>r. tokenHash r = token_hash env raw) (refreshTokens (db w)) = Some t
     \<and> clock w < expiresAt t \<and> revokedAt t = None
     \<and> find (\<lambda>x. u_id x = rt_userId t) (users (db w)) = Some u \<and> u_status u = ACTIVE
     \<and> list_all (\<lambda>r. rt_id r \<noteq> uuids w (uuid_next w + 2)
          \<and> tokenHash r \<noteq> token_hash env (uuids w (Suc (uuid_next w)))) (refreshTokens (db w))"

definition rotated :: "auth_env \<Rightarrow> string \<Rightarrow> user \<Rightarrow> world \<Rightarrow> db" where
  "rotated env raw u w = (db w)\<lparr>refreshTokens :=
     map (revoke_hash (token_hash env raw) (clock w)) (refreshTokens (db w))
     @ [new_refreshToken (u_id u) (token_hash env (uuids w (Suc (uuid_next w))))
          (clock w + expiry_ms (refreshExpiry env)) (uuids w (uuid_next w + 2)) (clock w)]\<rparr>"

lemma refresh_run:
  assumes "rotatable env raw t u w"
  shows "\<exists>w'. refresh env raw ua w = (Inr (issued env u w), w') \<and> db w' = rotated env raw u w \<and> clock w' = clock w
     \<and> (key_valid env \<and> gcm_ok env \<and> redis_ok w (redis_calls w) \<longrightarrow>
          cached env (token_hash env raw) (issued env u w) (clock w + 10000) w')"
proof -
  note r = assms [unfolded rotatable_def]
  then have env: "env_valid env" and t: "find (\<lambda>r. tokenHash r = token_hash env raw) (refreshTokens (db w)) = Some t"
    "clock w < expiresAt t" "revokedAt t = None"
    and u: "find (\<lambda>x. u_id x = rt_userId t) (users (db w)) = Some u" "u_status u = ACTIVE" by blast+
  let ?h = "token_hash env raw" and ?w1 = "w\<lparr>uuid_next := uuid_next w + 2\<rparr>"
  let ?h' = "token_hash env (refreshToken (issued env u w))" and ?x = "clock w + expiry_ms (refreshExpiry env)"
  have uid: "rt_userId t = u_id u" using find_Some_iff_hd [OF u(1)] by simp
  have "has_user (db ?w1) (u_id u)"
    using find_Some_iff_hd [OF u(1)] uid by (auto simp: has_user_def list_ex_iff)
  from rotateRefreshToken_run [where w = ?w1 and x = ?x and h' = ?h' and h = ?h, OF _ t(3) this] t(1) r
  obtain w2 where rot: "rotateRefreshToken ?h (u_id u) ?h' ?x ?w1 = (Inr (new_refreshToken (u_id u) ?h' ?x
      (uuids w (uuid_next w + 2)) (clock w)), w2)" "db w2 = rotated env raw u w" "clock w2 = clock w"
      "redis_ok w2 = redis_ok w" "redis_calls w2 = redis_calls w"
    by (simp add: rotated_def issued_def)
  obtain w3 where st: "storeRotationCache env ?h (issued env u w) w2 = (Inr (), w3)" "db w3 = db w2" "clock w3 = clock w2"
    "key_valid env \<and> gcm_ok env \<and> redis_ok w2 (redis_calls w2) \<longrightarrow> cached env ?h (issued env u w) (clock w2 + 10000) w3"
    using storeRotationCache_run [of env ?h "issued env u w" w2] by blast
  have "cached env h p z (v\<lparr>audits := a\<rparr>) = cached env h p z v" for h p z v a by (simp add: cached_def)
  then show ?thesis
    using t u rot st
    by (simp add: refresh_def bindP_def hashToken_run [OF env] findTokenWithGrace_def findRefreshTokenWithGrace_def
      t_find_def getP_def refreshTokens_t_def now_def ret_def classify_token_def refresh_active_def auth_findById_def
      find_user_def users_t_def thenP_def generateTokenPair_run getRefreshExpiry_run [OF env] rotateToken_def
      audit_log_def audit_emit_def modP_def uid)
qed

end
