(* ===== verification/Session_Properties.thy ===== *)
theory Session_Properties
  imports Session_Facts
begin

text \<open>
  Properties of sessions and accounts: rotation, reuse detection, the grace period, access
  tokens, the session limit, password change, closing an account, registration, clean-up.
\<close>

section \<open>Demonstration environment\<close>

definition demo_env :: auth_env where
  "demo_env = \<lparr>hashSecret = Some (replicate 32 CHR ''s''), accessExpiry = Some ''5m'', refreshExpiry = Some ''7d'',
     accessSecret = Some ''a'', maxSessions = 2, encryptionKey = Some (replicate 64 CHR ''0''),
     hmac_sha256 = (\<lambda>k t. ''h'' @ t), jwt_sign = (\<lambda>k e p d. ''jwt'' @ jti p),
     argon2_hash = (\<lambda>salt p. p), argon2_verify = (\<lambda>h p. h = p),
     gcm_seal = (\<lambda>k iv pt. (pt, replicate 16 CHR 0x00)), gcm_open = (\<lambda>k iv ct tag. Some ct)\<rparr>"

definition demo_session :: "instant option \<Rightarrow> refresh_token" where
  "demo_session r = \<lparr>rt_id = ''s1'', rt_userId = ''id0'', tokenHash = ''hraw'', rt_createdAt = 0,
     expiresAt = 500000000, revokedAt = r\<rparr>"

definition demo_logged_in :: "instant option \<Rightarrow> world" where
  "demo_logged_in r = demo_registered\<lparr>db := (db demo_registered)\<lparr>refreshTokens := [demo_session r]\<rparr>\<rparr>"

lemma demo_env_expiry: "expiry_match ''5m'' = Some (''5'', CHR ''m'')" "expiry_match ''7d'' = Some (''7'', CHR ''d'')"
  by code_simp+

lemma demo_env_ok: "env_valid demo_env" "gcm_ok demo_env"
  by (simp_all add: demo_env_def env_valid_def joi_hash_secret_def valid_expiry_def joi_expiry_iff demo_env_expiry
    gcm_ok_def TAG_BYTES_def)

lemma demo_key_ok: "key_valid demo_env"
proof -
  have "hex_value CHR ''0'' \<noteq> None" by code_simp
  then show ?thesis by (simp add: key_valid_def demo_env_def KEY_HEX_LENGTH_def list_all_iff)
qed

lemma demo_logged_in_simps [simp]: "refreshTokens (db (demo_logged_in r)) = [demo_session r]"
  "users (db (demo_logged_in r)) = [ann, bob]" "clock (demo_logged_in r) = 1000000" "uuid_next (demo_logged_in r) = 4"
  "uuids (demo_logged_in r) = (\<lambda>n. ''id'' @ nat_str n)" "redis_ok (demo_logged_in r) = (\<lambda>_. True)"
  "wallets (db (demo_logged_in r)) = [demo_wallet ''id0'' ''id1'' 0 0 0, demo_wallet ''id2'' ''id3'' 0 0 0]"
  by (simp_all add: demo_logged_in_def demo_registered_def)

lemma demo_users: "u_id ann = ''id0''" "u_status ann = ACTIVE" "u_id bob = ''id2''" "u_email ann = ''ann@x.y''"
  "u_email bob = ''bob@x.y''" "u_password ann = ''ann''" "u_phone ann = ''ann''" "u_phone bob = ''bob''"
  by (simp_all add: ann_def bob_def new_user_def demo_user_def)

lemma demo_hash: "token_hash demo_env t = ''h'' @ t"
  by (simp add: token_hash_def demo_env_def)

lemma demo_rotatable: "rotatable demo_env ''raw'' (demo_session None) ann (demo_logged_in None)"
  using demo_env_ok by (simp add: rotatable_def demo_hash demo_session_def demo_users)

section \<open>Refresh\<close>

lemma active_count_rotate:
  assumes "distinct (map tokenHash rs)" and "t \<in> set rs" and "active_session u d t" and "tokenHash t = h"
  shows "Suc (active_count u d (map (revoke_hash h d) rs)) = active_count u d rs"
  using assms
proof (induction rs)
  case (Cons x xs)
  show ?case
  proof (cases "x = t")
    case True
    with Cons.prems have "h \<notin> tokenHash ` set xs" by auto
    then have "map (revoke_hash h d) xs = xs" by (intro map_idI) (auto simp: revoke_hash_def image_iff)
    moreover have "\<not> active_session u d (revoke_hash h d t)"
      using Cons.prems by (simp add: active_session_def revoke_hash_def)
    ultimately show ?thesis using True Cons.prems by (simp add: active_count_def)
  next
    case False
    with Cons.prems have "t \<in> set xs" "tokenHash x \<noteq> h" by (auto simp: image_iff)
    with Cons show ?thesis by (simp add: active_count_def revoke_hash_def)
  qed
qed simp

lemma find_rotated:
  assumes "find (\<lambda>r. tokenHash r = h) (refreshTokens (db w)) = Some t"
  shows "find (\<lambda>r. tokenHash r = h) (map (revoke_hash h d) (refreshTokens (db w)) @ xs) = Some (revoke_hash h d t)"
  using assms by (simp add: find_append find_map_if)

text \<open>
  C25. Refreshing rotates the session: for a live token of an active user, \<open>refresh\<close> returns a
  new pair, the presented token is revoked at that instant, the new refresh token is stored
  as an active session of the same user, the number of the user's active sessions does not
  change, and nothing else in the database does.
\<close>

theorem refresh_rotates:
  assumes "rotatable env raw t u w" and "distinct (map tokenHash (refreshTokens (db w)))"
  shows "\<exists>p w' n. refresh env raw ua w = (Inr p, w') \<and> db w' = (db w)\<lparr>refreshTokens := refreshTokens (db w')\<rparr>
    \<and> find (\<lambda>r. tokenHash r = token_hash env raw) (refreshTokens (db w')) = Some (t\<lparr>revokedAt := Some (clock w)\<rparr>)
    \<and> find (\<lambda>r. tokenHash r = token_hash env (refreshToken p)) (refreshTokens (db w')) = Some n
    \<and> active_session (u_id u) (clock w) n
    \<and> active_count (u_id u) (clock w) (refreshTokens (db w')) = active_count (u_id u) (clock w) (refreshTokens (db w))"
proof -
  let ?h = "token_hash env raw" and ?h' = "token_hash env (uuids w (Suc (uuid_next w)))"
  let ?n = "new_refreshToken (u_id u) ?h' (clock w + expiry_ms (refreshExpiry env)) (uuids w (uuid_next w + 2)) (clock w)"
  obtain w' where run: "refresh env raw ua w = (Inr (issued env u w), w')" "db w' = rotated env raw u w"
    using refresh_run [OF assms(1)] by blast
  have t: "find (\<lambda>r. tokenHash r = ?h) (refreshTokens (db w)) = Some t" "clock w < expiresAt t" "revokedAt t = None"
    "u_id u = rt_userId t" "list_all (\<lambda>r. tokenHash r \<noteq> ?h') (refreshTokens (db w))"
    and ms: "0 < expiry_ms (refreshExpiry env)"
    using assms(1) expiry_ms_pos [of "refreshExpiry env"]
    by (auto simp: rotatable_def env_valid_def list_all_iff dest: find_Some_iff_hd)
  have act: "active_session (u_id u) (clock w) t" "t \<in> set (refreshTokens (db w))" "tokenHash t = ?h"
    using t find_Some_iff_hd [OF t(1)] by (auto simp: active_session_def)
  have new: "active_session (u_id u) (clock w) ?n" using ms by (simp add: active_session_def new_refreshToken_def)
  have "find (\<lambda>r. tokenHash r = ?h') (map (revoke_hash ?h (clock w)) (refreshTokens (db w))) = None"
    using t(5) by (auto simp: find_None_iff_all list_all_iff)
  then have "find (\<lambda>r. tokenHash r = ?h') (refreshTokens (db w')) = Some ?n"
    by (simp add: run(2) rotated_def find_append new_refreshToken_def)
  moreover have "find (\<lambda>r. tokenHash r = ?h) (refreshTokens (db w')) = Some (t\<lparr>revokedAt := Some (clock w)\<rparr>)"
    using find_rotated [OF t(1)] act(3) t(3) by (simp add: run(2) rotated_def revoke_hash_def)
  moreover have "active_count (u_id u) (clock w) (refreshTokens (db w')) = active_count (u_id u) (clock w) (refreshTokens (db w))"
    using active_count_rotate [OF assms(2) act(2,1,3)] new by (simp add: run(2) rotated_def active_count_def)
  moreover have "db w' = (db w)\<lparr>refreshTokens := refreshTokens (db w')\<rparr>" by (simp add: run(2) rotated_def)
  moreover have "refreshToken (issued env u w) = uuids w (Suc (uuid_next w))" by (simp add: issued_def)
  ultimately show ?thesis using run(1) new by (intro exI [of _ "issued env u w"] exI [of _ w'] exI [of _ ?n]) simp
qed

theorem refresh_rotates_witness:
  "\<exists>p w'. refresh demo_env ''raw'' None (demo_logged_in None) = (Inr p, w') \<and> refreshTokens (db w') \<noteq> [demo_session None]"
proof -
  have "distinct (map tokenHash (refreshTokens (db (demo_logged_in None))))" by simp
  from refresh_rotates [OF demo_rotatable this, of None] obtain p w' where
    "refresh demo_env ''raw'' None (demo_logged_in None) = (Inr p, w')"
    "find (\<lambda>r. tokenHash r = token_hash demo_env ''raw'') (refreshTokens (db w')) = Some (demo_session None\<lparr>revokedAt := Some 1000000\<rparr>)"
    by auto
  then show ?thesis by (auto simp: demo_session_def demo_hash)
qed

lemma others_kept:
  "filter (\<lambda>r. rt_userId r \<noteq> u) (map (\<lambda>r. if rt_userId r = u \<and> revokedAt r = None then r\<lparr>revokedAt := d\<rparr> else r) rs)
     = filter (\<lambda>r. rt_userId r \<noteq> u) rs"
  by (induction rs) auto

text \<open>
  C26. A stolen token is contained: presenting a refresh token that was rotated or revoked
  more than the grace period ago is refused, revokes every session of its user and of nobody
  else, and is audited as reuse.
\<close>

theorem reuse_revokes_all_sessions:
  assumes "env_valid env" and "find (\<lambda>r. tokenHash r = token_hash env raw) (refreshTokens (db w)) = Some t"
    and "clock w < expiresAt t" and "revokedAt t = Some d" and "10000 < clock w - d"
  shows "\<exists>w'. refresh env raw ua w = (Inl (HttpExn UnauthorizedException ''Security breach detected. Please log in again.''), w')
    \<and> active_count (rt_userId t) (clock w) (refreshTokens (db w')) = 0
    \<and> filter (\<lambda>r. rt_userId r \<noteq> rt_userId t) (refreshTokens (db w'))
        = filter (\<lambda>r. rt_userId r \<noteq> rt_userId t) (refreshTokens (db w))
    \<and> ar_event (last (audits w')) = TOKEN_REUSE_DETECTED"
proof -
  let ?rs = "map (\<lambda>r. if rt_userId r = rt_userId t \<and> revokedAt r = None then r\<lparr>revokedAt := Some (clock w)\<rparr> else r) (refreshTokens (db w))"
  have "active_count (rt_userId t) (clock w) ?rs = 0"
    by (auto simp: active_count_def active_session_def filter_empty_conv)
  moreover have "filter (\<lambda>r. rt_userId r \<noteq> rt_userId t) ?rs = filter (\<lambda>r. rt_userId r \<noteq> rt_userId t) (refreshTokens (db w))"
    by (rule others_kept)
  moreover have "\<exists>w'. refresh env raw ua w = (Inl (HttpExn UnauthorizedException ''Security breach detected. Please log in again.''), w')
      \<and> refreshTokens (db w') = ?rs \<and> ar_event (last (audits w')) = TOKEN_REUSE_DETECTED"
    using assms(2-5)
    by (simp add: refresh_def bindP_def hashToken_run [OF assms(1)] findTokenWithGrace_def findRefreshTokenWithGrace_def
      t_find_def getP_def refreshTokens_t_def now_def ret_def classify_token_def REFRESH_TOKEN_GRACE_PERIOD_SECONDS_def
      refresh_reuse_def thenP_def revokeAllTokens_def revokeAllUserTokens_def revokeActive_def t_updateMany_def
      clearRotationCache_def catchP_def redis_del_def redis_call_def Let_def audit_warn_def audit_emit_def modP_def
      throw_def serialize_def)
  ultimately show ?thesis by force
qed

theorem reuse_revokes_all_sessions_witness:
  "\<exists>w'. refresh demo_env ''raw'' None (demo_logged_in (Some 0))
      = (Inl (HttpExn UnauthorizedException ''Security breach detected. Please log in again.''), w')"
  using reuse_revokes_all_sessions [OF demo_env_ok(1), of "''raw''" "demo_logged_in (Some 0)" "demo_session (Some 0)" 0 None]
  by (auto simp: demo_session_def demo_hash)

text \<open>
  C27. A retry within the grace period gets the same answer: when the rotation's pair was
  cached, presenting the old refresh token again, less than ten seconds later and before it
  expires, returns the very pair of the first answer, through encryption, JSON and Redis,
  and changes nothing in the database.
\<close>

theorem rotation_replayed:
  assumes "rotatable env raw t u w" and "key_valid env" and "gcm_ok env" and "redis_ok w (redis_calls w)"
    and "refresh env raw ua w = (Inr p, w')" and "db v = db w'" and "redis v = redis w'" and "redis_ok v (redis_calls v)"
    and "clock w \<le> clock v" and "clock v < clock w + 10000" and "clock v < expiresAt t"
  shows "\<exists>v'. refresh env raw ua v = (Inr p, v') \<and> db v' = db v"
proof -
  let ?h = "token_hash env raw"
  from refresh_run [OF assms(1), of ua] assms(2-5)
  have w': "db w' = rotated env raw u w" "p = issued env u w" "cached env ?h p (clock w + 10000) w'" by auto
  have env: "env_valid env" and t: "find (\<lambda>r. tokenHash r = ?h) (refreshTokens (db w)) = Some t" "revokedAt t = None"
    using assms(1) by (simp_all add: rotatable_def)
  have "find (\<lambda>r. tokenHash r = ?h) (refreshTokens (db v)) = Some (t\<lparr>revokedAt := Some (clock w)\<rparr>)"
    using find_rotated [OF t(1)] find_Some_iff_hd [OF t(1)] t(2) by (simp add: assms(6) w'(1) rotated_def revoke_hash_def)
  moreover have "cached env ?h p (clock w + 10000) v" using w'(3) assms(7) by (simp add: cached_def)
  ultimately show ?thesis
    using assms(8-11) getRotationCache_run [of env ?h p "clock w + 10000" v]
    by (simp add: refresh_def bindP_def hashToken_run [OF env] findTokenWithGrace_def findRefreshTokenWithGrace_def
      t_find_def getP_def refreshTokens_t_def now_def ret_def classify_token_def REFRESH_TOKEN_GRACE_PERIOD_SECONDS_def
      refresh_grace_def thenP_def audit_log_def audit_emit_def modP_def)
qed

theorem rotation_replayed_witness:
  "\<exists>p w' v'. refresh demo_env ''raw'' None (demo_logged_in None) = (Inr p, w')
     \<and> refresh demo_env ''raw'' None (w'\<lparr>clock := 1009000, redis_ok := (\<lambda>_. True)\<rparr>) = (Inr p, v')"
proof -
  obtain w' where w': "refresh demo_env ''raw'' None (demo_logged_in None) = (Inr (issued demo_env ann (demo_logged_in None)), w')"
    using refresh_run [OF demo_rotatable] by blast
  from rotation_replayed [OF demo_rotatable demo_key_ok demo_env_ok(2) _ w', of "w'\<lparr>clock := 1009000, redis_ok := (\<lambda>_. True)\<rparr>"]
  obtain v' where "refresh demo_env ''raw'' None (w'\<lparr>clock := 1009000, redis_ok := (\<lambda>_. True)\<rparr>)
      = (Inr (issued demo_env ann (demo_logged_in None)), v')"
    by (auto simp: demo_session_def)
  with w' show ?thesis by blast
qed

section \<open>Access tokens\<close>

lemma validate_outcome:
  "(fst (validate p w) = Inr p' \<longleftrightarrow> p' = p \<and> redis_ok w (redis_calls w) \<and> redis_live w (denylist_key (jti p)) = None
      \<and> (case find (\<lambda>u. u_id u = sub p) (users (db w)) of None \<Rightarrow> False | Some u \<Rightarrow> u_status u = ACTIVE))
   \<and> (redis_ok w (redis_calls w) \<or> fst (validate p w) = Inl (HttpExn ServiceUnavailableException
        ''Authentication service temporarily unavailable. Please try again.''))
   \<and> db (snd (validate p w)) = db w"
  by (auto simp: validate_def isRevoked_def redis_get_def redis_call_def catchP_def bindP_def ret_def throw_def
    thenP_def denylist_failure_def audit_error_def audit_emit_def modP_def auth_findById_def find_user_def t_find_def
    getP_def users_t_def Let_def split: option.splits)

lemma clearRotationCache_run:
  "\<exists>v. clearRotationCache h w = (Inr (), v) \<and> db v = db w \<and> clock v = clock w \<and> redis_ok v = redis_ok w
     \<and> redis_calls v = Suc (redis_calls w) \<and> audits v = audits w"
  by (simp add: clearRotationCache_def catchP_def redis_del_def redis_call_def Let_def ret_def)

text \<open>
  C28. An access token is accepted exactly when Redis answers, its id is not on the denylist
  and its user exists and is active; it is refused otherwise (with 503 when Redis does not
  answer), and validation never touches the database.
\<close>

theorem validate_fails_closed:
  "(fst (validate p w) = Inr p' \<longleftrightarrow> p' = p \<and> redis_ok w (redis_calls w) \<and> redis_live w (denylist_key (jti p)) = None
      \<and> (case find (\<lambda>u. u_id u = sub p) (users (db w)) of None \<Rightarrow> False | Some u \<Rightarrow> u_status u = ACTIVE))
   \<and> (redis_ok w (redis_calls w) \<or> fst (validate p w) = Inl (HttpExn ServiceUnavailableException
        ''Authentication service temporarily unavailable. Please try again.''))
   \<and> db (snd (validate p w)) = db w"
  by (rule validate_outcome)

text \<open>
  C29. Logging out ends the session for good: after \<open>logout\<close> with one's own live refresh
  token, the token's row is revoked, and the access token is refused until the longest time
  it could have lived.
\<close>

theorem logout_ends_session:
  assumes "env_valid env" and "find (\<lambda>r. tokenHash r = token_hash env raw) (refreshTokens (db w)) = Some t"
    and "rt_userId t = uid" and "clock w < expiresAt t" and "revokedAt t = None"
    and "redis_ok w (Suc (redis_calls w))"
  shows "\<exists>w'. logout env raw uid j ua w = (Inr (), w')
    \<and> find (\<lambda>r. tokenHash r = token_hash env raw) (refreshTokens (db w')) = Some (t\<lparr>revokedAt := Some (clock w)\<rparr>)
    \<and> (\<forall>v p. redis v = redis w' \<and> redis_ok v (redis_calls v) \<and> jti p = j
          \<and> clock v < clock w + expiry_ms (accessExpiry env) div 1000 * 1000 \<longrightarrow>
        fst (validate p v) = Inl (HttpExn UnauthorizedException ''Token has been revoked''))"
proof -
  let ?h = "token_hash env raw" and ?ttl = "expiry_ms (accessExpiry env) div 1000"
  obtain v where v: "clearRotationCache ?h w = (Inr (), v)" "db v = db w" "clock v = clock w" "redis_ok v = redis_ok w"
    "redis_calls v = Suc (redis_calls w)" using clearRotationCache_run by blast
  have "\<exists>w'. logout env raw uid j ua w = (Inr (), w')
    \<and> refreshTokens (db w') = map (revoke_hash ?h (clock w)) (refreshTokens (db w))
    \<and> redis w' (denylist_key j) = Some (''1'', Some (clock w + ?ttl * 1000))"
    using assms(2-6) v
    by (simp add: logout_def bindP_def hashToken_run [OF assms(1)] findTokenWithGrace_def findRefreshTokenWithGrace_def
      t_find_def getP_def refreshTokens_t_def now_def ret_def classify_token_def logout_own_def thenP_def whenP_def
      catchP_def redis_call_def Let_def revokeAccessToken_def
      getAccessTtl_run [OF assms(1)] denylist_revoke_def redis_set_ex_def revokeToken_def revokeRefreshToken_def
      t_updateMany_def audit_log_def audit_emit_def modP_def revoke_hash_def)
  then obtain w' where run: "logout env raw uid j ua w = (Inr (), w')"
    and db: "refreshTokens (db w') = map (revoke_hash ?h (clock w)) (refreshTokens (db w))"
    and deny: "redis w' (denylist_key j) = Some (''1'', Some (clock w + ?ttl * 1000))" by blast
  have "find (\<lambda>r. tokenHash r = ?h) (refreshTokens (db w')) = Some (t\<lparr>revokedAt := Some (clock w)\<rparr>)"
    using find_rotated [OF assms(2), of "clock w" "[]"] find_Some_iff_hd [OF assms(2)] assms(5)
    by (simp add: db revoke_hash_def)
  moreover have "fst (validate p v) = Inl (HttpExn UnauthorizedException ''Token has been revoked'')"
    if "redis v = redis w'" "redis_ok v (redis_calls v)" "jti p = j" "clock v < clock w + ?ttl * 1000" for v p
    using that deny by (simp add: validate_def isRevoked_def redis_get_def redis_call_def redis_live_def catchP_def
      bindP_def ret_def throw_def)
  ultimately show ?thesis using run by blast
qed

theorem logout_ends_session_witness:
  "\<exists>w'. logout demo_env ''raw'' ''id0'' ''j'' None (demo_logged_in None) = (Inr (), w')
     \<and> refreshTokens (db w') \<noteq> refreshTokens (db (demo_logged_in None))"
proof -
  have "find (\<lambda>r. tokenHash r = token_hash demo_env ''raw'') (refreshTokens (db (demo_logged_in None))) = Some (demo_session None)"
    by (simp add: demo_hash demo_session_def)
  from logout_ends_session [OF demo_env_ok(1) this, of "''id0''" "''j''" None]
  show ?thesis by (auto simp: demo_session_def demo_hash)
qed

section \<open>Sessions of a user\<close>

lemma createSession_limited:
  assumes "distinct (map rt_id (refreshTokens (db w)))" and "0 < m"
  shows "wp (createSessionAtomic u h x m) (\<lambda>_ w'. db w' = (db w)\<lparr>refreshTokens := refreshTokens (db w')\<rparr>
       \<and> active_count u (clock w) (refreshTokens (db w')) \<le> max m (active_count u (clock w) (refreshTokens (db w)))
       \<and> (\<exists>n. find (\<lambda>r. tokenHash r = h) (refreshTokens (db w')) = Some n \<and> rt_userId n = u \<and> expiresAt n = x \<and> revokedAt n = None))
     (\<lambda>_ w'. db w' = db w) w"
proof (rule wp_mono [OF createSessionAtomic_run])
  fix a :: "uuid \<times> uuid option" and w' :: world
  assume "(\<lambda>(s, ev) w'. s = uuids w (uuid_next w) \<and> ev = fst (sessions_after u (clock w) m (refreshTokens (db w)))
     \<and> (\<forall>t \<in> set (refreshTokens (db w)). rt_id t \<noteq> s \<and> tokenHash t \<noteq> h)
     \<and> db w' = (db w)\<lparr>refreshTokens := snd (sessions_after u (clock w) m (refreshTokens (db w)))
         @ [new_refreshToken u h x s (clock w)]\<rparr>) a w'"
  then obtain s where s: "\<forall>t \<in> set (refreshTokens (db w)). tokenHash t \<noteq> h"
    "db w' = (db w)\<lparr>refreshTokens := snd (sessions_after u (clock w) m (refreshTokens (db w))) @ [new_refreshToken u h x s (clock w)]\<rparr>"
    by (auto split: prod.splits)
  have "find (\<lambda>r. tokenHash r = h) (snd (sessions_after u (clock w) m (refreshTokens (db w)))) = None"
    using s(1) by (auto simp: find_None_iff_all sessions_after_def Let_def split: option.splits)
  moreover have "active_count u (clock w) (refreshTokens (db w')) \<le> max m (active_count u (clock w) (refreshTokens (db w)))"
    using active_count_snoc [of u "clock w" "snd (sessions_after u (clock w) m (refreshTokens (db w)))" "new_refreshToken u h x s (clock w)"]
      sessions_after_count [OF assms, of u "clock w"] by (simp add: s(2))
  ultimately show "db w' = (db w)\<lparr>refreshTokens := refreshTokens (db w')\<rparr>
       \<and> active_count u (clock w) (refreshTokens (db w')) \<le> max m (active_count u (clock w) (refreshTokens (db w)))
       \<and> (\<exists>n. find (\<lambda>r. tokenHash r = h) (refreshTokens (db w')) = Some n \<and> rt_userId n = u \<and> expiresAt n = x \<and> revokedAt n = None)"
    by (simp add: s(2) find_append new_refreshToken_def)
qed simp

definition session_stored :: "auth_env \<Rightarrow> uuid \<Rightarrow> string \<Rightarrow> world \<Rightarrow> world \<Rightarrow> bool" where
  "session_stored env u raw w w' \<longleftrightarrow> db w' = (db w)\<lparr>refreshTokens := refreshTokens (db w')\<rparr>
     \<and> active_count u (clock w) (refreshTokens (db w')) \<le> max (maxSessions env) (active_count u (clock w) (refreshTokens (db w)))
     \<and> (\<exists>n. find (\<lambda>r. tokenHash r = token_hash env raw) (refreshTokens (db w')) = Some n \<and> active_session u (clock w) n)"

lemma session_stored_audits [simp]: "session_stored env u raw w (w'\<lparr>audits := a\<rparr>) = session_stored env u raw w w'"
  by (simp add: session_stored_def)

lemma persist_session:
  assumes "env_valid env" and "distinct (map rt_id (refreshTokens (db w)))" and "0 < maxSessions env"
  shows "wp (persistRefreshToken env u raw ua) (\<lambda>_. session_stored env u raw w) (\<lambda>_ w'. db w' = db w) w"
proof -
  have hash: "wp (hashToken env t) Q E v = Q (token_hash env t) v" for t Q E v
    by (simp add: wp_def hashToken_run [OF assms(1)])
  have expiry: "wp (getRefreshExpiry env) Q E v = Q (clock v + expiry_ms (refreshExpiry env)) v" for Q E v
    by (simp add: wp_def getRefreshExpiry_run [OF assms(1)])
  have ms: "0 < expiry_ms (refreshExpiry env)" using assms(1) expiry_ms_pos [of "refreshExpiry env"] by (simp add: env_valid_def)
  show ?thesis
    unfolding persistRefreshToken_def wp_bindP hash expiry
  proof (rule wp_mono [OF createSession_limited [OF assms(2,3)]])
    fix a :: "uuid \<times> uuid option" and w' :: world
    assume s: "db w' = (db w)\<lparr>refreshTokens := refreshTokens (db w')\<rparr>
       \<and> active_count u (clock w) (refreshTokens (db w')) \<le> max (maxSessions env) (active_count u (clock w) (refreshTokens (db w)))
       \<and> (\<exists>n. find (\<lambda>r. tokenHash r = token_hash env raw) (refreshTokens (db w')) = Some n \<and> rt_userId n = u
            \<and> expiresAt n = clock w + expiry_ms (refreshExpiry env) \<and> revokedAt n = None)"
    then have "session_stored env u raw w w'" using ms by (auto simp: session_stored_def active_session_def)
    then show "wp (case a of (_, evicted) \<Rightarrow> (case evicted of None \<Rightarrow> ret ()
        | Some i \<Rightarrow> whenP (i \<noteq> []) (audit_warn SESSION_EVICTED
            \<lparr>ac_userId = Some u, ac_userAgent = ua, ac_meta = [(''evictedSessionId'', JStr i)]\<rparr>)))
        (\<lambda>_. session_stored env u raw w) (\<lambda>_ w'. db w' = db w) w'"
      by (auto simp: wp_ret wp_whenP wp_audit split: prod.splits option.splits)
  qed simp
qed

text \<open>
  C30. Logging in keeps the session limit: a login that returns was for an active user with
  that email and password, stores the new session as an active one, and leaves the user with
  at most \<open>maxSessions\<close> active sessions (or no more than before); a login that fails leaves
  the database as it was.
\<close>

theorem login_session_limit:
  assumes "env_valid env" and "distinct (map rt_id (refreshTokens (db w)))" and "0 < maxSessions env"
  shows "wp (login env dto ua) (\<lambda>p w'. \<exists>u. find (\<lambda>x. u_email x = normalizeEmail (ld_email dto)) (users (db w)) = Some u
      \<and> u_status u = ACTIVE \<and> argon2_verify env (u_password u) (ld_password dto)
      \<and> (\<exists>n. find (\<lambda>r. tokenHash r = token_hash env (refreshToken p)) (refreshTokens (db w')) = Some n
             \<and> active_session (u_id u) (clock w) n)
      \<and> active_count (u_id u) (clock w) (refreshTokens (db w'))
          \<le> max (maxSessions env) (active_count (u_id u) (clock w) (refreshTokens (db w))))
    (\<lambda>_ w'. db w' = db w) w"
proof -
  have pair: "wp (generateTokenPair env (u_id u) (u_email u) (u_role u)) Q E v = Q (issued env u v) (v\<lparr>uuid_next := Suc (Suc (uuid_next v))\<rparr>)"
    for u Q E v by (simp add: wp_def generateTokenPair_run)
  have "distinct (map rt_id (refreshTokens (db (w\<lparr>uuid_next := Suc (Suc (uuid_next w))\<rparr>))))" using assms(2) by simp
  note session = persist_session [OF assms(1) this assms(3)]
  show ?thesis
    unfolding login_def findByEmail_def Let_def
    by (auto simp: wp_bindP wp_t_find users_t_def wp_throw wp_thenP wp_audit pair wp_ret session_stored_def
      split: option.splits intro!: wp_mono [OF session])
qed

theorem login_session_limit_witness:
  "wp (login demo_env \<lparr>ld_email = ''ann@x.y'', ld_password = ''ann''\<rparr> None)
     (\<lambda>p w'. \<exists>u. active_count u 1000000 (refreshTokens (db w')) \<le> max 2 (active_count u 1000000 [demo_session None]))
     (\<lambda>_ w'. refreshTokens (db w') = [demo_session None]) (demo_logged_in None)"
proof -
  have "distinct (map rt_id (refreshTokens (db (demo_logged_in None))))" "0 < maxSessions demo_env"
    by (simp_all add: demo_env_def)
  note * = login_session_limit [OF demo_env_ok(1) this, of "\<lparr>ld_email = ''ann@x.y'', ld_password = ''ann''\<rparr>" None]
  have m: "maxSessions demo_env = 2" by (simp add: demo_env_def)
  from * show ?thesis
    by (rule wp_mono) (simp_all only: m demo_logged_in_simps, blast)
qed

section \<open>Password and closing\<close>

lemma revoked_rows:
  "active_count u d (map (\<lambda>r. if rt_userId r = u \<and> revokedAt r = None then r\<lparr>revokedAt := Some d'\<rparr> else r) rs) = 0"
  by (auto simp: active_count_def active_session_def filter_empty_conv)

text \<open>
  Changing the password needs the current one and ends every session: a wrong current
  password gives 401 and an unchanged one 400, both without a trace; otherwise the user's
  row holds the hash of the new password, no session of the user is active any more, and no
  other user changes.
\<close>

theorem changePassword_outcomes:
  assumes "env_valid env" and "find (\<lambda>u. u_id u = i) (users (db w)) = Some u"
  shows "\<exists>w'. changePassword env i j dto w =
      (if \<not> argon2_verify env (u_password u) (currentPassword dto)
       then Inl (HttpExn UnauthorizedException ''Current password is incorrect'')
       else if argon2_verify env (u_password u) (newPassword dto)
       then Inl (HttpExn BadRequestException ''New password must differ from current password'')
       else Inr (), w')
    \<and> (if argon2_verify env (u_password u) (currentPassword dto) \<and> \<not> argon2_verify env (u_password u) (newPassword dto)
       then users (db w') = map (\<lambda>x. if u_id x = i then x\<lparr>u_password := argon2_hash env (uuids w (uuid_next w)) (newPassword dto),
              u_updatedAt := clock w\<rparr> else x) (users (db w))
          \<and> active_count i (clock w) (refreshTokens (db w')) = 0
       else db w' = db w)"
proof (cases "argon2_verify env (u_password u) (currentPassword dto) \<and> \<not> argon2_verify env (u_password u) (newPassword dto)")
  case False
  then show ?thesis
    using assms(2)
    by (auto simp: changePassword_def bindP_def findByIdWithPassword_def find_user_def t_find_def getP_def users_t_def
      ret_def throw_def)
next
  case True
  obtain v where v: "denylist_revoke j n x = (Inr (), v n x)" for n x
    using denylist_revoke_returns by metis
  have same: "db (v n x) = db x" for n x
  proof -
    have "within same_db (denylist_revoke j n)"
      unfolding denylist_revoke_def denylist_failure_def redis_set_ex_def
      by (intro sdb.within_intros audit_same_db within_wpI) (simp add: wp_simps same_db_def)
    then show ?thesis using v [of n x] by (auto simp: same_db_def dest: withinD)
  qed
  show ?thesis
    using True assms(2) same
    by (simp add: changePassword_def bindP_def findByIdWithPassword_def find_user_def t_find_def getP_def users_t_def
      ret_def hash_password_def random_string_def updatePasswordAndRevokeSessions_def withTransaction_def thenP_def
      t_update_def revokeActive_def now_def t_updateMany_def refreshTokens_t_def Let_def getAccessTtl_run [OF assms(1)]
      v audit_log_def audit_emit_def modP_def revoked_rows cong: if_cong)
qed

theorem changePassword_outcomes_witness:
  "\<exists>w'. changePassword demo_env ''id0'' ''j'' \<lparr>currentPassword = ''ann'', newPassword = ''new''\<rparr> (demo_logged_in None) = (Inr (), w')
     \<and> map u_password (users (db w')) = [''new'', ''bob'']"
proof -
  have "find (\<lambda>u. u_id u = ''id0'') (users (db (demo_logged_in None))) = Some ann" by (simp add: demo_users)
  from changePassword_outcomes [OF demo_env_ok(1) this, of "''j''" "\<lparr>currentPassword = ''ann'', newPassword = ''new''\<rparr>"]
  show ?thesis by (auto simp: demo_users demo_env_def bob_def new_user_def demo_user_def)
qed

lemma zero_balances:
  assumes "books_ok d" and "x \<in> set (wallets d)"
    and "\<not> (availableBalance x > 0 \<or> lockedBalance x > 0 \<or> pendingBalance x > 0)"
  shows "availableBalance x = 0 \<and> lockedBalance x = 0 \<and> pendingBalance x = 0"
  using books_nonneg [OF assms(1,2)] assms(3) by auto

lemma denylist_wp:
  assumes "\<And>y. db y = db x \<Longrightarrow> Q () y"
  shows "wp (denylist_revoke k n) Q E x"
proof -
  have "within same_db (denylist_revoke k n)"
    unfolding denylist_revoke_def denylist_failure_def redis_set_ex_def
    by (intro sdb.within_intros audit_same_db within_wpI) (simp add: wp_simps same_db_def)
  moreover obtain y where "denylist_revoke k n x = (Inr (), y)" using denylist_revoke_returns by blast
  ultimately show ?thesis using assms by (auto simp: same_db_def wp_def dest: withinD)
qed

lemma closeAccount_check_run:
  "closeAccount_check i w = (if (case find (\<lambda>x. w_userId x = i) (wallets (db w)) of None \<Rightarrow> False
       | Some x \<Rightarrow> availableBalance x > 0 \<or> lockedBalance x > 0 \<or> pendingBalance x > 0)
     then (Inl (HttpExn ConflictException
       ''Account cannot be closed while funds remain. Please withdraw all funds before closing your account.''), w)
     else (Inr (), w))"
  by (simp add: closeAccount_check_def bindP_def t_find_def getP_def wallets_t_def ret_def throw_def split: option.splits)

lemma closeAccount_writes_shut:
  "wp (closeAccount_writes i) (\<lambda>_ w'. wallets (db w') = wallets (db w)
      \<and> users (db w') = map (\<lambda>x. if u_id x = i then x\<lparr>u_status := CLOSED, u_updatedAt := clock w\<rparr> else x) (users (db w))
      \<and> active_count i (clock w) (refreshTokens (db w')) = 0) (\<lambda>_ _. True) w"
  by (auto simp: closeAccount_writes_def wp_simps users_t_def refreshTokens_t_def Let_def revokeActive_def
    revoked_rows cong: if_cong split: option.splits)

lemma closeAccount_repo_halves:
  assumes "closeAccount_repo i w = (Inr (), w')"
  shows "closeAccount_check i w = (Inr (), w) \<and> closeAccount_writes i w = (Inr (), w')"
proof -
  have "fst (closeAccount_check i w) = Inr ()"
    using assms by (auto simp: closeAccount_repo_def withTransaction_def thenP_def bindP_def closeAccount_check_run split: if_splits)
  then have "closeAccount_check i w = (Inr (), w)" by (simp add: closeAccount_check_run split: if_splits)
  with assms show ?thesis
    by (auto simp: closeAccount_repo_def withTransaction_def thenP_def bindP_def split: prod.splits sum.splits)
qed

text \<open>A call that returns ran the check and the writes, and its other steps write no row.\<close>

lemma closeAccount_halves:
  assumes "closeAccount env i j w = (Inr (), w')"
  shows "\<exists>v. closeAccount_check i w = (Inr (), w) \<and> closeAccount_writes i w = (Inr (), v) \<and> db w' = db v"
proof -
  let ?Q = "\<lambda>d. \<exists>v. closeAccount_check i w = (Inr (), w) \<and> closeAccount_writes i w = (Inr (), v) \<and> d = db v"
  have repo: "wp (closeAccount_repo i) (\<lambda>_ w'. ?Q (db w')) (\<lambda>_ _. True) w"
  proof (cases "closeAccount_repo i w")
    case (Pair r v)
    then show ?thesis using closeAccount_repo_halves [of i w v] by (cases r) (auto simp: wp_def)
  qed
  have "wp (closeAccount env i j) (\<lambda>_ w'. ?Q (db w')) (\<lambda>_ _. True) w"
    unfolding closeAccount_def getAccessTokenTtlSeconds_def
    by (cases "find (\<lambda>u. u_id u = i) (users (db w))")
       (auto simp: users_findById_def wp_bindP wp_thenP wp_find_user wp_findByUserId wp_ret wp_throw wp_parseExpiry
         wp_audit split: option.splits intro!: wp_mono [OF repo] denylist_wp)
  then show ?thesis using assms by (rule wp_returnsD)
qed

text \<open>
  C33. Closing an account, with other transactions committing between its check and its
  writes. A check that passes in \<open>w0\<close> found nothing in any bucket of the user's wallet then
  and changed nothing; the writes, in whatever state \<open>w1\<close> the others have left, move no money,
  close that user's row and no other and leave the user no active session, after which
  neither a login with that email nor an access token of that user is accepted. A call of
  \<open>closeAccount\<close> that returns without such commits is the case \<open>w0 = w1\<close>. That the wallet
  is still empty in \<open>w1\<close> is not claimed: the row is not locked
  (\<open>Isolation.closing_races_with_deposit\<close>).
\<close>

theorem closed_account_is_shut:
  assumes "books_ok (db w0)" and "closeAccount_check i w0 = (Inr (), w0')"
    and "closeAccount_writes i w1 = (Inr (), w2)"
    and "find (\<lambda>x. u_email x = normalizeEmail (ld_email dto)) (users (db w1)) = Some u" and "u_id u = i"
    and "find (\<lambda>x. u_id x = i) (users (db w1)) = Some u" and "sub p = i" and "db v = db w2"
  shows "w0' = w0 \<and> (\<forall>x \<in> set (wallets (db w0)). w_userId x = i \<longrightarrow>
        availableBalance x = 0 \<and> lockedBalance x = 0 \<and> pendingBalance x = 0)
    \<and> wallets (db w2) = wallets (db w1)
    \<and> users (db w2) = map (\<lambda>x. if u_id x = i then x\<lparr>u_status := CLOSED, u_updatedAt := clock w1\<rparr> else x) (users (db w1))
    \<and> active_count i (clock w1) (refreshTokens (db w2)) = 0
    \<and> \<not> returns (login env' dto ua v) \<and> \<not> returns (validate p v)
    \<and> (closeAccount env i j w1 = (Inr (), w3) \<longrightarrow> closeAccount_check i w1 = (Inr (), w1) \<and> db w3 = db w2)"
proof -
  have shut: "wallets (db w2) = wallets (db w1)"
    "users (db w2) = map (\<lambda>x. if u_id x = i then x\<lparr>u_status := CLOSED, u_updatedAt := clock w1\<rparr> else x) (users (db w1))"
    "active_count i (clock w1) (refreshTokens (db w2)) = 0"
    using wp_returnsD [OF closeAccount_writes_shut assms(3)] by blast+
  have "availableBalance x = 0 \<and> lockedBalance x = 0 \<and> pendingBalance x = 0"
    if x: "x \<in> set (wallets (db w0))" "w_userId x = i" for x
  proof -
    have "distinct (map w_userId (wallets (db w0)))" using assms(1) by (simp add: books_ok_def)
    then have "find (\<lambda>y. w_userId y = i) (wallets (db w0)) = Some x" using find_distinct_key [of w_userId _ x] x by simp
    then show ?thesis using zero_balances [OF assms(1) x(1)] assms(2) by (simp add: closeAccount_check_run split: if_splits)
  qed
  moreover have "w0' = w0" using assms(2) by (simp add: closeAccount_check_run split: if_splits)
  moreover have "find (\<lambda>x. u_email x = normalizeEmail (ld_email dto)) (users (db v)) = Some (u\<lparr>u_status := CLOSED, u_updatedAt := clock w1\<rparr>)"
    "find (\<lambda>x. u_id x = i) (users (db v)) = Some (u\<lparr>u_status := CLOSED, u_updatedAt := clock w1\<rparr>)"
    using shut assms(4-6,8) by (simp_all add: find_map_if)
  then have "\<not> returns (login env' dto ua v)" "\<not> returns (validate p v)"
    using assms(7) validate_outcome [of p v]
    by (auto simp: login_def findByEmail_def bindP_def t_find_def getP_def users_t_def Let_def throw_def thenP_def
      audit_warn_def audit_emit_def modP_def returns_def split: sum.splits)
  moreover have "closeAccount env i j w1 = (Inr (), w3) \<longrightarrow> closeAccount_check i w1 = (Inr (), w1) \<and> db w3 = db w2"
    using closeAccount_halves [of env i j w1 w3] assms(3) by auto
  ultimately show ?thesis using shut by blast
qed

text \<open>The user closes the account while a login of the same user is being stored.\<close>

theorem closed_account_is_shut_witness:
  "\<exists>w2. closeAccount_check ''id0'' demo_registered = (Inr (), demo_registered)
     \<and> closeAccount_writes ''id0'' (demo_logged_in None) = (Inr (), w2)
     \<and> active_count ''id0'' (clock (demo_logged_in None)) (refreshTokens (db w2)) = 0
     \<and> \<not> returns (login demo_env \<lparr>ld_email = ''ann@x.y'', ld_password = ''ann''\<rparr> None w2)"
proof -
  let ?dto = "\<lparr>ld_email = ''ann@x.y'', ld_password = ''ann''\<rparr>"
  have email: "normalizeEmail (ld_email ?dto) = ''ann@x.y''" by code_simp
  have "books_ok (db demo_registered)"
    using reachable_sys_ok [OF demo_registered_reachable demo_registry_ok] by (simp add: sys_ok_def)
  moreover have "closeAccount_check ''id0'' demo_registered = (Inr (), demo_registered)"
    by (simp add: closeAccount_check_run demo_registered_def demo_wallet_def)
  moreover obtain w2 where "closeAccount_writes ''id0'' (demo_logged_in None) = (Inr (), w2)"
    by (simp add: closeAccount_writes_def run_defs revokeActive_def demo_users)
  ultimately show ?thesis
    using closed_account_is_shut [of demo_registered "''id0''" demo_registered "demo_logged_in None" w2 ?dto ann
      "\<lparr>sub = ''id0'', jp_email = [], jp_role = USER, jti = ''j''\<rparr>" w2 demo_env None]
    unfolding email by (simp add: demo_users)
qed

section \<open>Registration\<close>

text \<open>
  Registration is unique: with an email that is taken the request is answered with 409
  naming the email, with a phone (trimmed) that is taken with 409 naming the phone, and in
  both cases the database keeps its rows: no user without a wallet is ever left behind.
\<close>

theorem registration_conflicts:
  assumes "\<not> list_ex (\<lambda>u. u_id u = uuids w (Suc (uuid_next w))) (users (db w))"
    and "list_ex (\<lambda>u. u_email u = rd_email dto \<or> u_phone u = trim (rd_phone dto)) (users (db w))"
  shows "\<exists>w'. register env dto ua w = (Inl (HttpExn ConflictException
      (if list_ex (\<lambda>u. u_email u = rd_email dto) (users (db w)) then ''Email already in use'' else ''Phone number already in use'')), w')
    \<and> db w' = db w"
proof -
  have names: "\<not> meta_names_phone [''email'']" "meta_names_phone [''phone'']" by code_simp+
  show ?thesis
    using assms
    by (auto simp: register_def hash_password_def random_string_def bindP_def ret_def createUserWithWallet_def
      catchP_def create_user_block_def withTransaction_def t_create_def users_t_def new_user_def Let_def throw_def names
      list_ex_iff)
qed

theorem registration_conflicts_witness:
  "\<exists>w'. register demo_env \<lparr>rd_name = [], rd_email = ''bob@x.y'', rd_phone = ''1'', rd_password = ''p''\<rparr> None (demo_logged_in None)
     = (Inl (HttpExn ConflictException ''Email already in use''), w') \<and> users (db w') = [ann, bob]"
  using registration_conflicts [of "demo_logged_in None" "\<lparr>rd_name = [], rd_email = ''bob@x.y'', rd_phone = ''1'', rd_password = ''p''\<rparr>"
      demo_env None]
  by (auto simp: demo_users)

section \<open>Clean-up\<close>

lemma cleanup_outcome:
  assumes "0 < n"
  shows "\<exists>r w'. cleanupExpiredTokens n w = Some (r, w')
    \<and> (if redis_ok w (redis_calls w) \<and> redis_live w CLEANUP_LOCK_KEY = None
       then db w' = (db w)\<lparr>refreshTokens := filter (\<lambda>r. \<not> expiresAt r < clock w') (refreshTokens (db w))\<rparr>
       else db w' = db w)"
proof -
  let ?v = "w\<lparr>redis_calls := Suc (redis_calls w), redis := (redis w)(CLEANUP_LOCK_KEY \<mapsto> (''1'', Some (clock w + CLEANUP_LOCK_TTL_SECONDS * 1000)))\<rparr>"
  from cleanup_loop_returns [OF assms, of 0 ?v] obtain k x where x: "cleanup_loop n 0 ?v = Some (k, x)"
    "refreshTokens (db x) = filter (\<lambda>r. \<not> expiresAt r < clock x) (refreshTokens (db w))"
    "db x = (db w)\<lparr>refreshTokens := refreshTokens (db x)\<rparr>"
    by (auto dest: arg_cong [where f = db])
  have del: "db (snd (redis_del key y)) = db y" "clock (snd (redis_del key y)) = clock y" for key y
    by (simp_all add: redis_del_def redis_call_def Let_def)
  obtain r y where y: "redis_del CLEANUP_LOCK_KEY x = (r, y)" by fastforce
  then have "db y = db x" "clock y = clock x" using del [of CLEANUP_LOCK_KEY x] by simp_all
  with x y show ?thesis
    by (auto simp: cleanupExpiredTokens_def redis_set_nx_def redis_call_def Let_def deleteAllExpiredTokens_def)
qed

text \<open>
  C34. The clean-up job ends: for every positive batch size it returns; when it got the lock,
  exactly the tokens that had expired by the instant it stopped are gone, whatever the
  number of batches, and nothing else in the database changed.
\<close>

theorem cleanup_ends:
  assumes "0 < n"
  shows "\<exists>r w'. cleanupExpiredTokens n w = Some (r, w')
    \<and> (if redis_ok w (redis_calls w) \<and> redis_live w CLEANUP_LOCK_KEY = None
       then db w' = (db w)\<lparr>refreshTokens := filter (\<lambda>r. \<not> expiresAt r < clock w') (refreshTokens (db w))\<rparr>
       else db w' = db w)"
  by (rule cleanup_outcome [OF assms])

theorem cleanup_ends_witness:
  "\<exists>r w'. cleanupExpiredTokens 1 ((demo_logged_in None)\<lparr>clock := 600000000\<rparr>) = Some (r, w') \<and> length (refreshTokens (db w')) \<le> 1"
proof -
  obtain r w' where "cleanupExpiredTokens 1 ((demo_logged_in None)\<lparr>clock := 600000000\<rparr>) = Some (r, w')"
    and "db w' = (db (demo_logged_in None))\<lparr>refreshTokens := filter (\<lambda>r. \<not> expiresAt r < clock w') [demo_session None]\<rparr>
      \<or> db w' = db (demo_logged_in None)"
    using cleanup_ends [of 1 "(demo_logged_in None)\<lparr>clock := 600000000\<rparr>"] by (auto split: if_splits)
  then show ?thesis by (intro exI [of _ r] exI [of _ w']) auto
qed

section \<open>Token settings\<close>

text \<open>
  The start-up check and the schema accept the same life times: \<open>parseExpiry\<close> succeeds
  on a text exactly when the schema's pattern matches it, and gives a positive whole number
  of seconds; so a service whose settings pass the schema never fails on them later.
\<close>

theorem expiry_settings_agree:
  "((\<exists>ms. parseExpiry (Some s) w = (Inr ms, w)) \<longleftrightarrow> joi_expiry s)
   \<and> (\<forall>ms. fst (parseExpiry (Some s) w) = Inr ms \<longrightarrow> 1000 \<le> ms \<and> ms mod 1000 = 0)"
proof -
  have "1000 \<le> ms \<and> ms mod 1000 = 0" if m: "fst (parseExpiry (Some s) w) = Inr ms" for ms
  proof -
    from m obtain v u where vu: "expiry_match s = Some (v, u)" "ms = int (nat_val v) * expiry_multiplier u"
      by (auto simp: parseExpiry_def ret_def throw_def split: option.splits)
    then have "valid_expiry (Some s)" by (simp add: valid_expiry_def joi_expiry_iff)
    with expiry_ms_pos [of "Some s"] vu have "1000 \<le> ms" by (simp add: expiry_ms_def)
    moreover have "ms mod 1000 = 0" using vu(2) expiry_multiplier_seconds(1) [of u] by (metis mod_mult_right_eq mult_zero_right mod_0)
    ultimately show ?thesis by simp
  qed
  moreover have "(\<exists>ms. parseExpiry (Some s) w = (Inr ms, w)) \<longleftrightarrow> joi_expiry s"
    by (auto simp: joi_expiry_iff parseExpiry_def ret_def throw_def split: option.splits)
  ultimately show ?thesis by blast
qed

theorem expiry_settings_agree_witness:
  "\<exists>ms. parseExpiry (Some ''5m'') demo_start = (Inr ms, demo_start) \<and> 1000 \<le> ms \<and> ms mod 1000 = 0"
proof -
  have "joi_expiry ''5m''" by code_simp
  with expiry_settings_agree [of "''5m''" demo_start] obtain ms where "parseExpiry (Some ''5m'') demo_start = (Inr ms, demo_start)"
    by blast
  with expiry_settings_agree [of "''5m''" demo_start] show ?thesis by auto
qed

end
