(* ===== verification/Dates.thy ===== *)
theory Dates
  imports Decimal
begin

text \<open>
  The two functions of the JavaScript \<open>Date\<close> the pagination cursor uses:
  \<open>toISOString\<close> and \<open>Date.parse\<close> of an ISO date-time, by the calendar arithmetic of the
  ECMAScript standard. A date is its time value, milliseconds since 1970 in UTC.
\<close>

section \<open>Days, years and months\<close>

definition msPerDay :: int where
  "msPerDay = 86400000"

text \<open>\<open>DayFromYear(y)\<close>: the number of the first day of a year.\<close>

definition DayFromYear :: "int \<Rightarrow> int" where
  "DayFromYear y = 365 * (y - 1970) + (y - 1969) div 4 - (y - 1901) div 100 + (y - 1601) div 400"

definition leap_year :: "int \<Rightarrow> bool" where
  "leap_year y \<longleftrightarrow> y mod 4 = 0 \<and> (y mod 100 \<noteq> 0 \<or> y mod 400 = 0)"

text \<open>The year of a day: the mean length of a year gives it up to one.\<close>

definition year_guess :: "int \<Rightarrow> int" where
  "year_guess d = 1970 + d * 400 div 146097"

definition YearFromDay :: "int \<Rightarrow> int" where
  "YearFromDay d = (let y = year_guess d in
     if d < DayFromYear y then y - 1 else if DayFromYear (y + 1) \<le> d then y + 1 else y)"

definition month_lengths :: "int \<Rightarrow> nat list" where
  "month_lengths y = [31, if leap_year y then 29 else 28, 31, 30, 31, 30, 31, 31, 30, 31, 30, 31]"

text \<open>The month (from 0) and the day in it (from 0) of a day of the year.\<close>

fun split_months :: "nat list \<Rightarrow> nat \<Rightarrow> nat \<times> nat" where
  "split_months [] n = (0, n)"
| "split_months (m # ms) n = (if n < m then (0, n) else (case split_months ms (n - m) of (i, d) \<Rightarrow> (Suc i, d)))"

lemma div_next: "0 < m \<Longrightarrow> (n + 1) div m = n div m + (if (n + 1) mod m = 0 then 1 else (0 :: int))"
proof -
  assume m: "0 < m"
  let ?r = "n mod m"
  have r: "0 \<le> ?r" "?r < m" using m by simp_all
  have n: "n + 1 = m * (n div m) + (?r + 1)" by simp
  show ?thesis
  proof (cases "?r + 1 = m")
    case True
    then have "n + 1 = m * (n div m + 1)" using n by (simp add: distrib_left)
    then have "n + 1 = m * (n div m + 1) + 0" by simp
    from int_div_pos_eq [OF this _ m] int_mod_pos_eq [OF this _ m] show ?thesis by simp
  next
    case False
    then have b: "0 \<le> ?r + 1" "?r + 1 < m" using r by simp_all
    have "(n + 1) div m = n div m" by (rule int_div_pos_eq [OF n b])
    moreover have "(n + 1) mod m = ?r + 1" by (rule int_mod_pos_eq [OF n b])
    ultimately show ?thesis using r by simp
  qed
qed

text \<open>The arithmetic of the two lemmas below, with the quotients as unknowns.\<close>

lemma year_step_arith:
  "a' = a + A \<Longrightarrow> b' = b + B \<Longrightarrow> c' = c + C \<Longrightarrow> 365 + A - B + C = L \<Longrightarrow>
   365 * (y + 1 - 1970) + a' - b' + c' = 365 * (y - 1970) + a - b + c + (L :: int)"
  by simp

lemma year_bounds_arith:
  assumes "4 * a \<le> y - 1969" "y - 1969 < 4 * a + 4" "100 * b \<le> y - 1901" "y - 1901 < 100 * b + 100"
    "400 * c \<le> y - 1601" "y - 1601 < 400 * c + (400 :: int)"
  shows "146097 * (y - 1970) - 800 \<le> 400 * (365 * (y - 1970) + a - b + c)"
    "400 * (365 * (y - 1970) + a - b + c) \<le> 146097 * (y - 1970) + 800"
proof -
  show "146097 * (y - 1970) - 800 \<le> 400 * (365 * (y - 1970) + a - b + c)" using assms unfolding distrib_left right_diff_distrib by linarith
  show "400 * (365 * (y - 1970) + a - b + c) \<le> 146097 * (y - 1970) + 800" using assms unfolding distrib_left right_diff_distrib by linarith
qed

lemma leap_rule:
  "(c \<Longrightarrow> b) \<Longrightarrow> (b \<Longrightarrow> a) \<Longrightarrow>
   365 + (if a then 1 else 0) - (if b then 1 else 0) + (if c then 1 else 0) = (if a \<and> (\<not> b \<or> c) then 366 else (365 :: int))"
  by (cases a; cases b; cases c) simp_all

lemma DayFromYear_step: "DayFromYear (y + 1) = DayFromYear y + (if leap_year y then 366 else 365)"
proof -
  have m: "(y - 1968) mod 4 = 0 \<longleftrightarrow> y mod 4 = 0" "(y - 1900) mod 100 = 0 \<longleftrightarrow> y mod 100 = 0"
    "(y - 1600) mod 400 = 0 \<longleftrightarrow> y mod 400 = 0"
    unfolding mod_eq_0_iff_dvd by (rule dvd_diff_left_iff; simp)+
  have i: "y mod 400 = 0 \<Longrightarrow> y mod 100 = 0" "y mod 100 = 0 \<Longrightarrow> y mod 4 = 0"
    unfolding mod_eq_0_iff_dvd by (rule dvd_trans; simp)+
  have s: "y - 1969 + 1 = y - 1968" "y - 1901 + 1 = y - 1900" "y - 1601 + 1 = y - 1600"
    "y + 1 - 1969 = y - 1968" "y + 1 - 1901 = y - 1900" "y + 1 - 1601 = y - 1600" by simp_all
  have d: "(y - 1968) div 4 = (y - 1969) div 4 + (if y mod 4 = 0 then 1 else 0)"
    "(y - 1900) div 100 = (y - 1901) div 100 + (if y mod 100 = 0 then 1 else 0)"
    "(y - 1600) div 400 = (y - 1601) div 400 + (if y mod 400 = 0 then 1 else 0)"
    using div_next [of 4 "y - 1969"] div_next [of 100 "y - 1901"] div_next [of 400 "y - 1601"]
    unfolding s m by (simp_all only: zero_less_numeral simp_thms)
  show ?thesis
    unfolding DayFromYear_def leap_year_def s
    by (rule year_step_arith [OF d]) (rule leap_rule [OF i])
qed

lemma div_bounds: "0 < m \<Longrightarrow> m * (n div m) \<le> n" "0 < m \<Longrightarrow> n < m * (n div m) + m" for n m :: int
  using pos_mod_sign [of m n] pos_mod_bound [of m n] mult_div_mod_eq [of m n] by linarith+

lemma DayFromYear_bounds:
  "146097 * (y - 1970) - 800 \<le> 400 * DayFromYear y" "400 * DayFromYear y \<le> 146097 * (y - 1970) + 800"
  unfolding DayFromYear_def by (rule year_bounds_arith; rule div_bounds; simp)+

lemma DayFromYear_mono: "x \<le> y \<Longrightarrow> DayFromYear x \<le> DayFromYear y"
proof (induction "nat (y - x)" arbitrary: y)
  case (Suc n)
  then have "DayFromYear x \<le> DayFromYear (y - 1)" by simp
  with DayFromYear_step [of "y - 1"] show ?case by (simp split: if_splits)
qed simp

lemma year_found:
  "400 * x \<le> 146097 * (q - 1) + 800 \<Longrightarrow> 146097 * q \<le> d * 400 \<Longrightarrow> x \<le> (d :: int)"
  "146097 * (q + 2) - 800 \<le> 400 * x \<Longrightarrow> d * 400 < 146097 * q + 146097 \<Longrightarrow> d < (x :: int)"
  unfolding distrib_left right_diff_distrib by (linarith, linarith)

text \<open>The year found is the one whose days contain the day.\<close>

lemma YearFromDay: "DayFromYear (YearFromDay d) \<le> d" "d < DayFromYear (YearFromDay d + 1)"
proof -
  let ?y = "year_guess d" and ?q = "d * 400 div 146097"
  have q: "146097 * ?q \<le> d * 400" "d * 400 < 146097 * ?q + 146097" by (rule div_bounds; simp)+
  have lo: "400 * DayFromYear (?y - 1) \<le> 146097 * (?q - 1) + 800"
    "400 * DayFromYear (?y + 2) \<ge> 146097 * (?q + 2) - 800"
    using DayFromYear_bounds [of "?y - 1"] DayFromYear_bounds [of "?y + 2"] by (simp_all add: year_guess_def)
  have "DayFromYear (?y - 1) \<le> d" by (rule year_found(1) [OF lo(1) q(1)])
  moreover have "d < DayFromYear (?y + 2)" by (rule year_found(2) [OF lo(2) q(2)])
  ultimately show "DayFromYear (YearFromDay d) \<le> d" "d < DayFromYear (YearFromDay d + 1)"
    unfolding YearFromDay_def Let_def by (simp_all add: add.commute)
qed


section \<open>Text\<close>

fun pad :: "nat \<Rightarrow> nat \<Rightarrow> string" where
  "pad 0 n = []"
| "pad (Suc w) n = pad w (n div 10) @ [digit (n mod 10)]"

lemma length_pad [simp]: "length (pad w n) = w"
  by (induction w n rule: pad.induct) simp_all

lemma pad_digits [simp]: "list_all is_digit (pad w n)"
  by (induction w n rule: pad.induct) simp_all

lemma nat_val_pad: "n < 10 ^ w \<Longrightarrow> nat_val (pad w n) = n"
proof (induction w n rule: pad.induct)
  case (2 w n)
  then have "n div 10 < 10 ^ w" by (simp add: less_mult_imp_div_less mult.commute)
  with 2 show ?case by simp
qed simp

text \<open>Years outside \<open>0 .. 9999\<close> are printed with a sign and six digits.\<close>

definition year_str :: "int \<Rightarrow> string" where
  "year_str y = (if 0 \<le> y \<and> y \<le> 9999 then pad 4 (nat y)
     else (if y < 0 then CHR ''-'' else CHR ''+'') # pad 6 (nat \<bar>y\<bar>))"

definition toISOString :: "instant \<Rightarrow> string" where
  "toISOString t =
     (let d = t div msPerDay; ms = nat (t mod msPerDay); y = YearFromDay d;
          (m, dd) = split_months (month_lengths y) (nat (d - DayFromYear y))
      in year_str y @ ''-'' @ pad 2 (m + 1) @ ''-'' @ pad 2 (dd + 1) @ ''T'' @ pad 2 (ms div 3600000) @ '':''
         @ pad 2 (ms div 60000 mod 60) @ '':'' @ pad 2 (ms div 1000 mod 60) @ ''.'' @ pad 3 (ms mod 1000) @ ''Z'')"

text \<open>
  \<open>Date.parse\<close> on the form \<open>YYYY-MM-DDTHH:mm:ss.sssZ\<close>. Which other texts it accepts is in
  part up to the engine: that is the parameter \<open>other\<close>.
\<close>

definition MakeDay :: "int \<Rightarrow> nat \<Rightarrow> nat \<Rightarrow> int" where
  "MakeDay y m dd = DayFromYear y + int (sum_list (take m (month_lengths y)) + dd)"

definition iso_parse :: "string \<Rightarrow> instant option" where
  "iso_parse s =
     (let ys = take 4 s; mo = take 2 (drop 5 s); da = take 2 (drop 8 s); ho = take 2 (drop 11 s);
          mi = take 2 (drop 14 s); se = take 2 (drop 17 s); fr = take 3 (drop 20 s);
          y = int (nat_val ys); m = nat_val mo; d = nat_val da
      in if length s = 24 \<and> [s ! 4, s ! 7, s ! 10, s ! 13, s ! 16, s ! 19, s ! 23] = ''--T::.Z''
           \<and> list_all is_digit (ys @ mo @ da @ ho @ mi @ se @ fr)
           \<and> 1 \<le> m \<and> m \<le> 12 \<and> 1 \<le> d \<and> d \<le> month_lengths y ! (m - 1)
           \<and> nat_val ho < 24 \<and> nat_val mi < 60 \<and> nat_val se < 60
         then Some (MakeDay y (m - 1) (d - 1) * msPerDay
           + int (nat_val ho * 3600000 + nat_val mi * 60000 + nat_val se * 1000 + nat_val fr))
         else None)"

definition Date_parse :: "(string \<Rightarrow> instant option) \<Rightarrow> string \<Rightarrow> instant option" where
  "Date_parse other s = (case iso_parse s of Some t \<Rightarrow> Some t | None \<Rightarrow> other s)"

section \<open>Round trip\<close>

text \<open>The years that are printed with four digits.\<close>

definition four_digit_year :: "instant \<Rightarrow> bool" where
  "four_digit_year t \<longleftrightarrow> 0 \<le> YearFromDay (t div msPerDay) \<and> YearFromDay (t div msPerDay) \<le> 9999"

lemma split_months:
  assumes "n < sum_list ms" and "split_months ms n = (m, d)"
  shows "m < length ms \<and> d < ms ! m \<and> sum_list (take m ms) + d = n"
  using assms
proof (induction ms n arbitrary: m d rule: split_months.induct)
  case (2 x ms n)
  show ?case
  proof (cases "n < x")
    case False
    obtain i where "split_months ms (n - x) = (i, d)" "m = Suc i"
      using 2(3) False by (auto split: prod.splits)
    moreover have "n - x < sum_list ms" using 2(2) False by simp
    ultimately show ?thesis using 2(1) [OF False, of i d] False by auto
  qed (use 2 in auto)
qed simp

lemma month_lengths_sum: "int (sum_list (month_lengths y)) = DayFromYear (y + 1) - DayFromYear y"
  by (simp add: month_lengths_def DayFromYear_step)

lemma month_lengths_le: "m < 12 \<Longrightarrow> month_lengths y ! m \<le> 31"
proof -
  have "list_all (\<lambda>k. k \<le> 31) (month_lengths y)" by (simp add: month_lengths_def)
  moreover have "length (month_lengths y) = 12" by (simp add: month_lengths_def)
  ultimately show "m < 12 \<Longrightarrow> month_lengths y ! m \<le> 31" by (simp add: list_all_length)
qed

lemma clock_sum: "n = s * 1000 + ms \<Longrightarrow> s = m * 60 + se \<Longrightarrow> m = h * 60 + mi \<Longrightarrow>
    h * 3600000 + mi * 60000 + se * 1000 + ms = (n :: nat)"
  by simp

lemma clock_parts:
  fixes n :: nat
  assumes "n < 86400000"
  shows "n div 3600000 < 24" "n div 60000 mod 60 < 60" "n div 1000 mod 60 < 60" "n mod 1000 < 1000"
    and "n div 3600000 * 3600000 + n div 60000 mod 60 * 60000 + n div 1000 mod 60 * 1000 + n mod 1000 = n"
proof -
  have s: "n = n div 1000 * 1000 + n mod 1000" by simp
  have m: "n div 1000 = n div 60000 * 60 + n div 1000 mod 60"
    using div_mult_mod_eq [of "n div 1000" 60] by (simp add: div_mult2_eq [symmetric])
  have h: "n div 60000 = n div 3600000 * 60 + n div 60000 mod 60"
    using div_mult_mod_eq [of "n div 60000" 60] by (simp add: div_mult2_eq [symmetric])
  show "n div 3600000 * 3600000 + n div 60000 mod 60 * 60000 + n div 1000 mod 60 * 1000 + n mod 1000 = n"
    by (rule clock_sum [OF s m h])
  show "n div 3600000 < 24" by (rule less_mult_imp_div_less) (use assms in simp)
qed simp_all

text \<open>The text of a list of parts, read by position.\<close>

lemma iso_shape:
  assumes "length ys = 4" "length mo = 2" "length da = 2" "length ho = 2" "length mi = 2" "length se = 2" "length fr = 3"
    and "s = ys @ ''-'' @ mo @ ''-'' @ da @ ''T'' @ ho @ '':'' @ mi @ '':'' @ se @ ''.'' @ fr @ ''Z''"
  shows "take 4 s = ys" "take 2 (drop 5 s) = mo" "take 2 (drop 8 s) = da" "take 2 (drop 11 s) = ho"
    "take 2 (drop 14 s) = mi" "take 2 (drop 17 s) = se" "take 3 (drop 20 s) = fr" "length s = 24"
    "[s ! 4, s ! 7, s ! 10, s ! 13, s ! 16, s ! 19, s ! 23] = ''--T::.Z''"
  unfolding assms(8) using assms(1-7) by (simp_all add: nth_append)

lemma iso_parse_parts:
  assumes "y \<le> 9999" "m < 12" "d < month_lengths (int y) ! m" "n < 86400000"
    and "s = pad 4 y @ ''-'' @ pad 2 (m + 1) @ ''-'' @ pad 2 (d + 1) @ ''T'' @ pad 2 (n div 3600000) @ '':''
         @ pad 2 (n div 60000 mod 60) @ '':'' @ pad 2 (n div 1000 mod 60) @ ''.'' @ pad 3 (n mod 1000) @ ''Z''"
  shows "iso_parse s = Some (MakeDay (int y) m d * msPerDay + int n)"
proof -
  note shape = iso_shape [OF length_pad length_pad length_pad length_pad length_pad length_pad length_pad assms(5)]
  note c = clock_parts [OF assms(4)]
  have b: "y < 10 ^ 4" "m + 1 < 10 ^ 2" "d + 1 < 10 ^ 2" "n div 3600000 < 10 ^ 2" "n div 60000 mod 60 < 10 ^ 2"
    "n div 1000 mod 60 < 10 ^ 2" "n mod 1000 < 10 ^ 3"
    using assms(1-3) month_lengths_le [OF assms(2), of "int y"] c(1-4) by simp_all
  note v = b [THEN nat_val_pad]
  show ?thesis
    unfolding iso_parse_def Let_def shape v list_all_append
    using assms(2,3) c by (simp only: pad_digits) simp
qed

theorem iso_parse_toISOString:
  assumes "four_digit_year t"
  shows "iso_parse (toISOString t) = Some t"
proof -
  let ?d = "t div msPerDay" and ?n = "nat (t mod msPerDay)"
  define y where "y = YearFromDay ?d"
  define k where "k = nat (?d - DayFromYear y)"
  obtain m dd where md: "split_months (month_lengths y) k = (m, dd)" by fastforce
  have y: "0 \<le> y" "y \<le> 9999" using assms by (simp_all add: four_digit_year_def y_def)
  note in_year = YearFromDay [of ?d, folded y_def]
  have k: "int k = ?d - DayFromYear y" using in_year by (simp add: k_def)
  then have "k < sum_list (month_lengths y)" using in_year month_lengths_sum [of y] by linarith
  from split_months [OF this md] have m: "m < 12" "dd < month_lengths y ! m" "sum_list (take m (month_lengths y)) + dd = k"
    by (simp_all add: month_lengths_def)
  have n: "?n < 86400000" "int ?n = t mod msPerDay"
    using pos_mod_bound [of msPerDay t] pos_mod_sign [of msPerDay t] by (simp_all add: msPerDay_def nat_less_iff)
  have "iso_parse (toISOString t) = Some (MakeDay (int (nat y)) m dd * msPerDay + int ?n)"
    by (rule iso_parse_parts [of "nat y" m dd])
       (use y m n md in \<open>simp_all add: toISOString_def Let_def y_def [symmetric] k_def [symmetric] year_str_def\<close>)
  also have "MakeDay (int (nat y)) m dd = ?d" using y m k by (simp add: MakeDay_def)
  finally show ?thesis using n by (simp add: div_mult_mod_eq)
qed

end
