(* ===== verification/Wallet_Service.thy ===== *)
theory Wallet_Service
  imports Wallet_Repo Json_Text Dates "HOL-Library.Product_Lexorder"
begin

text \<open>
  \<open>wallet/wallet.service.ts\<close> and the two keyset queries of \<open>wallet/wallet.repository.ts\<close>:
  reading a wallet, and paging through wallets and ledger entries with an opaque cursor.
  The locale \<open>keyset_listing\<close> states what a paged listing promises a client and derives that
  following the cursors enumerates the table exactly once; it is interpreted for both
  listings.
\<close>

section \<open>Keyset queries of the repository\<close>

record KeysetCursor =
  kc_createdAt :: string
  kc_id :: string

record WalletFilters =
  wf_status :: "account_status option"
  wf_currency :: "currency option"

text \<open>The \<open>OR\<close> clause of a cursor, on the pair \<open>(createdAt, id)\<close> of a row.\<close>

definition keyset_before :: "instant \<Rightarrow> KeysetCursor \<Rightarrow> instant \<times> uuid \<Rightarrow> bool" where
  "keyset_before date cursor r \<longleftrightarrow> fst r < date \<or> fst r = date \<and> snd r < kc_id cursor"

text \<open>\<open>orderBy: [{ createdAt: 'desc' }, { id: 'desc' }]\<close>\<close>

definition keyset_order :: "('r \<Rightarrow> instant \<times> uuid) \<Rightarrow> 'r list \<Rightarrow> 'r list" where
  "keyset_order key rows = rev (sort_key key rows)"

text \<open>\<open>take: limit + 1\<close>, of which one row only tells that there is more.\<close>

definition keyset_page :: "nat \<Rightarrow> 'r list \<Rightarrow> 'r list \<times> bool" where
  "keyset_page limit found =
     (let rows = take (limit + 1) found; hasMore = length rows > limit
      in (if hasMore then take limit rows else rows, hasMore))"

definition keyset_query ::
  "(string \<Rightarrow> instant option) \<Rightarrow> ('r \<Rightarrow> instant \<times> uuid) \<Rightarrow> KeysetCursor option \<Rightarrow> nat \<Rightarrow> 'r list
   \<Rightarrow> (world, 'r list \<times> bool) prog" where
  "keyset_query other key cursor limit rows = (case cursor of
     None \<Rightarrow> ret (keyset_page limit (keyset_order key rows))
   | Some c \<Rightarrow> (case Date_parse other (kc_createdAt c) of
       None \<Rightarrow> throw PrismaValidation
     | Some date \<Rightarrow> ret (keyset_page limit (keyset_order key (filter (\<lambda>r. keyset_before date c (key r)) rows)))))"

definition wallet_key :: "wallet \<Rightarrow> instant \<times> uuid" where
  "wallet_key x = (w_createdAt x, w_id x)"

definition wallet_matches :: "WalletFilters \<Rightarrow> wallet \<Rightarrow> bool" where
  "wallet_matches filters x \<longleftrightarrow>
     (case wf_status filters of None \<Rightarrow> True | Some s \<Rightarrow> w_status x = s)
   \<and> (case wf_currency filters of None \<Rightarrow> True | Some c \<Rightarrow> w_currency x = c)"

definition wallet_findAll ::
  "(string \<Rightarrow> instant option) \<Rightarrow> WalletFilters \<Rightarrow> KeysetCursor option \<Rightarrow> nat \<Rightarrow> (world, wallet list \<times> bool) prog" where
  "wallet_findAll other filters cursor limit =
     bindP (t_filter wallets_t (wallet_matches filters)) (keyset_query other wallet_key cursor limit)"

text \<open>A ledger entry with the transaction its \<open>select\<close> joins in.\<close>

type_synonym LedgerEntryRecord = "ledger_entry \<times> transaction"

definition entry_key :: "ledger_entry \<Rightarrow> instant \<times> uuid" where
  "entry_key e = (le_createdAt e, le_id e)"

fun join_transactions :: "transaction list \<Rightarrow> ledger_entry list \<Rightarrow> LedgerEntryRecord list option" where
  "join_transactions ts [] = Some []"
| "join_transactions ts (e # es) =
     (case (find (\<lambda>t. tx_id t = le_transactionId e) ts, join_transactions ts es) of
        (Some t, Some rs) \<Rightarrow> Some ((e, t) # rs) | _ \<Rightarrow> None)"

definition findLedgerPage ::
  "(string \<Rightarrow> instant option) \<Rightarrow> uuid \<Rightarrow> KeysetCursor option \<Rightarrow> nat \<Rightarrow> (world, LedgerEntryRecord list \<times> bool) prog" where
  "findLedgerPage other walletId cursor limit =
     bindP (t_filter ledgerEntries_t (\<lambda>e. le_walletId e = walletId)) (\<lambda>rows.
     bindP (keyset_query other entry_key cursor limit rows) (\<lambda>(entries, hasMore).
     bindP (getP (\<lambda>w. join_transactions (transactions (db w)) entries)) (\<lambda>joined.
     case joined of
       None \<Rightarrow> throw (JsError ''Inconsistent query result: Field transaction is required to return data'')
     | Some rs \<Rightarrow> ret (rs, hasMore))))"

section \<open>Responses\<close>

record WalletResponse =
  wr_id :: uuid
  wr_userId :: uuid
  wr_currency :: currency
  wr_status :: account_status
  wr_availableBalance :: string
  wr_lockedBalance :: string
  wr_pendingBalance :: string
  wr_createdAt :: instant
  wr_updatedAt :: instant

definition serializeWallet :: "wallet \<Rightarrow> WalletResponse" where
  "serializeWallet x = \<lparr>wr_id = w_id x, wr_userId = w_userId x, wr_currency = w_currency x,
     wr_status = w_status x, wr_availableBalance = serializeDecimal (availableBalance x),
     wr_lockedBalance = serializeDecimal (lockedBalance x),
     wr_pendingBalance = serializeDecimal (pendingBalance x),
     wr_createdAt = w_createdAt x, wr_updatedAt = w_updatedAt x\<rparr>"

record LedgerTransactionSummary =
  ls_type :: transaction_type
  ls_status :: transaction_status
  ls_description :: "string option"
  ls_senderWalletId :: "uuid option"
  ls_receiverWalletId :: "uuid option"

record LedgerEntryResponse =
  lr_id :: uuid
  lr_walletId :: uuid
  lr_transactionId :: uuid
  lr_direction :: entry_direction
  lr_amount :: string
  lr_currency :: currency
  lr_balanceAfter :: string
  lr_createdAt :: instant
  lr_transaction :: LedgerTransactionSummary

definition serializeLedgerEntry :: "LedgerEntryRecord \<Rightarrow> LedgerEntryResponse" where
  "serializeLedgerEntry = (\<lambda>(e, t). \<lparr>lr_id = le_id e, lr_walletId = le_walletId e,
     lr_transactionId = le_transactionId e, lr_direction = direction e,
     lr_amount = serializeDecimal (le_amount e), lr_currency = le_currency e,
     lr_balanceAfter = serializeDecimal (balanceAfter e), lr_createdAt = le_createdAt e,
     lr_transaction = \<lparr>ls_type = tx_type t, ls_status = tx_status t, ls_description = tx_description t,
       ls_senderWalletId = senderWalletId t, ls_receiverWalletId = receiverWalletId t\<rparr>\<rparr>)"

record WalletPage =
  wp_wallets :: "WalletResponse list"
  wp_nextCursor :: "string option"
  wp_hasMore :: bool

record LedgerPage =
  lp_entries :: "LedgerEntryResponse list"
  lp_nextCursor :: "string option"
  lp_hasMore :: bool

section \<open>Cursors\<close>

definition cursor_json :: "instant \<times> uuid \<Rightarrow> json" where
  "cursor_json r = JObj [(''createdAt'', JStr (toISOString (fst r))), (''id'', JStr (snd r))]"

definition encodeCursor :: "instant \<times> uuid \<Rightarrow> string" where
  "encodeCursor r = base64_encode (stringify (cursor_json r))"

text \<open>\<open>UUID_REGEX\<close>, with its \<open>i\<close> flag.\<close>

definition UUID_REGEX :: "string \<Rightarrow> bool" where
  "UUID_REGEX s \<longleftrightarrow> length s = 36 \<and>
     list_all (\<lambda>(i, c). if List.member [8, 13, 18, 23] i then c = CHR ''-'' else hex_value c \<noteq> None) (enumerate 0 s)"

definition bad_cursor :: "(world, 'a) prog" where
  "bad_cursor = throw (HttpExn BadRequestException ''Invalid pagination cursor'')"

definition decodeCursor :: "(string \<Rightarrow> instant option) \<Rightarrow> string \<Rightarrow> (world, KeysetCursor) prog" where
  "decodeCursor other raw =
     (let decoded = base64_decode raw in
      case json_parse decoded of
        None \<Rightarrow> bad_cursor
      | Some parsed \<Rightarrow>
          (case parsed of
             JObj fs \<Rightarrow>
               (case (payload_get fs ''createdAt'', payload_get fs ''id'') of
                  (Some createdAt, Some i) \<Rightarrow>
                    (case createdAt of
                       JStr c \<Rightarrow>
                         if Date_parse other c = None then bad_cursor
                         else (case i of
                             JStr s \<Rightarrow> if UUID_REGEX s then ret \<lparr>kc_createdAt = c, kc_id = s\<rparr> else bad_cursor
                           | _ \<Rightarrow> bad_cursor)
                     | _ \<Rightarrow> bad_cursor)
                | _ \<Rightarrow> bad_cursor)
           | _ \<Rightarrow> bad_cursor))"

text \<open>\<open>rawCursor ? this.decodeCursor(rawCursor) : null\<close>\<close>

definition cursor_param :: "(string \<Rightarrow> instant option) \<Rightarrow> string option \<Rightarrow> (world, KeysetCursor option) prog" where
  "cursor_param other rawCursor = (case rawCursor of
     None \<Rightarrow> ret None
   | Some raw \<Rightarrow> if raw = [] then ret None else bindP (decodeCursor other raw) (\<lambda>c. ret (Some c)))"

definition next_cursor :: "('r \<Rightarrow> instant \<times> uuid) \<Rightarrow> 'r list \<Rightarrow> bool \<Rightarrow> string option" where
  "next_cursor key rows hasMore = (if hasMore \<and> rows \<noteq> [] then Some (encodeCursor (key (last rows))) else None)"

section \<open>The service\<close>

record LedgerQueryDto =
  lq_cursor :: "string option"
  lq_limit :: nat

record AdminWalletQueryDto =
  aw_status :: "account_status option"
  aw_currency :: "currency option"
  aw_cursor :: "string option"
  aw_limit :: nat

definition getMyWallet :: "uuid \<Rightarrow> (world, WalletResponse) prog" where
  "getMyWallet userId =
     bindP (findByUserId userId) (\<lambda>wallet. case wallet of
       None \<Rightarrow> throw (HttpExn NotFoundException ''Wallet not found'')
     | Some x \<Rightarrow> ret (serializeWallet x))"

definition fetchLedgerPage ::
  "(string \<Rightarrow> instant option) \<Rightarrow> uuid \<Rightarrow> LedgerQueryDto \<Rightarrow> (world, LedgerPage) prog" where
  "fetchLedgerPage other walletId query =
     bindP (cursor_param other (lq_cursor query)) (\<lambda>cursor.
     bindP (findLedgerPage other walletId cursor (lq_limit query)) (\<lambda>(entries, hasMore).
     ret \<lparr>lp_entries = map serializeLedgerEntry entries,
       lp_nextCursor = next_cursor (entry_key \<circ> fst) entries hasMore, lp_hasMore = hasMore\<rparr>))"

definition getMyLedger ::
  "(string \<Rightarrow> instant option) \<Rightarrow> uuid \<Rightarrow> LedgerQueryDto \<Rightarrow> (world, LedgerPage) prog" where
  "getMyLedger other userId query =
     bindP (findByUserId userId) (\<lambda>wallet. case wallet of
       None \<Rightarrow> throw (HttpExn NotFoundException ''Wallet not found'')
     | Some x \<Rightarrow> fetchLedgerPage other (w_id x) query)"

definition getWalletById :: "uuid \<Rightarrow> (world, WalletResponse) prog" where
  "getWalletById i =
     bindP (findById i) (\<lambda>wallet. case wallet of
       None \<Rightarrow> throw (HttpExn NotFoundException ''Wallet not found'')
     | Some x \<Rightarrow> ret (serializeWallet x))"

definition getWalletLedger ::
  "(string \<Rightarrow> instant option) \<Rightarrow> uuid \<Rightarrow> LedgerQueryDto \<Rightarrow> (world, LedgerPage) prog" where
  "getWalletLedger other walletId query =
     bindP (findById walletId) (\<lambda>wallet. case wallet of
       None \<Rightarrow> throw (HttpExn NotFoundException ''Wallet not found'')
     | Some x \<Rightarrow> fetchLedgerPage other walletId query)"

definition listWallets ::
  "(string \<Rightarrow> instant option) \<Rightarrow> AdminWalletQueryDto \<Rightarrow> (world, WalletPage) prog" where
  "listWallets other query =
     bindP (cursor_param other (aw_cursor query)) (\<lambda>cursor.
     bindP (wallet_findAll other \<lparr>wf_status = aw_status query, wf_currency = aw_currency query\<rparr>
       cursor (aw_limit query)) (\<lambda>(page, hasMore).
     ret \<lparr>wp_wallets = map serializeWallet page,
       wp_nextCursor = next_cursor wallet_key page hasMore, wp_hasMore = hasMore\<rparr>))"

section \<open>The cursor survives the round trip through the client\<close>

lemma decode_encode_cursor:
  assumes "four_digit_year (fst r)" and "UUID_REGEX (snd r)"
  shows "decodeCursor other (encodeCursor r) w = (Inr \<lparr>kc_createdAt = toISOString (fst r), kc_id = snd r\<rparr>, w)"
    and "Date_parse other (toISOString (fst r)) = Some (fst r)"
proof -
  let ?kvs = "[(''createdAt'', toISOString (fst r)), (''id'', snd r)]"
  have json: "cursor_json r = JObj (str_fields ?kvs)" by (simp add: cursor_json_def str_fields_def)
  have "json_parse (stringify (JObj (str_fields ?kvs))) = Some (JObj (str_fields ?kvs))"
    by (rule json_roundtrip_strings) simp_all
  then have parsed: "json_parse (base64_decode (encodeCursor r)) = Some (JObj (str_fields ?kvs))"
    by (simp add: encodeCursor_def json)
  show date: "Date_parse other (toISOString (fst r)) = Some (fst r)"
    by (simp add: Date_parse_def iso_parse_toISOString [OF assms(1)])
  show "decodeCursor other (encodeCursor r) w = (Inr \<lparr>kc_createdAt = toISOString (fst r), kc_id = snd r\<rparr>, w)"
    using assms(2) date parsed by (simp add: decodeCursor_def Let_def str_fields_def payload_get_def ret_def)
qed

lemma encodeCursor_nonempty: "encodeCursor r \<noteq> []"
proof
  assume "encodeCursor r = []"
  then have "base64_decode (encodeCursor r) = []" by (simp add: base64_decode_def map_filter_simps)
  then show False by (simp add: encodeCursor_def cursor_json_def)
qed

lemma cursor_param_encoded:
  assumes "four_digit_year (fst r)" and "UUID_REGEX (snd r)"
  shows "cursor_param other (Some (encodeCursor r)) w
    = (Inr (Some \<lparr>kc_createdAt = toISOString (fst r), kc_id = snd r\<rparr>), w)"
  using decode_encode_cursor(1) [OF assms, of other w] encodeCursor_nonempty
  by (simp add: cursor_param_def bindP_def ret_def)

section \<open>Paging\<close>

text \<open>A client that follows the cursors, for at most so many pages.\<close>

fun follow :: "nat \<Rightarrow> (string option \<Rightarrow> (world, 's list \<times> string option) prog) \<Rightarrow> string option
    \<Rightarrow> (world, 's list) prog" where
  "follow 0 f c = throw (JsError ''more pages'')"
| "follow (Suc n) f c = bindP (f c) (\<lambda>(xs, next). case next of
     None \<Rightarrow> ret xs
   | Some c' \<Rightarrow> bindP (follow n f (Some c')) (\<lambda>ys. ret (xs @ ys)))"

text \<open>The page a request answers with: so many of the rows that are left, and the cursor.\<close>

definition page_answer :: "nat \<Rightarrow> ('r \<Rightarrow> string) \<Rightarrow> ('r \<Rightarrow> 's) \<Rightarrow> 'r list \<Rightarrow> 's list \<times> string option" where
  "page_answer limit enc ser rows =
     (map ser (take limit rows), if limit < length rows then Some (enc (rows ! (limit - 1))) else None)"

lemma keyset_order_sorted:
  assumes "distinct (map key rows)"
  shows "sorted_wrt (\<lambda>x y. key y < key x) (keyset_order key rows)"
proof -
  let ?s = "sort_key key rows"
  have "sorted (map key ?s)" by simp
  moreover have "distinct (map key ?s)" using assms by (simp add: distinct_map)
  ultimately have "sorted_wrt (<) (map key ?s)" by (simp add: strict_sorted_iff)
  then show ?thesis by (simp add: keyset_order_def sorted_wrt_map sorted_wrt_rev)
qed

lemma set_keyset_order [simp]: "set (keyset_order key rows) = set rows"
  by (simp add: keyset_order_def)

lemma length_keyset_order [simp]: "length (keyset_order key rows) = length rows"
  by (simp add: keyset_order_def)

lemma filter_after:
  assumes "sorted_wrt (\<lambda>x y. key y < (key x :: 'k :: linorder)) (p @ r # q)"
  shows "filter (\<lambda>x. key x < key r) (p @ r # q) = q"
  using assms by (auto simp: sorted_wrt_append filter_empty_conv filter_id_conv)

lemma keyset_order_filter: "keyset_order key (filter P rows) = filter P (keyset_order key rows)"
  by (simp add: keyset_order_def filter_sort rev_filter [symmetric])

locale keyset_listing =
  fixes request :: "string option \<Rightarrow> (world, 's list \<times> string option) prog"
    and rows :: "world \<Rightarrow> 'r list" and key :: "'r \<Rightarrow> instant \<times> uuid" and enc :: "'r \<Rightarrow> string"
    and ser :: "world \<Rightarrow> 'r \<Rightarrow> 's" and limit :: nat and ok :: "world \<Rightarrow> bool"
  assumes distinct_keys: "ok w \<Longrightarrow> distinct (map key (rows w))"
    and positive: "ok w \<Longrightarrow> 0 < limit"
    and first_page: "ok w \<Longrightarrow> request None w = (Inr (page_answer limit enc (ser w) (keyset_order key (rows w))), w)"
    and next_page: "ok w \<Longrightarrow> r \<in> set (rows w) \<Longrightarrow> request (Some (enc r)) w =
      (Inr (page_answer limit enc (ser w) (filter (\<lambda>x. key x < key r) (keyset_order key (rows w)))), w)"
begin

lemma follow_rest:
  assumes "ok w" and "keyset_order key (rows w) = p @ rs" and "0 < n" and "length rs \<le> n * limit"
    and "request c w = (Inr (page_answer limit enc (ser w) rs), w)"
  shows "follow n request c w = (Inr (map (ser w) rs), w)"
  using assms(2-5)
proof (induction n arbitrary: p rs c)
  case (Suc n)
  show ?case
  proof (cases "limit < length rs")
    case False
    then show ?thesis using Suc.prems(4) by (simp add: bindP_def page_answer_def ret_def)
  next
    case True
    define r where "r = rs ! (limit - 1)"
    have pos: "0 < limit" by (rule positive [OF assms(1)])
    have cut: "take limit rs = take (limit - 1) rs @ [r]"
      using True pos by (metis One_nat_def Suc_pred less_imp_diff_less r_def take_Suc_conv_app_nth)
    then have split: "keyset_order key (rows w) = (p @ take (limit - 1) rs) @ r # drop limit rs"
      using Suc.prems(1) by (metis append.assoc append_Cons append_Nil append_take_drop_id)
    have "sorted_wrt (\<lambda>x y. key y < key x) (keyset_order key (rows w))"
      by (rule keyset_order_sorted [OF distinct_keys [OF assms(1)]])
    then have rest: "filter (\<lambda>x. key x < key r) (keyset_order key (rows w)) = drop limit rs"
      unfolding split by (rule filter_after)
    have "r \<in> set (keyset_order key (rows w))" unfolding split by simp
    then have mem: "r \<in> set (rows w)" by simp
    have len: "length (drop limit rs) \<le> n * limit" "0 < n" using Suc.prems(3) True by (cases n; simp)+
    have "follow n request (Some (enc r)) w = (Inr (map (ser w) (drop limit rs)), w)"
      by (rule Suc.IH [of "p @ take limit rs"])
         (use Suc.prems(1) len next_page [OF assms(1) mem] rest in simp_all)
    moreover have "map (ser w) (take limit rs) @ map (ser w) (drop limit rs) = map (ser w) rs"
      by (metis append_take_drop_id map_append)
    ultimately show ?thesis
      using Suc.prems(4) True by (simp add: bindP_def page_answer_def ret_def r_def del: map_append)
  qed
qed simp

lemma enumerates:
  assumes "ok w" and "0 < n" and "length (rows w) \<le> n * limit"
  shows "follow n request None w = (Inr (map (ser w) (keyset_order key (rows w))), w)"
  by (rule follow_rest [OF assms(1), of "[]"]) (use assms first_page in simp_all)

end

section \<open>The two listings\<close>

lemma keyset_page_answer:
  assumes "0 < limit"
  shows "(case keyset_page limit found of (page, hasMore) \<Rightarrow> (map ser page, next_cursor key page hasMore))
    = page_answer limit (encodeCursor \<circ> key) ser found"
proof (cases "limit < length found")
  case True
  have ne: "take limit found \<noteq> []" using True assms by auto
  then have "last (take limit found) = found ! (limit - 1)" using True assms by (simp add: last_conv_nth min_def)
  with ne show ?thesis using True by (simp add: keyset_page_def Let_def next_cursor_def page_answer_def min_def)
qed (simp add: keyset_page_def Let_def next_cursor_def page_answer_def)

lemma keyset_before_less:
  "keyset_before (fst r) \<lparr>kc_createdAt = c, kc_id = snd r\<rparr> x \<longleftrightarrow> x < r"
  by (cases x; cases r) (auto simp: keyset_before_def less_prod_def)

lemma keyset_query_after:
  assumes "four_digit_year (fst (key r))"
  shows "keyset_query other key (Some \<lparr>kc_createdAt = toISOString (fst (key r)), kc_id = snd (key r)\<rparr>) limit rows w
    = (Inr (keyset_page limit (filter (\<lambda>x. key x < key r) (keyset_order key rows))), w)"
proof -
  have "Date_parse other (toISOString (fst (key r))) = Some (fst (key r))"
    by (simp add: Date_parse_def iso_parse_toISOString [OF assms])
  then show ?thesis by (simp add: keyset_query_def keyset_before_less keyset_order_filter ret_def)
qed

text \<open>The client's view of the two endpoints: the page's items and the next cursor.\<close>

definition wallet_pages ::
  "(string \<Rightarrow> instant option) \<Rightarrow> AdminWalletQueryDto \<Rightarrow> string option \<Rightarrow> (world, WalletResponse list \<times> string option) prog" where
  "wallet_pages other q c = bindP (listWallets other (q\<lparr>aw_cursor := c\<rparr>)) (\<lambda>p. ret (wp_wallets p, wp_nextCursor p))"

definition ledger_pages ::
  "(string \<Rightarrow> instant option) \<Rightarrow> uuid \<Rightarrow> LedgerQueryDto \<Rightarrow> string option
   \<Rightarrow> (world, LedgerEntryResponse list \<times> string option) prog" where
  "ledger_pages other walletId q c =
     bindP (fetchLedgerPage other walletId (q\<lparr>lq_cursor := c\<rparr>)) (\<lambda>p. ret (lp_entries p, lp_nextCursor p))"

text \<open>Ids the cursor accepts, and dates it can spell.\<close>

definition listable :: "('r \<Rightarrow> instant \<times> uuid) \<Rightarrow> 'r list \<Rightarrow> bool" where
  "listable key rows \<longleftrightarrow> distinct (map (snd \<circ> key) rows)
     \<and> list_all (\<lambda>r. four_digit_year (fst (key r)) \<and> UUID_REGEX (snd (key r))) rows"

lemma listableD:
  assumes "listable key rows"
  shows "distinct (map key rows)"
    and "r \<in> set rows \<Longrightarrow> four_digit_year (fst (key r)) \<and> UUID_REGEX (snd (key r))"
proof -
  have "distinct (map snd (map key rows))" using assms by (simp add: listable_def)
  then show "distinct (map key rows)" unfolding distinct_map [of snd] by (rule conjunct1)
qed (use assms in \<open>auto simp: listable_def list_all_iff\<close>)

lemma listable_filter: "listable key rows \<Longrightarrow> listable key (filter P rows)"
  by (auto simp: listable_def list_all_iff distinct_map_filter)

definition wallets_listed :: "AdminWalletQueryDto \<Rightarrow> world \<Rightarrow> wallet list" where
  "wallets_listed q w = filter (wallet_matches \<lparr>wf_status = aw_status q, wf_currency = aw_currency q\<rparr>) (wallets (db w))"

definition wallets_ok :: "AdminWalletQueryDto \<Rightarrow> world \<Rightarrow> bool" where
  "wallets_ok q w \<longleftrightarrow> 0 < aw_limit q \<and> listable wallet_key (wallets_listed q w)"

interpretation wallet_list: keyset_listing "wallet_pages other q" "wallets_listed q" wallet_key
  "encodeCursor \<circ> wallet_key" "\<lambda>_. serializeWallet" "aw_limit q" "wallets_ok q" for other q
proof
  fix w assume ok: "wallets_ok q w"
  then have pos: "0 < aw_limit q" and l: "listable wallet_key (wallets_listed q w)" by (simp_all add: wallets_ok_def)
  show "distinct (map wallet_key (wallets_listed q w))" by (rule listableD(1) [OF l])
  show "0 < aw_limit q" by (rule pos)
  note page = keyset_page_answer [OF pos, of serializeWallet wallet_key, symmetric]
  show "wallet_pages other q None w = (Inr (page_answer (aw_limit q) (encodeCursor \<circ> wallet_key) serializeWallet
      (keyset_order wallet_key (wallets_listed q w))), w)"
    by (simp add: page wallet_pages_def listWallets_def cursor_param_def wallet_findAll_def keyset_query_def
      t_filter_def getP_def bindP_def ret_def wallets_t_def wallets_listed_def split: prod.splits)
  fix r assume "r \<in> set (wallets_listed q w)"
  note r = listableD(2) [OF l this]
  show "wallet_pages other q (Some ((encodeCursor \<circ> wallet_key) r)) w
      = (Inr (page_answer (aw_limit q) (encodeCursor \<circ> wallet_key) serializeWallet
          (filter (\<lambda>x. wallet_key x < wallet_key r) (keyset_order wallet_key (wallets_listed q w)))), w)"
    using cursor_param_encoded [of "wallet_key r" other w] r
      keyset_query_after [of wallet_key r other "aw_limit q" "wallets_listed q w" w]
    by (simp add: page wallet_pages_def listWallets_def wallet_findAll_def t_filter_def getP_def bindP_def ret_def
      wallets_t_def wallets_listed_def [symmetric] split: prod.splits)
qed

definition entries_listed :: "uuid \<Rightarrow> world \<Rightarrow> ledger_entry list" where
  "entries_listed i w = filter (\<lambda>e. le_walletId e = i) (ledgerEntries (db w))"

text \<open>An entry with its transaction, as the join finds it.\<close>

definition joined :: "world \<Rightarrow> ledger_entry \<Rightarrow> LedgerEntryRecord" where
  "joined w e = (e, the (find (\<lambda>t. tx_id t = le_transactionId e) (transactions (db w))))"

definition entries_ok :: "uuid \<Rightarrow> LedgerQueryDto \<Rightarrow> world \<Rightarrow> bool" where
  "entries_ok i q w \<longleftrightarrow> 0 < lq_limit q \<and> listable entry_key (entries_listed i w)
     \<and> list_all (\<lambda>e. has_transaction (db w) (le_transactionId e)) (entries_listed i w)"

lemma join_found:
  assumes "\<And>e. e \<in> set es \<Longrightarrow> has_transaction (db w) (le_transactionId e)"
  shows "join_transactions (transactions (db w)) es = Some (map (joined w) es)"
  using assms
proof (induction es)
  case (Cons e es)
  have "find (\<lambda>t. tx_id t = le_transactionId e) (transactions (db w)) \<noteq> None"
    using Cons.prems [of e] by (auto simp: has_transaction_def list_ex_iff find_None_iff_all)
  then obtain t where "find (\<lambda>t. tx_id t = le_transactionId e) (transactions (db w)) = Some t" by blast
  with Cons show ?case by (simp add: joined_def)
qed simp

lemma findLedgerPage_run:
  assumes "keyset_query other entry_key cursor limit (entries_listed i w) w = (Inr (page, hm), w)"
    and "set page \<subseteq> set (entries_listed i w)"
    and "list_all (\<lambda>e. has_transaction (db w) (le_transactionId e)) (entries_listed i w)"
  shows "findLedgerPage other i cursor limit w = (Inr (map (joined w) page, hm), w)"
proof -
  have "join_transactions (transactions (db w)) page = Some (map (joined w) page)"
    by (rule join_found) (use assms(2,3) in \<open>auto simp: list_all_iff\<close>)
  then show ?thesis
    using assms(1)
    by (simp add: findLedgerPage_def t_filter_def getP_def bindP_def ret_def ledgerEntries_t_def entries_listed_def)
qed

lemma fst_joined [simp]: "fst (joined w e) = e"
  by (simp add: joined_def)

lemma next_cursor_joined: "next_cursor (entry_key \<circ> fst) (map (joined w) page) hm = next_cursor entry_key page hm"
  by (simp add: next_cursor_def last_map)

interpretation ledger_list: keyset_listing "ledger_pages other i q" "entries_listed i" entry_key
  "encodeCursor \<circ> entry_key" "\<lambda>w e. serializeLedgerEntry (joined w e)" "lq_limit q" "entries_ok i q" for other i q
proof
  fix w assume ok: "entries_ok i q w"
  then have pos: "0 < lq_limit q" and l: "listable entry_key (entries_listed i w)"
    and fk: "list_all (\<lambda>e. has_transaction (db w) (le_transactionId e)) (entries_listed i w)"
    by (simp_all add: entries_ok_def)
  show "distinct (map entry_key (entries_listed i w))" by (rule listableD(1) [OF l])
  show "0 < lq_limit q" by (rule pos)
  let ?ser = "\<lambda>e. serializeLedgerEntry (joined w e)"
  note page = keyset_page_answer [OF pos, of ?ser entry_key, symmetric]
  have run: "ledger_pages other i q c w = (Inr (page_answer (lq_limit q) (encodeCursor \<circ> entry_key) ?ser found), w)"
    if "cursor_param other c w = (Inr cur, w)" and "set found \<subseteq> set (entries_listed i w)"
      and "keyset_query other entry_key cur (lq_limit q) (entries_listed i w) w = (Inr (keyset_page (lq_limit q) found), w)"
    for c cur found
  proof -
    obtain pg hm where kp: "keyset_page (lq_limit q) found = (pg, hm)" by fastforce
    then have "set pg \<subseteq> set (entries_listed i w)"
      using that(2) by (auto simp: keyset_page_def Let_def split: if_splits dest: in_set_takeD)
    from findLedgerPage_run [OF _ this fk, of other cur "lq_limit q" hm] that(3) kp
    have "findLedgerPage other i cur (lq_limit q) w = (Inr (map (joined w) pg, hm), w)" by simp
    moreover have "page_answer (lq_limit q) (encodeCursor \<circ> entry_key) ?ser found = (map ?ser pg, next_cursor entry_key pg hm)"
      using page [of found] kp by simp
    ultimately show ?thesis
      using that(1)
      by (simp add: ledger_pages_def fetchLedgerPage_def bindP_def ret_def next_cursor_joined [unfolded comp_def] comp_def)
  qed
  show "ledger_pages other i q None w = (Inr (page_answer (lq_limit q) (encodeCursor \<circ> entry_key) ?ser
      (keyset_order entry_key (entries_listed i w))), w)"
    by (rule run [where cur = None]) (simp_all add: cursor_param_def keyset_query_def ret_def)
  fix r assume "r \<in> set (entries_listed i w)"
  note r = listableD(2) [OF l this]
  show "ledger_pages other i q (Some ((encodeCursor \<circ> entry_key) r)) w = (Inr (page_answer (lq_limit q)
      (encodeCursor \<circ> entry_key) ?ser (filter (\<lambda>x. entry_key x < entry_key r) (keyset_order entry_key (entries_listed i w)))), w)"
    by (rule run [OF _ _ keyset_query_after]) (use r cursor_param_encoded [of "entry_key r" other w] in auto)
qed

end
