(* ===== verification/Stripe_Connect.thy ===== *)
theory Stripe_Connect
  imports Providers
begin

text \<open>
  \<open>stripe-connect/\<close>: onboarding of a user's Stripe Connect account, the signed webhook that
  reports changes of such accounts, and its routing. The Stripe library is a parameter: the
  calls are gateways, and \<open>constructEvent\<close> is any function from body, signature and secret to
  an event or an error. Lines of the debug logger are left out.
\<close>

section \<open>Client\<close>

record connect_account =
  ca_id :: string
  charges_enabled :: bool
  payouts_enabled :: bool

record stripe_event =
  se_id :: string
  se_type :: string
  se_account :: "string option"
  se_object :: payload

record connect_api =
  accounts_create :: "string gateway"
  accounts_retrieve :: "connect_account gateway"
  accountLinks_create :: "string gateway"
  constructEvent :: "string \<Rightarrow> string \<Rightarrow> string \<Rightarrow> exn + stripe_event"

record connect_config =
  connectReturnUrl :: json
  connectRefreshUrl :: json
  connectWebhookSecret :: "string option"
  connectFrontendReturnUrl :: "string option"

definition createAccount :: "connect_api \<Rightarrow> string \<Rightarrow> (world, string) prog" where
  "createAccount api email = call_gateway ''accounts.create'' (accounts_create api)
     [(''type'', JStr ''express''), (''email'', JStr email),
      (''capabilities'', JObj [(''transfers'', JObj [(''requested'', JBool True)])])]"

definition retrieveAccount :: "connect_api \<Rightarrow> string \<Rightarrow> (world, connect_account) prog" where
  "retrieveAccount api accountId =
     call_gateway ''accounts.retrieve'' (accounts_retrieve api) [(''account'', JStr accountId)]"

definition createAccountLink :: "connect_api \<Rightarrow> string \<Rightarrow> json \<Rightarrow> json \<Rightarrow> (world, string) prog" where
  "createAccountLink api accountId returnUrl refreshUrl =
     call_gateway ''accountLinks.create'' (accountLinks_create api)
       [(''account'', JStr accountId), (''return_url'', returnUrl), (''refresh_url'', refreshUrl),
        (''type'', JStr ''account_onboarding'')]"

section \<open>Onboarding\<close>

datatype onboarding_state = not_connected | pending | complete | restricted

record ConnectAccountStatusDto =
  cs_accountId :: "string option"
  chargesEnabled :: bool
  payoutsEnabled :: bool
  onboardingState :: onboarding_state

definition deriveOnboardingState :: "connect_account \<Rightarrow> onboarding_state" where
  "deriveOnboardingState account =
     (if charges_enabled account \<and> payouts_enabled account then complete
      else if charges_enabled account \<and> \<not> payouts_enabled account then restricted
      else pending)"

definition generateOnboardingLink :: "connect_api \<Rightarrow> connect_config \<Rightarrow> string \<Rightarrow> (world, string) prog" where
  "generateOnboardingLink api cfg accountId = catchP
     (createAccountLink api accountId (connectReturnUrl cfg) (connectRefreshUrl cfg))
     (\<lambda>error. throw (HttpExn BadGatewayException ''Unable to generate onboarding link. Please try again.''))"

definition createAndPersistAccount :: "connect_api \<Rightarrow> uuid \<Rightarrow> string \<Rightarrow> (world, string) prog" where
  "createAndPersistAccount api userId userEmail =
     bindP (catchP (createAccount api userEmail)
       (\<lambda>error. throw (HttpExn BadGatewayException ''Unable to create Stripe Connect account. Please try again.'')))
     (\<lambda>accountId. thenP (setConnectAccountId userId accountId) (ret accountId))"

definition createConnectAccount ::
  "connect_api \<Rightarrow> connect_config \<Rightarrow> uuid \<Rightarrow> string \<Rightarrow> (world, string \<times> string) prog" where
  "createConnectAccount api cfg userId userEmail =
     bindP (connect_findById userId) (\<lambda>user. case user of
       None \<Rightarrow> throw (HttpExn NotFoundException ''User not found'')
     | Some (_, linked) \<Rightarrow>
         bindP (if truthy linked then ret (the linked) else createAndPersistAccount api userId userEmail) (\<lambda>accountId.
         bindP (generateOnboardingLink api cfg accountId) (\<lambda>onboardingUrl.
         thenP (audit_log STRIPE_CONNECT_ACCOUNT_CREATED
           \<lparr>ac_userId = Some userId, ac_userAgent = None, ac_meta = [(''accountId'', JStr accountId)]\<rparr>)
         (ret (accountId, onboardingUrl)))))"

definition getAccountStatus :: "connect_api \<Rightarrow> uuid \<Rightarrow> (world, ConnectAccountStatusDto) prog" where
  "getAccountStatus api userId =
     bindP (connect_findById userId) (\<lambda>user. case user of
       None \<Rightarrow> throw (HttpExn NotFoundException ''User not found'')
     | Some (_, linked) \<Rightarrow>
         if \<not> truthy linked
         then ret \<lparr>cs_accountId = None, chargesEnabled = False, payoutsEnabled = False, onboardingState = not_connected\<rparr>
         else bindP (catchP (retrieveAccount api (the linked))
             (\<lambda>error. throw (HttpExn BadGatewayException
               ''Unable to retrieve account status from Stripe. Please try again.'')))
           (\<lambda>account. ret \<lparr>cs_accountId = Some (ca_id account), chargesEnabled = charges_enabled account,
             payoutsEnabled = payouts_enabled account, onboardingState = deriveOnboardingState account\<rparr>))"

definition refreshOnboardingLink :: "connect_api \<Rightarrow> connect_config \<Rightarrow> uuid \<Rightarrow> (world, string) prog" where
  "refreshOnboardingLink api cfg userId =
     bindP (connect_findById userId) (\<lambda>user. case user of
       None \<Rightarrow> throw (HttpExn NotFoundException ''User not found'')
     | Some (_, linked) \<Rightarrow>
         if \<not> truthy linked
         then throw (HttpExn BadRequestException
           ''No Stripe Connect account found. Call POST /stripe-connect/accounts first.'')
         else generateOnboardingLink api cfg (the linked))"

text \<open>The redirects of \<open>stripe-connect.controller.ts\<close> after, and during, onboarding.\<close>

definition handleReturn :: "connect_config \<Rightarrow> string" where
  "handleReturn cfg = (case connectFrontendReturnUrl cfg of None \<Rightarrow> ''/'' | Some url \<Rightarrow> url)"

definition handleRefresh :: "connect_config \<Rightarrow> string" where
  "handleRefresh cfg = (if truthy (connectFrontendReturnUrl cfg)
     then the (connectFrontendReturnUrl cfg) @ ''?refresh=true'' else ''/?refresh=true'')"

section \<open>Webhook\<close>

text \<open>The truth value of a JSON value; a number is false when all its digits are zero.\<close>

definition js_truthy :: "json option \<Rightarrow> bool" where
  "js_truthy v = (case v of
     None \<Rightarrow> False | Some JNull \<Rightarrow> False | Some (JBool b) \<Rightarrow> b | Some (JInt n) \<Rightarrow> n \<noteq> 0 | Some (JDec d) \<Rightarrow> d \<noteq> 0
   | Some (JNum s) \<Rightarrow> list_ex (\<lambda>c. is_digit c \<and> c \<noteq> CHR ''0'') (takeWhile (\<lambda>c. c \<noteq> CHR ''e'' \<and> c \<noteq> CHR ''E'') s)
   | Some (JStr s) \<Rightarrow> s \<noteq> [] | Some (JArr _) \<Rightarrow> True | Some (JObj _) \<Rightarrow> True)"

definition json_field :: "payload \<Rightarrow> string \<Rightarrow> json" where
  "json_field p k = (case payload_get p k of None \<Rightarrow> JNull | Some v \<Rightarrow> v)"

text \<open>A lookup by a value that is no string is rejected by Prisma's argument validation.\<close>

definition handleAccountUpdated :: "stripe_event \<Rightarrow> (world, unit) prog" where
  "handleAccountUpdated event = (case payload_get (se_object event) ''id'' of
     Some (JStr accountId) \<Rightarrow>
       bindP (findByConnectAccountId accountId) (\<lambda>user. case user of
         None \<Rightarrow> ret ()
       | Some (userId, _) \<Rightarrow>
           whenP (js_truthy (payload_get (se_object event) ''charges_enabled'')
               \<and> js_truthy (payload_get (se_object event) ''payouts_enabled''))
             (audit_log STRIPE_CONNECT_ONBOARDING_COMPLETED
               \<lparr>ac_userId = Some userId, ac_userAgent = None, ac_meta = [(''accountId'', JStr accountId),
                 (''chargesEnabled'', json_field (se_object event) ''charges_enabled''),
                 (''payoutsEnabled'', json_field (se_object event) ''payouts_enabled'')]\<rparr>))
   | _ \<Rightarrow> throw PrismaValidation)"

definition deauthorized_audit :: "uuid \<Rightarrow> payload \<Rightarrow> audit_context" where
  "deauthorized_audit userId meta = \<lparr>ac_userId = Some userId, ac_userAgent = None, ac_meta = meta\<rparr>"

definition handleAccountDeauthorized :: "stripe_event \<Rightarrow> (world, unit) prog" where
  "handleAccountDeauthorized event =
     (if \<not> truthy (se_account event) then ret ()
      else let accountId = the (se_account event) in
        bindP (findByConnectAccountId accountId) (\<lambda>user. case user of
          None \<Rightarrow> ret ()
        | Some (userId, _) \<Rightarrow>
            bindP (catchP (thenP (clearConnectAccountId userId) (ret True))
              (\<lambda>error. thenP (audit_error STRIPE_CONNECT_ACCOUNT_DEAUTHORIZED (deauthorized_audit userId
                  [(''accountId'', JStr accountId), (''cleared'', JBool False), (''error'', JStr ''db_write_failed'')]))
                (ret False)))
            (\<lambda>cleared. whenP cleared (audit_warn STRIPE_CONNECT_ACCOUNT_DEAUTHORIZED (deauthorized_audit userId
                [(''accountId'', JStr accountId), (''cleared'', JBool True)])))))"

definition handleCapabilityUpdated :: "stripe_event \<Rightarrow> (world, unit) prog" where
  "handleCapabilityUpdated event = ret ()"

definition route :: "stripe_event \<Rightarrow> (world, unit) prog" where
  "route event =
     (if se_type event = ''account.updated'' then handleAccountUpdated event
      else if se_type event = ''account.application.deauthorized'' then handleAccountDeauthorized event
      else if se_type event = ''capability.updated'' then handleCapabilityUpdated event
      else ret ())"

text \<open>The request: its raw body, when the application keeps it, and its signature header.\<close>

definition handleWebhook ::
  "connect_api \<Rightarrow> connect_config \<Rightarrow> string option \<Rightarrow> string option \<Rightarrow> (world, bool) prog" where
  "handleWebhook api cfg rawBody signature =
     (if \<not> truthy (connectWebhookSecret cfg)
      then throw (HttpExn UnauthorizedException ''Webhook endpoint not configured'')
      else if \<not> truthy signature
      then throw (HttpExn UnauthorizedException ''Missing Stripe-Signature header'')
      else case rawBody of
        None \<Rightarrow> throw (HttpExn UnauthorizedException (''Webhook misconfigured '' @ em_dash @ '' contact support''))
      | Some body \<Rightarrow>
          (case constructEvent api body (the signature) (the (connectWebhookSecret cfg)) of
             Inl error \<Rightarrow> throw (HttpExn UnauthorizedException ''Invalid webhook signature'')
           | Inr event \<Rightarrow> thenP (catchP (route event) (\<lambda>error. ret ())) (ret True)))"

end
