(* ===== verification/Http_Layer.thy ===== *)
theory Http_Layer
  imports Auth_Service Dates
begin

text \<open>
  The HTTP edge: \<open>common/filters/http-exception.filter.ts\<close> (every thrown value becomes the
  standard error body), the response envelope, the request-context interceptor and the
  health check. What the framework adds to an exception class (its status and its body) is
  \<open>nest_exception\<close>.
\<close>

section \<open>What a handler may throw\<close>

datatype message = One string | Many "string list"

text \<open>\<open>HttpException.getResponse()\<close> is a text or an object with optional fields.\<close>

datatype http_body = TextBody string | ObjectBody "message option" "string option"

record http_exception =
  he_status :: nat
  he_message :: string
  he_body :: http_body
  he_stack :: string

text \<open>What every \<open>Error\<close> object carries besides its class.\<close>

record js_error =
  je_message :: string
  je_stack :: string

text \<open>\<open>meta.target\<close> of a Prisma error: absent, one field or a list of fields.\<close>

datatype target = NoTarget | Field string | Fields "string list"

datatype thrown =
    HttpException http_exception
  | PrismaClientKnownRequestError string target js_error
  | PrismaClientValidationError js_error
  | OtherError js_error
  | OtherValue string

definition http_status :: "http_kind \<Rightarrow> nat" where
  "http_status k = (case k of BadRequestException \<Rightarrow> 400 | UnauthorizedException \<Rightarrow> 401 | ForbiddenException \<Rightarrow> 403
     | NotFoundException \<Rightarrow> 404 | ConflictException \<Rightarrow> 409 | UnprocessableEntityException \<Rightarrow> 422
     | BadGatewayException \<Rightarrow> 502 | ServiceUnavailableException \<Rightarrow> 503)"

definition http_name :: "http_kind \<Rightarrow> string" where
  "http_name k = (case k of BadRequestException \<Rightarrow> ''Bad Request'' | UnauthorizedException \<Rightarrow> ''Unauthorized''
     | ForbiddenException \<Rightarrow> ''Forbidden'' | NotFoundException \<Rightarrow> ''Not Found'' | ConflictException \<Rightarrow> ''Conflict''
     | UnprocessableEntityException \<Rightarrow> ''Unprocessable Entity'' | BadGatewayException \<Rightarrow> ''Bad Gateway''
     | ServiceUnavailableException \<Rightarrow> ''Service Unavailable'')"

text \<open>
  The texts that are not the repository's: the message the database library gives an error
  of its own and the stack the runtime records for any error.
\<close>

record error_texts =
  et_message :: "exn \<Rightarrow> string"
  et_stack :: "exn \<Rightarrow> string"

definition nest_exception :: "error_texts \<Rightarrow> http_kind \<Rightarrow> string \<Rightarrow> http_exception" where
  "nest_exception texts k m = \<lparr>he_status = http_status k, he_message = m,
     he_body = ObjectBody (Some (One m)) (Some (http_name k)), he_stack = et_stack texts (HttpExn k m)\<rparr>"

text \<open>What the exceptions of the model are for the filter's \<open>instanceof\<close> tests.\<close>

fun thrown_of :: "error_texts \<Rightarrow> exn \<Rightarrow> thrown" where
  "thrown_of texts (HttpExn k m) = HttpException (nest_exception texts k m)"
| "thrown_of texts (PrismaKnown code targets) =
     PrismaClientKnownRequestError code (if targets = [] then NoTarget else Fields targets)
       \<lparr>je_message = et_message texts (PrismaKnown code targets), je_stack = et_stack texts (PrismaKnown code targets)\<rparr>"
| "thrown_of texts PrismaValidation = PrismaClientValidationError
       \<lparr>je_message = et_message texts PrismaValidation, je_stack = et_stack texts PrismaValidation\<rparr>"
| "thrown_of texts (StripeError m raw) = OtherError \<lparr>je_message = m, je_stack = et_stack texts (StripeError m raw)\<rparr>"
| "thrown_of texts (JsError m) = OtherError \<lparr>je_message = m, je_stack = et_stack texts (JsError m)\<rparr>"
| "thrown_of texts (ThrownValue v) = OtherValue v"

section \<open>The exception filter\<close>

record StandardErrorResponse =
  er_statusCode :: nat
  er_message :: message
  er_error :: string
  er_path :: string
  er_timestamp :: string

text \<open>A line the filter's logger writes: level, message, and the stack or value given with it.\<close>

record log_line =
  ll_level :: log_level
  ll_text :: string
  ll_detail :: "string option"

definition statusName :: "nat \<Rightarrow> string" where
  "statusName status =
     (if status = 400 then ''Bad Request''
      else if status = 401 then ''Unauthorized''
      else if status = 403 then ''Forbidden''
      else if status = 404 then ''Not Found''
      else if status = 409 then ''Conflict''
      else if status = 422 then ''Unprocessable Entity''
      else if status = 429 then ''Too Many Requests''
      else if status = 500 then ''Internal Server Error''
      else if status = 503 then ''Service Unavailable''
      else if status \<ge> 500 then ''Internal Server Error'' else ''Error'')"

definition unpackHttpExceptionBody :: "http_exception \<Rightarrow> message \<times> string" where
  "unpackHttpExceptionBody e = (case he_body e of
     TextBody body \<Rightarrow> (One body, statusName (he_status e))
   | ObjectBody m n \<Rightarrow>
       (case m of None \<Rightarrow> One (he_message e) | Some x \<Rightarrow> x,
        case n of None \<Rightarrow> statusName (he_status e) | Some x \<Rightarrow> x))"

fun join_with :: "string \<Rightarrow> string list \<Rightarrow> string" where
  "join_with sep [] = []"
| "join_with sep [x] = x"
| "join_with sep (x # y # xs) = x @ sep @ join_with sep (y # xs)"

definition target_text :: "target \<Rightarrow> string" where
  "target_text t = (case t of NoTarget \<Rightarrow> [] | Field s \<Rightarrow> s | Fields ss \<Rightarrow> join_with '', '' ss)"

definition mapPrismaKnownError :: "string \<Rightarrow> target \<Rightarrow> string \<Rightarrow> string \<Rightarrow> log_line list \<times> StandardErrorResponse" where
  "mapPrismaKnownError code tgt path timestamp =
     (if code = ''P2002''
      then ([], \<lparr>er_statusCode = 409,
        er_message = One (if target_text tgt \<noteq> [] then ''A user with this '' @ target_text tgt @ '' already exists''
          else ''A user with these unique values already exists''),
        er_error = ''Conflict'', er_path = path, er_timestamp = timestamp\<rparr>)
      else if code = ''P2025''
      then ([], \<lparr>er_statusCode = 404, er_message = One ''The requested record was not found'',
        er_error = ''Not Found'', er_path = path, er_timestamp = timestamp\<rparr>)
      else if code = ''P2003''
      then ([], \<lparr>er_statusCode = 400, er_message = One ''Referenced record does not exist'',
        er_error = ''Bad Request'', er_path = path, er_timestamp = timestamp\<rparr>)
      else if code = ''P2014''
      then ([], \<lparr>er_statusCode = 400, er_message = One ''Operation would violate a required relation'',
        er_error = ''Bad Request'', er_path = path, er_timestamp = timestamp\<rparr>)
      else ([\<lparr>ll_level = ErrorLevel, ll_text = ''Unmapped Prisma error code '' @ code @ '' on '' @ path, ll_detail = None\<rparr>],
        \<lparr>er_statusCode = 500, er_message = One ''A database error occurred'',
        er_error = ''Internal Server Error'', er_path = path, er_timestamp = timestamp\<rparr>))"

definition toStandardError :: "thrown \<Rightarrow> string \<Rightarrow> instant \<Rightarrow> log_line list \<times> StandardErrorResponse" where
  "toStandardError exception path date =
     (let timestamp = toISOString date in
      case exception of
        HttpException e \<Rightarrow>
          (let (m, errorName) = unpackHttpExceptionBody e in
           ([], \<lparr>er_statusCode = he_status e, er_message = m, er_error = errorName, er_path = path,
              er_timestamp = timestamp\<rparr>))
      | PrismaClientKnownRequestError code tgt _ \<Rightarrow> mapPrismaKnownError code tgt path timestamp
      | PrismaClientValidationError _ \<Rightarrow>
          ([], \<lparr>er_statusCode = 400, er_message = One ''Invalid query parameters'', er_error = ''Bad Request'',
           er_path = path, er_timestamp = timestamp\<rparr>)
      | _ \<Rightarrow>
          ([], \<lparr>er_statusCode = 500, er_message = One ''Internal server error'', er_error = ''Internal Server Error'',
           er_path = path, er_timestamp = timestamp\<rparr>))"

text \<open>\<open>exception instanceof Error ? exception.stack : String(exception)\<close>\<close>

fun raw_text :: "thrown \<Rightarrow> string" where
  "raw_text (HttpException e) = he_stack e"
| "raw_text (PrismaClientKnownRequestError _ _ x) = je_stack x"
| "raw_text (PrismaClientValidationError x) = je_stack x"
| "raw_text (OtherError x) = je_stack x"
| "raw_text (OtherValue s) = s"

text \<open>The message of the log line; the arrow is written as its UTF-8 bytes.\<close>

definition answer_line :: "string \<Rightarrow> string \<Rightarrow> StandardErrorResponse \<Rightarrow> string" where
  "answer_line verb path payload = verb @ '' '' @ path @ '' '' @ [CHR 0xE2, CHR 0x86, CHR 0x92] @ '' ''
     @ nat_str (er_statusCode payload) @ '' '' @ er_error payload"

text \<open>The log lines and the answer.\<close>

definition catch_exception :: "thrown \<Rightarrow> string \<Rightarrow> string \<Rightarrow> instant \<Rightarrow> log_line list \<times> StandardErrorResponse" where
  "catch_exception exception verb path date =
     (case toStandardError exception path date of (lines, payload) \<Rightarrow>
       (lines @ [if er_statusCode payload \<ge> 500
          then \<lparr>ll_level = ErrorLevel, ll_text = answer_line verb path payload, ll_detail = Some (raw_text exception)\<rparr>
          else \<lparr>ll_level = WarnLevel, ll_text = answer_line verb path payload, ll_detail = None\<rparr>],
        payload))"

section \<open>Interceptors\<close>

record 'a ApiResponse =
  api_data :: 'a
  meta_timestamp :: string

definition ResponseInterceptor :: "(world, 'a) prog \<Rightarrow> (world, 'a ApiResponse) prog" where
  "ResponseInterceptor next =
     bindP next (\<lambda>data. bindP now (\<lambda>date. ret \<lparr>api_data = data, meta_timestamp = toISOString date\<rparr>))"

record http_request =
  hq_x_request_id :: "string option"
  hq_user_agent :: "string option"
  hq_ip :: string
  hq_user :: "jwt_payload option"

text \<open>\<open>requestContextStore.run\<close>: the context is in place while the handler runs.\<close>

definition RequestContextInterceptor :: "http_request \<Rightarrow> (world, 'a) prog \<Rightarrow> (world, 'a) prog" where
  "RequestContextInterceptor request next =
     bindP (if truthy (hq_x_request_id request) then ret (the (hq_x_request_id request)) else random_string) (\<lambda>requestId.
     bindP (getP ctx) (\<lambda>outer.
     thenP (modP (\<lambda>w. w\<lparr>ctx := Some \<lparr>rc_requestId = requestId, rc_ip = hq_ip request,
       rc_userId = map_option sub (hq_user request), rc_userAgent = hq_user_agent request\<rparr>\<rparr>))
     (finallyP next (modP (\<lambda>w. w\<lparr>ctx := outer\<rparr>)))))"

section \<open>Health\<close>

record health_report =
  health_ok :: bool
  redis_service :: bool
  database_service :: bool

definition redis_ping :: "(world, unit) prog" where
  "redis_ping = redis_call (\<lambda>w. ((), redis w))"

text \<open>\<open>Promise.allSettled\<close>: both probes run, and neither can fail the check.\<close>

definition health_check :: "bool \<Rightarrow> (world, health_report) prog" where
  "health_check database_up =
     bindP (catchP (thenP redis_ping (ret True)) (\<lambda>error. ret False)) (\<lambda>r.
     bindP (catchP (if database_up then ret True else throw (JsError ''database unavailable'')) (\<lambda>error. ret False)) (\<lambda>d.
     ret \<lparr>health_ok = (r \<and> d), redis_service = r, database_service = d\<rparr>))"

end
