(* ===== verification/Configuration.thy ===== *)
theory Configuration
  imports Providers Crypto_Service
begin

text \<open>
  \<open>config/configuration.ts\<close>, the schema \<open>config/config.schema.ts\<close>, the start-up
  checks of \<open>main.ts\<close>, the Redis retry strategy and the slow-query log. The environment is a
  function from variable names to texts.
\<close>

section \<open>Reading numbers and lists\<close>

text \<open>\<open>parseInt(s, 10)\<close>: white space, a sign, then as many digits as there are; no digit is NaN.\<close>

definition parseInt :: "string option \<Rightarrow> int option" where
  "parseInt s = (case s of None \<Rightarrow> None | Some t \<Rightarrow>
     (let u = dropWhile is_space t;
          neg = (u \<noteq> [] \<and> hd u = CHR ''-'');
          v = (if u \<noteq> [] \<and> (hd u = CHR ''-'' \<or> hd u = CHR ''+'') then tl u else u);
          ds = takeWhile is_digit v
      in if ds = [] then None else Some ((if neg then -1 else 1) * int (nat_val ds))))"

text \<open>\<open>parseInt(s, 10) || d\<close>: the default also replaces zero.\<close>

definition int_or :: "string option \<Rightarrow> int \<Rightarrow> int" where
  "int_or s d = (case parseInt s of None \<Rightarrow> d | Some n \<Rightarrow> if n = 0 then d else n)"

text \<open>\<open>s || d\<close> and \<open>s ?? d\<close> on texts.\<close>

definition str_or :: "string option \<Rightarrow> string \<Rightarrow> string" where
  "str_or s d = (if truthy s then the s else d)"

definition str_nullish :: "string option \<Rightarrow> string \<Rightarrow> string" where
  "str_nullish s d = (case s of None \<Rightarrow> d | Some t \<Rightarrow> t)"

text \<open>\<open>s.split(',')\<close>\<close>

fun split_comma :: "string \<Rightarrow> string list" where
  "split_comma [] = [[]]"
| "split_comma (c # s) = (if c = CHR '','' then [] # split_comma s
     else (case split_comma s of [] \<Rightarrow> [[c]] | x # xs \<Rightarrow> (c # x) # xs))"

section \<open>The configuration object\<close>

record app_config =
  app_env :: string
  app_port :: int
  allowedOrigins :: "string list"
  database_url :: "string option"
  database_poolSize :: int
  slowQueryThresholdMs :: int
  jwt_accessSecret :: "string option"
  jwt_accessExpiry :: string
  jwt_refreshExpiry :: string
  auth_maxSessions :: int
  token_hashSecret :: "string option"
  cache_encryptionKey :: "string option"
  redis_host :: string
  redis_port :: int
  redis_password :: "string option"
  swagger_user :: "string option"
  swagger_password :: "string option"
  braintree_merchantId :: "string option"
  braintree_publicKey :: "string option"
  braintree_privateKey :: "string option"
  braintree_environment :: string
  stripe_secretKey :: "string option"
  stripe_webhookSecret :: "string option"
  stripe_connectWebhookSecret :: "string option"
  stripe_connectReturnUrl :: "string option"
  stripe_connectRefreshUrl :: "string option"
  stripe_connectFrontendReturnUrl :: "string option"
  paypal_clientId :: "string option"
  paypal_clientSecret :: "string option"
  paypal_environment :: string

definition configuration :: "(string \<Rightarrow> string option) \<Rightarrow> app_config" where
  "configuration env = \<lparr>
     app_env = str_or (env ''ENV'') ''development'',
     app_port = int_or (env ''PORT'') 3000,
     allowedOrigins = (case env ''ALLOWED_ORIGINS'' of None \<Rightarrow> [] | Some s \<Rightarrow> split_comma s),
     database_url = env ''DATABASE_URL'',
     database_poolSize = int_or (env ''DATABASE_POOL_SIZE'') 10,
     slowQueryThresholdMs = int_or (env ''SLOW_QUERY_THRESHOLD_MS'') 100,
     jwt_accessSecret = env ''JWT_ACCESS_SECRET'',
     jwt_accessExpiry = str_nullish (env ''JWT_ACCESS_EXPIRY'') ''5m'',
     jwt_refreshExpiry = str_nullish (env ''JWT_REFRESH_EXPIRY'') ''7d'',
     auth_maxSessions = int_or (env ''MAX_SESSIONS'') 10,
     token_hashSecret = env ''TOKEN_HASH_SECRET'',
     cache_encryptionKey = env ''CACHE_ENCRYPTION_KEY'',
     redis_host = str_nullish (env ''REDIS_HOST'') ''localhost'',
     redis_port = int_or (env ''REDIS_PORT'') 6379,
     redis_password = env ''REDIS_PASSWORD'',
     swagger_user = env ''SWAGGER_USER'',
     swagger_password = env ''SWAGGER_PASSWORD'',
     braintree_merchantId = env ''BRAINTREE_MERCHANT_ID'',
     braintree_publicKey = env ''BRAINTREE_PUBLIC_KEY'',
     braintree_privateKey = env ''BRAINTREE_PRIVATE_KEY'',
     braintree_environment = str_or (env ''BRAINTREE_ENVIRONMENT'') ''sandbox'',
     stripe_secretKey = env ''STRIPE_SECRET_KEY'',
     stripe_webhookSecret = env ''STRIPE_WEBHOOK_SECRET'',
     stripe_connectWebhookSecret = env ''STRIPE_CONNECT_WEBHOOK_SECRET'',
     stripe_connectReturnUrl = env ''STRIPE_CONNECT_RETURN_URL'',
     stripe_connectRefreshUrl = env ''STRIPE_CONNECT_REFRESH_URL'',
     stripe_connectFrontendReturnUrl = env ''STRIPE_CONNECT_FRONTEND_RETURN_URL'',
     paypal_clientId = env ''PAYPAL_CLIENT_ID'',
     paypal_clientSecret = env ''PAYPAL_CLIENT_SECRET'',
     paypal_environment = str_or (env ''PAYPAL_ENVIRONMENT'') ''sandbox''\<rparr>"

text \<open>\<open>ProviderConfigService\<close>: what the Stripe and Braintree libraries are constructed with, and
  what the PayPal token client reads.\<close>

record stripe_config =
  sc_secretKey :: "string option"
  sc_webhookSecret :: "string option"

record braintree_config =
  bc_merchantId :: "string option"
  bc_publicKey :: "string option"
  bc_privateKey :: "string option"
  bc_environment :: string

definition StripeConfig :: "app_config \<Rightarrow> stripe_config" where
  "StripeConfig c = \<lparr>sc_secretKey = stripe_secretKey c, sc_webhookSecret = stripe_webhookSecret c\<rparr>"

definition BraintreeConfig :: "app_config \<Rightarrow> braintree_config" where
  "BraintreeConfig c = \<lparr>bc_merchantId = braintree_merchantId c, bc_publicKey = braintree_publicKey c,
     bc_privateKey = braintree_privateKey c, bc_environment = braintree_environment c\<rparr>"

definition PaypalConfig :: "app_config \<Rightarrow> paypal_config" where
  "PaypalConfig c = \<lparr>pc_clientId = paypal_clientId c, pc_clientSecret = paypal_clientSecret c,
     pc_environment = paypal_environment c\<rparr>"

section \<open>Origins and start-up\<close>

text \<open>The schema's custom rule for \<open>ALLOWED_ORIGINS\<close>.\<close>

definition joi_origins :: "string \<Rightarrow> bool" where
  "joi_origins value \<longleftrightarrow> \<not> List.member (map trim (split_comma value)) ''*''"

text \<open>The two checks of \<open>bootstrap\<close>, before the server listens.\<close>

definition bootstrap_checks :: "app_config \<Rightarrow> string + unit" where
  "bootstrap_checks c =
     (if app_env c = ''production'' \<and> allowedOrigins c = []
      then Inl ''ALLOWED_ORIGINS must be configured in production''
      else if app_env c \<noteq> ''production'' \<and> (\<not> truthy (swagger_user c) \<or> \<not> truthy (swagger_password c))
      then Inl ''SWAGGER_USER and SWAGGER_PASSWORD must be set in non-production environments. The Swagger UI exposes the full API surface and must not be publicly accessible.''
      else Inr ())"

section \<open>The schema\<close>

text \<open>
  \<open>configValidationSchema\<close> as a table: each key with when it must be present and the rule for a
  present value. \<open>Joi.string()\<close> refuses the empty text. The library's reading of a number
  (as a fraction with positive denominator) and its URI rule are parameters; lengths count the characters of ASCII texts.
\<close>

datatype need = Required | Optional | RequiredIn "string list"

type_synonym joi_key = "string \<times> need \<times> (string \<Rightarrow> bool)"

definition joi_text :: "(string \<Rightarrow> bool) \<Rightarrow> string \<Rightarrow> bool" where
  "joi_text rule s \<longleftrightarrow> s \<noteq> [] \<and> rule s"

definition joi_number :: "(string \<Rightarrow> (int \<times> int) option) \<Rightarrow> (int \<times> int \<Rightarrow> bool) \<Rightarrow> string \<Rightarrow> bool" where
  "joi_number number rule s \<longleftrightarrow> (case number s of None \<Rightarrow> False | Some x \<Rightarrow> rule x)"

definition at_least :: "int \<Rightarrow> int \<times> int \<Rightarrow> bool" where
  "at_least n = (\<lambda>(p, q). n * q \<le> p)"

definition at_most :: "int \<Rightarrow> int \<times> int \<Rightarrow> bool" where
  "at_most n = (\<lambda>(p, q). p \<le> n * q)"

definition in_production :: need where
  "in_production = RequiredIn [''production'']"

definition outside_production :: need where
  "outside_production = RequiredIn [''development'', ''test'']"

definition configValidationSchema :: "(string \<Rightarrow> (int \<times> int) option) \<Rightarrow> (string \<Rightarrow> bool) \<Rightarrow> joi_key list" where
  "configValidationSchema number uri = [
     (''ENV'', Optional, joi_text (List.member [''development'', ''production'', ''test''])),
     (''PORT'', Optional, joi_number number (\<lambda>_. True)),
     (''ALLOWED_ORIGINS'', in_production, joi_text joi_origins),
     (''DATABASE_URL'', Required, joi_text (\<lambda>_. True)),
     (''DATABASE_POOL_SIZE'', Optional, joi_number number (\<lambda>x. at_least 1 x \<and> at_most 100 x)),
     (''SLOW_QUERY_THRESHOLD_MS'', Optional, joi_number number (at_least 10)),
     (''JWT_ACCESS_SECRET'', Required, joi_text (\<lambda>_. True)),
     (''JWT_ACCESS_EXPIRY'', Optional, joi_text joi_expiry),
     (''JWT_REFRESH_EXPIRY'', Optional, joi_text joi_expiry),
     (''MAX_SESSIONS'', Optional, joi_number number (at_least 1)),
     (''REDIS_HOST'', Required, joi_text (\<lambda>_. True)),
     (''REDIS_PORT'', Optional, joi_number number (\<lambda>_. True)),
     (''REDIS_PASSWORD'', Required, joi_text (\<lambda>s. 16 \<le> length s)),
     (''TOKEN_HASH_SECRET'', Required, joi_text (\<lambda>s. joi_hash_secret (Some s))),
     (''CACHE_ENCRYPTION_KEY'', Required, joi_text (\<lambda>s. length s = 64 \<and> list_all (\<lambda>c. hex_value c \<noteq> None) s)),
     (''SWAGGER_USER'', outside_production, joi_text (\<lambda>_. True)),
     (''SWAGGER_PASSWORD'', outside_production, joi_text (\<lambda>s. 16 \<le> length s)),
     (''BRAINTREE_MERCHANT_ID'', in_production, joi_text (\<lambda>_. True)),
     (''BRAINTREE_PUBLIC_KEY'', in_production, joi_text (\<lambda>_. True)),
     (''BRAINTREE_PRIVATE_KEY'', in_production, joi_text (\<lambda>_. True)),
     (''BRAINTREE_ENVIRONMENT'', Optional, joi_text (List.member [''sandbox'', ''production''])),
     (''PAYPAL_CLIENT_ID'', in_production, joi_text (\<lambda>_. True)),
     (''PAYPAL_CLIENT_SECRET'', in_production, joi_text (\<lambda>_. True)),
     (''PAYPAL_ENVIRONMENT'', Optional, joi_text (List.member [''sandbox'', ''production''])),
     (''STRIPE_SECRET_KEY'', in_production, joi_text (\<lambda>_. True)),
     (''STRIPE_WEBHOOK_SECRET'', in_production, joi_text (\<lambda>_. True)),
     (''STRIPE_CONNECT_WEBHOOK_SECRET'', in_production, joi_text (\<lambda>_. True)),
     (''STRIPE_CONNECT_RETURN_URL'', in_production, joi_text uri),
     (''STRIPE_CONNECT_REFRESH_URL'', in_production, joi_text uri),
     (''STRIPE_CONNECT_FRONTEND_RETURN_URL'', in_production, joi_text uri)]"

text \<open>\<open>ENV\<close> has its default before the conditions on it are looked at.\<close>

definition env_mode :: "(string \<Rightarrow> string option) \<Rightarrow> string" where
  "env_mode env = (case env ''ENV'' of None \<Rightarrow> ''development'' | Some e \<Rightarrow> e)"

definition key_accepted :: "(string \<Rightarrow> string option) \<Rightarrow> joi_key \<Rightarrow> bool" where
  "key_accepted env = (\<lambda>(k, need, rule). case env k of
     Some s \<Rightarrow> rule s
   | None \<Rightarrow> (case need of Required \<Rightarrow> False | Optional \<Rightarrow> True | RequiredIn ms \<Rightarrow> \<not> List.member ms (env_mode env)))"

definition config_accepted :: "(string \<Rightarrow> (int \<times> int) option) \<Rightarrow> (string \<Rightarrow> bool) \<Rightarrow> (string \<Rightarrow> string option) \<Rightarrow> bool" where
  "config_accepted number uri env \<longleftrightarrow> list_all (key_accepted env) (configValidationSchema number uri)"

text \<open>
  An environment the schema accepts passes the checks of \<open>bootstrap\<close>, and its token settings
  are the ones the token service needs.
\<close>

lemma split_comma_nonempty: "split_comma s \<noteq> []"
  by (induction s) (auto split: list.splits)

lemma accepted_key:
  assumes "config_accepted number uri env" and "(k, need, rule) \<in> set (configValidationSchema number uri)"
  shows "key_accepted env (k, need, rule)"
  using assms by (auto simp: config_accepted_def list_all_iff)

lemma accepted_mode:
  assumes "config_accepted number uri env"
  shows "env_mode env = app_env (configuration env)"
    and "env_mode env \<in> {''development'', ''production'', ''test''}"
proof -
  have "key_accepted env (''ENV'', Optional, joi_text (List.member [''development'', ''production'', ''test'']))"
    by (rule accepted_key [OF assms]) (simp add: configValidationSchema_def)
  then have "case env ''ENV'' of None \<Rightarrow> True | Some e \<Rightarrow> e \<in> {''development'', ''production'', ''test''}"
    by (auto simp: key_accepted_def joi_text_def split: option.splits)
  then show "env_mode env = app_env (configuration env)" "env_mode env \<in> {''development'', ''production'', ''test''}"
    by (auto simp: env_mode_def configuration_def str_or_def truthy_def split: option.splits)
qed

theorem accepted_environment_starts:
  assumes "config_accepted number uri env"
  shows "bootstrap_checks (configuration env) = Inr ()"
    and "joi_hash_secret (token_hashSecret (configuration env))"
    and "joi_expiry (jwt_accessExpiry (configuration env))" and "joi_expiry (jwt_refreshExpiry (configuration env))"
proof -
  note mode = accepted_mode [OF assms]
  have keys: "key_accepted env (''ALLOWED_ORIGINS'', in_production, joi_text joi_origins)"
    "key_accepted env (''SWAGGER_USER'', outside_production, joi_text (\<lambda>_. True))"
    "key_accepted env (''SWAGGER_PASSWORD'', outside_production, joi_text (\<lambda>s. 16 \<le> length s))"
    "key_accepted env (''TOKEN_HASH_SECRET'', Required, joi_text (\<lambda>s. joi_hash_secret (Some s)))"
    "key_accepted env (''JWT_ACCESS_EXPIRY'', Optional, joi_text joi_expiry)"
    "key_accepted env (''JWT_REFRESH_EXPIRY'', Optional, joi_text joi_expiry)"
    by (rule accepted_key [OF assms], simp add: configValidationSchema_def)+
  show "bootstrap_checks (configuration env) = Inr ()"
  proof (cases "env_mode env = ''production''")
    case True
    with keys(1) obtain s where "env ''ALLOWED_ORIGINS'' = Some s"
      by (auto simp: key_accepted_def in_production_def split: option.splits)
    with True mode(1) show ?thesis by (simp add: bootstrap_checks_def configuration_def split_comma_nonempty)
  next
    case False
    with mode(2) keys(2,3) have "truthy (env ''SWAGGER_USER'')" "truthy (env ''SWAGGER_PASSWORD'')"
      by (auto simp: key_accepted_def outside_production_def joi_text_def truthy_def split: option.splits)
    moreover have "swagger_user (configuration env) = env ''SWAGGER_USER''"
      "swagger_password (configuration env) = env ''SWAGGER_PASSWORD''" by (simp_all add: configuration_def)
    ultimately show ?thesis using False mode(1) by (simp add: bootstrap_checks_def)
  qed
  have m5: "joi_expiry ''5m''" and d7: "joi_expiry ''7d''" by code_simp+
  show "joi_hash_secret (token_hashSecret (configuration env))"
    using keys(4) by (auto simp: key_accepted_def joi_text_def configuration_def split: option.splits)
  show "joi_expiry (jwt_accessExpiry (configuration env))" "joi_expiry (jwt_refreshExpiry (configuration env))"
    using keys(5,6) m5 d7 by (auto simp: key_accepted_def joi_text_def configuration_def str_nullish_def split: option.splits)
qed

section \<open>Redis retries and slow queries\<close>

definition retryStrategy :: "nat \<Rightarrow> int option" where
  "retryStrategy attempt = (if attempt > 10 then None else Some (min (int attempt * 50) 2000))"

text \<open>
  The warning for a query event: its duration and text. Outside development the text is
  replaced by the first eight hex digits of its hash; \<open>sha256\<close> is a parameter.
\<close>

definition slow_query_log :: "(string \<Rightarrow> string) \<Rightarrow> bool \<Rightarrow> int \<Rightarrow> int \<Rightarrow> string \<Rightarrow> string option" where
  "slow_query_log sha256 isDev threshold duration q =
     (if duration \<le> threshold then None
      else Some (''Slow query '' @ em_dash @ '' '' @ int_str duration @ ''ms (threshold: '' @ int_str threshold @ ''ms)'' @
        (if isDev then CHR 0x0A # q else '' fingerprint='' @ take 8 (sha256 q))))"

end
