(* ===== verification/Service_Properties.thy ===== *)
theory Service_Properties
  imports Demo Wallet_Service Stripe_Connect Http_Layer Configuration
begin

text \<open>
  Properties of the read side and of the edges: paging, cursors, the
  Stripe Connect webhook and onboarding, and the error answers.
\<close>

section \<open>Paging\<close>

text \<open>
  C36. Following the cursors enumerates a listing: a client that starts without a cursor and
  passes each answer's cursor on gets every wallet that matches the filter (every entry of
  the wallet's ledger) exactly once, newest first, after at most as many requests as pages,
  and the last answer carries no cursor.
\<close>

theorem listings_enumerate:
  assumes "0 < n"
  shows "(wallets_ok q w \<and> length (wallets_listed q w) \<le> n * aw_limit q \<longrightarrow>
      follow n (wallet_pages other q) None w = (Inr (map serializeWallet (keyset_order wallet_key (wallets_listed q w))), w))
    \<and> (entries_ok i lq w \<and> length (entries_listed i w) \<le> n * lq_limit lq \<longrightarrow>
      follow n (ledger_pages other i lq) None w =
        (Inr (map (\<lambda>e. serializeLedgerEntry (joined w e)) (keyset_order entry_key (entries_listed i w))), w))"
  using assms wallet_list.enumerates [of q w n other] ledger_list.enumerates [of i lq w n other] by blast

definition demo_uuid1 :: uuid where
  "demo_uuid1 = ''00000000-0000-0000-0000-000000000001''"

definition demo_uuid2 :: uuid where
  "demo_uuid2 = ''00000000-0000-0000-0000-00000000000a''"

lemma demo_uuids: "UUID_REGEX demo_uuid1" "UUID_REGEX demo_uuid2" "demo_uuid1 < demo_uuid2"
  by code_simp+

lemma demo_year: "four_digit_year 1000000"
  by code_simp

definition demo_listed :: world where
  "demo_listed = demo_start\<lparr>db := empty_db\<lparr>wallets :=
     [demo_wallet ''a'' demo_uuid1 0 0 0, demo_wallet ''b'' demo_uuid2 0 0 0]\<rparr>\<rparr>"

theorem listings_enumerate_witness:
  "\<exists>rs. follow 2 (wallet_pages (\<lambda>_. None) \<lparr>aw_status = None, aw_currency = Some USD, aw_cursor = None, aw_limit = 1\<rparr>) None demo_listed
      = (Inr rs, demo_listed) \<and> map wr_id rs = [demo_uuid2, demo_uuid1]"
proof -
  let ?q = "\<lparr>aw_status = None, aw_currency = Some USD, aw_cursor = None, aw_limit = 1\<rparr>"
  have rows: "wallets_listed ?q demo_listed = [demo_wallet ''a'' demo_uuid1 0 0 0, demo_wallet ''b'' demo_uuid2 0 0 0]"
    by (simp add: wallets_listed_def wallet_matches_def demo_listed_def demo_wallet_def)
  have ok: "wallets_ok ?q demo_listed"
    unfolding wallets_ok_def rows listable_def
    using demo_uuids by (simp add: demo_wallet_def wallet_key_def demo_year)
  have proj: "map wr_id (map serializeWallet rs) = map w_id rs" for rs by (simp add: serializeWallet_def)
  have m: "map w_id (keyset_order wallet_key (wallets_listed ?q demo_listed)) = [demo_uuid2, demo_uuid1]"
    unfolding rows keyset_order_def using less_imp_le [OF demo_uuids(3)]
    by (simp add: wallet_key_def demo_wallet_def less_eq_prod_def)
  have ids: "map wr_id (map serializeWallet (keyset_order wallet_key (wallets_listed ?q demo_listed))) = [demo_uuid2, demo_uuid1]"
    unfolding proj by (rule m)
  have "length (wallets_listed ?q demo_listed) \<le> 2 * aw_limit ?q" unfolding rows by simp
  with listings_enumerate [where n = 2 and q = ?q and w = demo_listed and other = "\<lambda>_. None"] ok
  have run: "follow 2 (wallet_pages (\<lambda>_. None) ?q) None demo_listed
      = (Inr (map serializeWallet (keyset_order wallet_key (wallets_listed ?q demo_listed))), demo_listed)"
    by (meson zero_less_numeral)
  show ?thesis by (intro exI conjI, rule run, rule ids)
qed

text \<open>
  C37. Cursors are opaque but safe: a cursor the server issued decodes to the date and id it
  was made of, and any other text is either refused with 400 or yields a parseable date and a
  well-formed id; decoding never fails in another way.
\<close>

theorem cursor_roundtrip:
  "(four_digit_year t \<and> UUID_REGEX i \<longrightarrow> (\<exists>c. decodeCursor other (encodeCursor (t, i)) w = (Inr c, w)
        \<and> Date_parse other (kc_createdAt c) = Some t \<and> kc_id c = i))
   \<and> (\<exists>r. decodeCursor other raw w = (r, w) \<and> (case r of
        Inl e \<Rightarrow> e = HttpExn BadRequestException ''Invalid pagination cursor''
      | Inr c \<Rightarrow> Date_parse other (kc_createdAt c) \<noteq> None \<and> UUID_REGEX (kc_id c)))"
proof -
  have "\<exists>r. decodeCursor other raw w = (r, w) \<and> (case r of
        Inl e \<Rightarrow> e = HttpExn BadRequestException ''Invalid pagination cursor''
      | Inr c \<Rightarrow> Date_parse other (kc_createdAt c) \<noteq> None \<and> UUID_REGEX (kc_id c))"
    by (auto simp: decodeCursor_def Let_def bad_cursor_def throw_def ret_def split: option.splits json.splits)
  then show ?thesis using decode_encode_cursor(1) [of "(t, i)" other w] decode_encode_cursor(2) [of "(t, i)" other] by auto
qed

theorem cursor_roundtrip_witness:
  "\<exists>c. decodeCursor (\<lambda>_. None) (encodeCursor (1000000, demo_uuid2)) demo_start = (Inr c, demo_start) \<and> kc_id c = demo_uuid2"
  using cursor_roundtrip [where t = 1000000 and i = demo_uuid2 and other = "\<lambda>_. None" and w = demo_start]
    demo_uuids(2) demo_year by blast

section \<open>Stripe Connect\<close>

lemma deauthorized_run:
  assumes "find (\<lambda>x. stripeConnectAccountId x = Some acct) (users (db w)) = Some u" and "acct \<noteq> []"
    and "se_account ev = Some acct" and "distinct (map u_id (users (db w)))"
  shows "\<exists>w'. handleAccountDeauthorized ev w = (Inr (), w')
    \<and> users (db w') = map (\<lambda>x. if u_id x = u_id u then x\<lparr>stripeConnectAccountId := None, u_updatedAt := clock w\<rparr> else x) (users (db w))"
proof -
  have "find (\<lambda>x. u_id x = u_id u) (users (db w)) = Some u"
    using find_distinct_key [OF assms(4)] find_Some_iff_hd [OF assms(1)] by blast
  then show ?thesis
    using assms(1-3)
    by (simp add: handleAccountDeauthorized_def truthy_def bindP_def findByConnectAccountId_def t_find_def getP_def users_t_def
      ret_def catchP_def thenP_def clearConnectAccountId_def t_update_def Let_def whenP_def audit_warn_def audit_emit_def modP_def)
qed

lemma route_frame: "within same_books (route ev)"
  unfolding route_def handleAccountUpdated_def handleAccountDeauthorized_def handleCapabilityUpdated_def
    findByConnectAccountId_def clearConnectAccountId_def
  by (intro frame_intros | (split prod.split option.split json.split; intro allI impI conjI))+

lemma webhook_frame: "within same_books (handleWebhook api cfg body sig)"
  unfolding handleWebhook_def
  by (intro frame_intros route_frame | (split sum.split; intro allI impI conjI))+

text \<open>
  C39. Only signed events act, and every signed event is acknowledged: the webhook answers
  200 exactly when the secret is configured, the signature header and the raw body are there
  and Stripe's verification accepts them; every other request gets 401 and leaves the world
  as it is. No event touches wallets, transactions or payment logs.
\<close>

theorem webhook_contract:
  "(fst (handleWebhook api cfg body sig w) = Inr True \<longleftrightarrow>
      (\<exists>k s b ev. connectWebhookSecret cfg = Some k \<and> k \<noteq> [] \<and> sig = Some s \<and> s \<noteq> [] \<and> body = Some b
        \<and> constructEvent api b s k = Inr ev))
   \<and> (fst (handleWebhook api cfg body sig w) = Inr True
      \<or> (\<exists>m. handleWebhook api cfg body sig w = (Inl (HttpExn UnauthorizedException m), w)))
   \<and> same_books w (snd (handleWebhook api cfg body sig w))"
proof -
  have ack: "fst (thenP (catchP (route ev) (\<lambda>error. ret ())) (ret True) w) = Inr True" for ev
    by (simp add: thenP_def bindP_def catchP_def ret_def split: prod.splits sum.splits)
  show ?thesis
    using webhook_frame [of api cfg body sig] ack
    by (auto simp: handleWebhook_def truthy_def throw_def within_def split: option.splits sum.splits)
qed

text \<open>
  A user has one Connect account: with an account linked, asking to onboard never sends
  another account request; without one, the account Stripe creates is stored even when the
  onboarding link then fails; and once Stripe reports the account deauthorised, the link is
  gone and a Stripe payout of that user is refused with 400.
\<close>

theorem connect_account_lifecycle:
  assumes "find (\<lambda>x. u_id x = i) (users (db w)) = Some u" and "distinct (map u_id (users (db w)))"
  shows "(truthy (stripeConnectAccountId u) \<longrightarrow> db (snd (createConnectAccount api cfg i email w)) = db w
        \<and> map fst (wire (snd (createConnectAccount api cfg i email w))) = map fst (wire w) @ [''accountLinks.create''])
    \<and> (stripeConnectAccountId u = None \<and> (\<exists>acct. accounts_create api (wire w) [(''type'', JStr ''express''), (''email'', JStr email),
          (''capabilities'', JObj [(''transfers'', JObj [(''requested'', JBool True)])])] = Inr acct
          \<and> \<not> list_ex (\<lambda>x. stripeConnectAccountId x = Some acct) (users (db w)))
        \<longrightarrow> map_option stripeConnectAccountId (find (\<lambda>x. u_id x = i) (users (db (snd (createConnectAccount api cfg i email w)))))
              \<noteq> Some None)
    \<and> (truthy (stripeConnectAccountId u) \<and> se_account ev = stripeConnectAccountId u
          \<and> find (\<lambda>x. stripeConnectAccountId x = stripeConnectAccountId u) (users (db w)) = Some u
        \<longrightarrow> (\<exists>m. fst (resolveStripeConnectAccount i (snd (handleAccountDeauthorized ev w))) = Inl (HttpExn BadRequestException m)))"
proof (intro conjI impI)
  assume "truthy (stripeConnectAccountId u)"
  then show "db (snd (createConnectAccount api cfg i email w)) = db w"
    "map fst (wire (snd (createConnectAccount api cfg i email w))) = map fst (wire w) @ [''accountLinks.create'']"
    using assms(1)
    by (simp_all add: createConnectAccount_def bindP_def connect_findById_def find_user_def t_find_def getP_def users_t_def
      ret_def generateOnboardingLink_def createAccountLink_def call_gateway_def catchP_def throw_def thenP_def audit_log_def
      audit_emit_def modP_def split: sum.splits)
next
  show "map_option stripeConnectAccountId (find (\<lambda>x. u_id x = i) (users (db (snd (createConnectAccount api cfg i email w))))) \<noteq> Some None"
    if "stripeConnectAccountId u = None \<and> (\<exists>acct. accounts_create api (wire w) [(''type'', JStr ''express''), (''email'', JStr email),
          (''capabilities'', JObj [(''transfers'', JObj [(''requested'', JBool True)])])] = Inr acct
          \<and> \<not> list_ex (\<lambda>x. stripeConnectAccountId x = Some acct) (users (db w)))"
    using that assms(1) find_Some_iff_hd [OF assms(1)]
    by (auto simp: createConnectAccount_def bindP_def connect_findById_def find_user_def t_find_def getP_def users_t_def
      truthy_def ret_def createAndPersistAccount_def createAccount_def generateOnboardingLink_def createAccountLink_def
      call_gateway_def catchP_def throw_def thenP_def setConnectAccountId_def t_update_def Let_def list_ex_iff find_map_if
      audit_log_def audit_emit_def modP_def split: sum.splits)
next
  assume a: "truthy (stripeConnectAccountId u) \<and> se_account ev = stripeConnectAccountId u
          \<and> find (\<lambda>x. stripeConnectAccountId x = stripeConnectAccountId u) (users (db w)) = Some u"
  then obtain acct where acct: "stripeConnectAccountId u = Some acct" "acct \<noteq> []" by (auto simp: truthy_def split: option.splits)
  obtain w' where w': "handleAccountDeauthorized ev w = (Inr (), w')"
    "users (db w') = map (\<lambda>x. if u_id x = u_id u then x\<lparr>stripeConnectAccountId := None, u_updatedAt := clock w\<rparr> else x) (users (db w))"
    using deauthorized_run [of acct w u ev] a acct assms(2) by auto
  have "u_id u = i" using find_Some_iff_hd [OF assms(1)] by simp
  then have "find (\<lambda>x. u_id x = i) (users (db w')) = Some (u\<lparr>stripeConnectAccountId := None, u_updatedAt := clock w\<rparr>)"
    using assms(1) by (simp add: w'(2) find_map_if)
  then show "\<exists>m. fst (resolveStripeConnectAccount i (snd (handleAccountDeauthorized ev w))) = Inl (HttpExn BadRequestException m)"
    by (simp add: w'(1) resolveStripeConnectAccount_def bindP_def connect_findById_def find_user_def t_find_def getP_def
      users_t_def ret_def throw_def)
qed

definition demo_connect :: connect_api where
  "demo_connect = \<lparr>accounts_create = (\<lambda>_ _. Inr ''acct1''), accounts_retrieve = demo_down,
     accountLinks_create = demo_down, constructEvent = (\<lambda>_ _ _. Inl (JsError ''no signature''))\<rparr>"

definition demo_connect_config :: connect_config where
  "demo_connect_config = \<lparr>connectReturnUrl = JNull, connectRefreshUrl = JNull,
     connectWebhookSecret = Some ''whsec'', connectFrontendReturnUrl = None\<rparr>"

theorem connect_account_lifecycle_witness:
  "map_option stripeConnectAccountId (find (\<lambda>x. u_id x = ''id0'')
     (users (db (snd (createConnectAccount demo_connect demo_connect_config ''id0'' ''e'' demo_registered))))) \<noteq> Some None"
proof -
  have u: "find (\<lambda>x. u_id x = ''id0'') (users (db demo_registered)) = Some ann" "distinct (map u_id (users (db demo_registered)))"
    "stripeConnectAccountId ann = None"
    "\<not> list_ex (\<lambda>x. stripeConnectAccountId x = Some ''acct1'') (users (db demo_registered))"
    by (simp_all add: demo_registered_def ann_def bob_def new_user_def)
  have "accounts_create demo_connect ws p = Inr ''acct1''" for ws p by (simp add: demo_connect_def)
  with connect_account_lifecycle [OF u(1,2), of demo_connect demo_connect_config "''e''"] u(3,4) show ?thesis by blast
qed

section \<open>Errors\<close>

text \<open>
  Two thrown values that differ at most in what a client may not see: the messages and the
  stacks of errors, which of the unknown errors or values it was, and the columns a database
  error names, except those of a unique constraint.
\<close>

fun alike :: "thrown \<Rightarrow> thrown \<Rightarrow> bool" where
  "alike (HttpException e) (HttpException e') \<longleftrightarrow>
     he_status e = he_status e' \<and> he_message e = he_message e' \<and> he_body e = he_body e'"
| "alike (PrismaClientKnownRequestError c tgt _) (PrismaClientKnownRequestError c' tgt' _) \<longleftrightarrow>
     c = c' \<and> (c = ''P2002'' \<longrightarrow> target_text tgt = target_text tgt')"
| "alike (PrismaClientValidationError _) (PrismaClientValidationError _) \<longleftrightarrow> True"
| "alike (OtherError _) (OtherError _) \<longleftrightarrow> True"
| "alike (OtherError _) (OtherValue _) \<longleftrightarrow> True"
| "alike (OtherValue _) (OtherError _) \<longleftrightarrow> True"
| "alike (OtherValue _) (OtherValue _) \<longleftrightarrow> True"
| "alike _ _ \<longleftrightarrow> False"

text \<open>
  C40. Error answers leak nothing: two thrown values that differ only in the message or stack
  of an error, or in which unknown error or value was thrown, get the same answer. Whatever a
  method throws, the status is an HTTP error status; the raw stack or value goes into the log
  of a 5xx answer and nowhere else, a 4xx is one warning without it; and an HTTP exception of
  a service keeps its status and its message.
\<close>

theorem error_answers:
  fixes e :: exn and texts :: error_texts
  defines "thrown \<equiv> thrown_of texts e"
  shows "(alike t t' \<longrightarrow> snd (catch_exception t verb path date) = snd (catch_exception t' verb path date))
   \<and> (case catch_exception thrown verb path date of (lines, answer) \<Rightarrow>
        400 \<le> er_statusCode answer \<and> er_statusCode answer < 600
      \<and> (if 500 \<le> er_statusCode answer
         then ll_level (last lines) = ErrorLevel \<and> ll_detail (last lines) = Some (raw_text thrown)
         else map ll_level lines = [WarnLevel] \<and> map ll_detail lines = [None])
      \<and> (e = HttpExn k m \<longrightarrow> er_statusCode answer = http_status k \<and> er_message answer = One m))"
proof -
  have status: "400 \<le> http_status k \<and> http_status k < 600" for k by (cases k) (simp_all add: http_status_def)
  have same: "snd (catch_exception t verb path date) = snd (catch_exception t' verb path date)" if "alike t t'"
    using that by (cases "(t, t')" rule: alike.cases)
      (auto simp: catch_exception_def toStandardError_def Let_def unpackHttpExceptionBody_def mapPrismaKnownError_def
        split: http_body.splits option.splits)
  show ?thesis
    using same status unfolding thrown_def
    by (cases e) (auto simp: catch_exception_def toStandardError_def Let_def unpackHttpExceptionBody_def
      nest_exception_def mapPrismaKnownError_def)
qed

theorem error_answers_witness:
  "snd (catch_exception (OtherError \<lparr>je_message = ''key'', je_stack = ''at''\<rparr>) ''GET'' ''/x'' 0)
     = snd (catch_exception (OtherValue ''secret'') ''GET'' ''/x'' 0)
   \<and> er_statusCode (snd (catch_exception (thrown_of \<lparr>et_message = (\<lambda>_. ''m''), et_stack = (\<lambda>_. ''s'')\<rparr> (HttpExn NotFoundException ''m'')) ''GET'' ''/x'' 0)) = 404"
  using error_answers [of "OtherError \<lparr>je_message = ''key'', je_stack = ''at''\<rparr>" "OtherValue ''secret''" "''GET''" "''/x''" 0
      "\<lparr>et_message = (\<lambda>_. ''m''), et_stack = (\<lambda>_. ''s'')\<rparr>" "HttpExn NotFoundException ''m''" NotFoundException "''m''"]
  by (simp add: http_status_def split: prod.splits)

end
