(* ===== verification/Validation.thy ===== *)
theory Validation
  imports Payment_Service Users_Service Wallet_Service
begin

text \<open>
  The request bodies' rules: the decorators of the DTO classes, as predicates on the typed
  body. What class-validator computes itself for an address, a phone number, a version-4
  UUID and a base64 text is a parameter; lengths, ranges and patterns are written out.
  A body is transformed first (\<open>@Transform\<close>) and validated then.
\<close>

section \<open>Library rules\<close>

record validators =
  isEmail :: "string \<Rightarrow> bool"
  isPhoneNumber :: "string \<Rightarrow> bool"
  isUUID4 :: "string \<Rightarrow> bool"
  isBase64 :: "string \<Rightarrow> bool"

text \<open>\<open>@IsOptional\<close>: the other rules apply to a value that is present.\<close>

definition optional :: "('a \<Rightarrow> bool) \<Rightarrow> 'a option \<Rightarrow> bool" where
  "optional P v = (case v of None \<Rightarrow> True | Some x \<Rightarrow> P x)"

text \<open>
  The length of a UTF-8 text: in code points, as \<open>@Length\<close> counts, and in UTF-16 units, as a
  pattern counts.
\<close>

definition code_points :: "string \<Rightarrow> nat" where
  "code_points s = length (filter (\<lambda>c. (of_char c :: nat) < 128 \<or> 192 \<le> (of_char c :: nat)) s)"

definition utf16_units :: "string \<Rightarrow> nat" where
  "utf16_units s = code_points s + length (filter (\<lambda>c. 240 \<le> (of_char c :: nat)) s)"

definition Length :: "nat \<Rightarrow> nat \<Rightarrow> string \<Rightarrow> bool" where
  "Length a b s \<longleftrightarrow> a \<le> code_points s \<and> code_points s \<le> b"

section \<open>Patterns\<close>

definition is_lower :: "char \<Rightarrow> bool" where
  "is_lower c \<longleftrightarrow> CHR ''a'' \<le> c \<and> c \<le> CHR ''z''"

definition is_upper :: "char \<Rightarrow> bool" where
  "is_upper c \<longleftrightarrow> CHR ''A'' \<le> c \<and> c \<le> CHR ''Z''"

text \<open>What \<open>.*\<close> can cover from the start: everything before the first line terminator
  (LF, CR, U+2028 or U+2029).\<close>

definition line_break :: "string \<Rightarrow> bool" where
  "line_break s \<longleftrightarrow> (case s of [] \<Rightarrow> False
     | c # r \<Rightarrow> c = CHR 0x0A \<or> c = CHR 0x0D
         \<or> c = CHR 0xE2 \<and> (take 2 r = [CHR 0x80, CHR 0xA8] \<or> take 2 r = [CHR 0x80, CHR 0xA9]))"

fun first_line :: "string \<Rightarrow> string" where
  "first_line [] = []"
| "first_line (c # cs) = (if line_break (c # cs) then [] else c # first_line cs)"

text \<open>\<open>^(?=.*[a-z])(?=.*[A-Z])(?=.*\d)(?=.*[\W_]).{8,}$\<close>\<close>

definition register_password :: "string \<Rightarrow> bool" where
  "register_password s \<longleftrightarrow> (let l = first_line s in
     list_ex is_lower l \<and> list_ex is_upper l \<and> list_ex is_digit l
     \<and> (list_ex (\<lambda>c. \<not> (is_lower c \<or> is_upper c \<or> is_digit c \<or> c = CHR ''_'') \<or> c = CHR ''_'') l \<or> l \<noteq> s)
     \<and> l = s \<and> 8 \<le> utf16_units s)"

text \<open>\<open>^(?=.*[a-z])(?=.*[A-Z])(?=.*\d)(?=.*[^a-zA-Z\d])\<close>: the last class also takes the line
  terminator itself.\<close>

definition change_password :: "string \<Rightarrow> bool" where
  "change_password s \<longleftrightarrow> (let l = first_line s in
     list_ex is_lower l \<and> list_ex is_upper l \<and> list_ex is_digit l
     \<and> (list_ex (\<lambda>c. \<not> (is_lower c \<or> is_upper c \<or> is_digit c)) l \<or> l \<noteq> s))"

text \<open>\<open>^\+[1-9]\d{6,14}$\<close>\<close>

definition phone_pattern :: "string \<Rightarrow> bool" where
  "phone_pattern s \<longleftrightarrow> (case s of
     p # d # ds \<Rightarrow> p = CHR ''+'' \<and> is_digit d \<and> d \<noteq> CHR ''0'' \<and> list_all is_digit ds
       \<and> 6 \<le> length ds \<and> length ds \<le> 14
   | _ \<Rightarrow> False)"

section \<open>The bodies\<close>

definition RegisterDto_valid :: "validators \<Rightarrow> RegisterDto \<Rightarrow> bool" where
  "RegisterDto_valid V d \<longleftrightarrow> 2 \<le> code_points (rd_name d) \<and> code_points (rd_name d) \<le> 100
     \<and> isEmail V (rd_email d) \<and> isPhoneNumber V (rd_phone d)
     \<and> 8 \<le> code_points (rd_password d) \<and> code_points (rd_password d) \<le> 72 \<and> register_password (rd_password d)"

definition LoginDto_valid :: "validators \<Rightarrow> LoginDto \<Rightarrow> bool" where
  "LoginDto_valid V d \<longleftrightarrow> isEmail V (ld_email d)"

definition UpdateProfileDto_valid :: "UpdateProfileDto \<Rightarrow> bool" where
  "UpdateProfileDto_valid d \<longleftrightarrow> optional (Length 2 64) (pd_name d) \<and> optional phone_pattern (pd_phone d)"

definition ChangePasswordDto_valid :: "ChangePasswordDto \<Rightarrow> bool" where
  "ChangePasswordDto_valid d \<longleftrightarrow> Length 8 72 (currentPassword d)
     \<and> Length 8 72 (newPassword d) \<and> change_password (newPassword d)"

definition UserQueryDto_valid :: "UserQueryDto \<Rightarrow> bool" where
  "UserQueryDto_valid q \<longleftrightarrow> 1 \<le> uq_page q \<and> 1 \<le> uq_limit q \<and> uq_limit q \<le> 100"

definition LedgerQueryDto_valid :: "validators \<Rightarrow> LedgerQueryDto \<Rightarrow> bool" where
  "LedgerQueryDto_valid V q \<longleftrightarrow> optional (isBase64 V) (lq_cursor q) \<and> 1 \<le> lq_limit q \<and> lq_limit q \<le> 100"

definition AdminWalletQueryDto_valid :: "validators \<Rightarrow> AdminWalletQueryDto \<Rightarrow> bool" where
  "AdminWalletQueryDto_valid V q \<longleftrightarrow> optional (isBase64 V) (aw_cursor q) \<and> 1 \<le> aw_limit q \<and> aw_limit q \<le> 100"

text \<open>\<open>Math.min(parseInt(value, 10), 100)\<close>\<close>

definition TransactionQueryDto_transform :: "TransactionQueryDto \<Rightarrow> TransactionQueryDto" where
  "TransactionQueryDto_transform q = q\<lparr>limit := min (limit q) 100\<rparr>"

definition TransactionQueryDto_valid :: "TransactionQueryDto \<Rightarrow> bool" where
  "TransactionQueryDto_valid q \<longleftrightarrow> 1 \<le> page q \<and> 1 \<le> limit q"

text \<open>The rules deposit, withdrawal, confirmation and payout share.\<close>

definition description_valid :: "string option \<Rightarrow> bool" where
  "description_valid = optional (\<lambda>s. s \<noteq> [] \<and> code_points s \<le> 255)"

definition DepositDto_valid :: "validators \<Rightarrow> 'a DepositDto_scheme \<Rightarrow> bool" where
  "DepositDto_valid V d \<longleftrightarrow> MoneyDto_valid (amount d) \<and> isUUID4 V (dto_idempotencyKey d)
     \<and> description_valid (description d)"

definition TransferDto_valid :: "validators \<Rightarrow> TransferDto \<Rightarrow> bool" where
  "TransferDto_valid V d \<longleftrightarrow> DepositDto_valid V d \<and> isUUID4 V (recipientUserId d)"

definition CreateDepositIntentDto_valid :: "CreateDepositIntentDto \<Rightarrow> bool" where
  "CreateDepositIntentDto_valid d \<longleftrightarrow> ci_provider d \<noteq> INTERNAL \<and> MoneyDto_valid (ci_amount d)"

definition ConfirmDepositDto_valid :: "validators \<Rightarrow> ConfirmDepositDto \<Rightarrow> bool" where
  "ConfirmDepositDto_valid V d \<longleftrightarrow> DepositDto_valid V d \<and> cd_provider d \<noteq> INTERNAL
     \<and> (cd_provider d = STRIPE \<longrightarrow> truthy (paymentIntentId d)) \<and> (cd_provider d = PAYPAL \<longrightarrow> truthy (nonce d))"

definition CreatePayoutDto_valid :: "validators \<Rightarrow> CreatePayoutDto \<Rightarrow> bool" where
  "CreatePayoutDto_valid V d \<longleftrightarrow> DepositDto_valid V d \<and> cp_provider d \<noteq> INTERNAL"

section \<open>What the rules give the services\<close>

text \<open>The two password rules differ in line terminators only.\<close>

lemma password_rules_agree:
  assumes "Length 8 72 s"
  shows "register_password s \<longleftrightarrow> change_password s \<and> first_line s = s"
proof -
  have "(\<lambda>c. \<not> (is_lower c \<or> is_upper c \<or> is_digit c \<or> c = CHR ''_'') \<or> c = CHR ''_'')
    = (\<lambda>c. \<not> (is_lower c \<or> is_upper c \<or> is_digit c))"
    by (rule ext) (auto simp: is_lower_def is_upper_def is_digit_def less_eq_char_def)
  with assms show ?thesis
    by (auto simp: register_password_def change_password_def Let_def Length_def utf16_units_def)
qed

text \<open>A profile's phone number carries no space, so storing it trimmed changes nothing.\<close>

lemma digit_no_space: "is_digit c \<Longrightarrow> \<not> is_space c"
  by (auto simp: is_digit_def is_space_def less_eq_char_def)

lemma trim_no_space:
  assumes "\<forall>c \<in> set s. \<not> is_space c"
  shows "trim s = s"
proof -
  have "dropWhile is_space t = t" if "\<forall>c \<in> set t. \<not> is_space c" for t
    using that by (cases t) simp_all
  from this [of s] this [of "rev s"] assms show ?thesis by (simp add: trim_def)
qed

lemma phone_trimmed: "phone_pattern s \<Longrightarrow> trim s = s"
proof (rule trim_no_space)
  have "\<not> is_space (CHR ''+'')" by (simp add: is_space_def)
  then show "\<forall>c \<in> set s. \<not> is_space c" if "phone_pattern s"
    using that digit_no_space by (auto simp: phone_pattern_def list_all_iff split: list.splits)
qed

lemma name_present: "optional (Length 2 64) v \<Longrightarrow> if_truthy v = v"
  by (auto simp: optional_def Length_def code_points_def if_truthy_def truthy_def split: option.splits)

lemma phone_present: "optional phone_pattern v \<Longrightarrow> if_truthy v = v"
  by (auto simp: optional_def phone_pattern_def if_truthy_def truthy_def split: option.splits list.splits)

text \<open>So a validated profile update stores exactly the fields it was sent.\<close>

lemma validated_profile:
  assumes "UpdateProfileDto_valid d" and "pd_name d \<noteq> None \<or> pd_phone d \<noteq> None"
  shows "updateProfile u d = bindP (updateProfile_repo u (pd_name d) (pd_phone d))
    (\<lambda>updated. thenP (audit_log USER_PROFILE_UPDATED (user_audit u None)) (ret updated))"
proof -
  have v: "optional (Length 2 64) (pd_name d)" "optional phone_pattern (pd_phone d)"
    using assms(1) by (simp_all add: UpdateProfileDto_valid_def)
  have "map_option trim (pd_phone d) = pd_phone d"
    using v(2) phone_trimmed by (auto simp: optional_def split: option.splits)
  moreover have "truthy (pd_name d) \<or> truthy (pd_phone d)"
    using name_present [OF v(1)] phone_present [OF v(2)] assms(2)
    by (auto simp: if_truthy_def split: if_splits)
  ultimately show ?thesis
    by (auto simp: updateProfile_def name_present [OF v(1)] phone_present [OF v(2)])
qed

text \<open>Every page a validated query asks for has between one and a hundred rows.\<close>

lemma history_limit:
  assumes "TransactionQueryDto_valid (TransactionQueryDto_transform q)"
  shows "1 \<le> limit (TransactionQueryDto_transform q) \<and> limit (TransactionQueryDto_transform q) \<le> 100"
  using assms by (simp add: TransactionQueryDto_valid_def TransactionQueryDto_transform_def)

end
