(* ===== verification/Controllers.thy ===== *)
theory Controllers
  imports Validation Http_Layer Stripe_Connect
begin

text \<open>
  The controllers: what the decorators of each method declare (\<open>..._route\<close>) and what its
  body calls (the function named after the class). A call is a method with the arguments
  the framework takes from the request; choosing the method for a URL is the framework's.
\<close>

section \<open>Calls\<close>

datatype auth_call =
    register_call RegisterDto | login_call LoginDto | refresh_call string | logout_call string | logoutAll_call

datatype users_call =
    getMe_call | updateProfile_call UpdateProfileDto | changePassword_call ChangePasswordDto | closeAccount_call
  | listUsers_call UserQueryDto | getUserById_call uuid | updateUserStatus_call uuid AdminUpdateUserDto

datatype wallet_call =
    getMyWallet_call | getMyLedger_call LedgerQueryDto | listWallets_call AdminWalletQueryDto
  | getWalletById_call uuid | getWalletLedger_call uuid LedgerQueryDto

datatype transaction_call =
    deposit_call DepositDto | withdraw_call DepositDto | transfer_call TransferDto
  | getHistory_call TransactionQueryDto | getOne_call uuid

datatype payment_call =
    createDepositIntent_call CreateDepositIntentDto | confirmDeposit_call ConfirmDepositDto
  | createPayout_call CreatePayoutDto

datatype connect_call =
    createConnectAccount_call | getAccountStatus_call | refreshOnboardingLink_call
  | handleReturn_call | handleRefresh_call

text \<open>The webhook receives the raw body and the signature header; the probe of the health
  check is whether the database answers.\<close>

datatype call =
    Auth auth_call | Users users_call | Wallets wallet_call | Transactions transaction_call
  | Payments payment_call | Connect connect_call
  | Webhook "string option" "string option" | Health bool

section \<open>Routes\<close>

datatype http_verb = GET | POST | PATCH | DELETE

fun verb_str :: "http_verb \<Rightarrow> string" where
  "verb_str GET = ''GET''"
| "verb_str POST = ''POST''"
| "verb_str PATCH = ''PATCH''"
| "verb_str DELETE = ''DELETE''"

datatype segment = Seg string | Param

record route_info =
  ro_verb :: http_verb
  ro_path :: "segment list"
  ro_public :: bool
  ro_roles :: "role list option"
  ro_code :: nat
  ro_throttle :: "int \<times> int"
  ro_documented :: "nat list"

text \<open>What holds where no decorator says otherwise: the framework's status of the verb, and
  the limit of requests per interval that \<open>app.module.ts\<close> sets for every route.\<close>

definition global_throttle :: "int \<times> int" where
  "global_throttle = (60000, 120)"

definition endpoint :: "http_verb \<Rightarrow> segment list \<Rightarrow> nat list \<Rightarrow> route_info" where
  "endpoint verb path documented =
     \<lparr>ro_verb = verb, ro_path = path, ro_public = False, ro_roles = None,
      ro_code = (if verb = POST then 201 else 200), ro_throttle = global_throttle, ro_documented = documented\<rparr>"

definition Public :: "route_info \<Rightarrow> route_info" where
  "Public r = r\<lparr>ro_public := True\<rparr>"

definition Roles :: "role list \<Rightarrow> route_info \<Rightarrow> route_info" where
  "Roles rs r = r\<lparr>ro_roles := Some rs\<rparr>"

definition HttpCode :: "nat \<Rightarrow> route_info \<Rightarrow> route_info" where
  "HttpCode c r = r\<lparr>ro_code := c\<rparr>"

definition Throttle :: "int \<Rightarrow> int \<Rightarrow> route_info \<Rightarrow> route_info" where
  "Throttle ttl n r = r\<lparr>ro_throttle := (ttl, n)\<rparr>"

fun AuthController_route :: "auth_call \<Rightarrow> route_info" where
  "AuthController_route (register_call _) =
     Public (Throttle (60 * 60000) 10 (endpoint POST [Seg ''auth'', Seg ''register''] [201, 409, 429]))"
| "AuthController_route (login_call _) =
     Public (HttpCode 200 (Throttle 60000 5 (endpoint POST [Seg ''auth'', Seg ''login''] [200, 401, 429])))"
| "AuthController_route (refresh_call _) =
     Public (HttpCode 200 (Throttle 60000 20 (endpoint POST [Seg ''auth'', Seg ''refresh''] [200, 401, 429])))"
| "AuthController_route (logout_call _) =
     HttpCode 204 (Throttle 60000 10 (endpoint POST [Seg ''auth'', Seg ''logout''] [204]))"
| "AuthController_route logoutAll_call =
     HttpCode 204 (Throttle 60000 5 (endpoint POST [Seg ''auth'', Seg ''logout'', Seg ''all''] [204]))"

fun UsersController_route :: "users_call \<Rightarrow> route_info" where
  "UsersController_route getMe_call = endpoint GET [Seg ''users'', Seg ''me''] [200, 401]"
| "UsersController_route (updateProfile_call _) =
     endpoint PATCH [Seg ''users'', Seg ''me''] [200, 400, 401, 409]"
| "UsersController_route (changePassword_call _) =
     HttpCode 204 (Throttle 60000 5
       (endpoint PATCH [Seg ''users'', Seg ''me'', Seg ''password''] [204, 400, 401, 429]))"
| "UsersController_route closeAccount_call =
     HttpCode 204 (Throttle (60 * 60000) 3 (endpoint DELETE [Seg ''users'', Seg ''me''] [204, 401, 409, 429]))"
| "UsersController_route (listUsers_call _) =
     Roles [ADMIN] (endpoint GET [Seg ''users''] [200, 401, 403])"
| "UsersController_route (getUserById_call _) =
     Roles [ADMIN] (endpoint GET [Seg ''users'', Param] [200, 401, 403, 404])"
| "UsersController_route (updateUserStatus_call _ _) =
     Roles [ADMIN] (endpoint PATCH [Seg ''users'', Param, Seg ''status''] [200, 400, 401, 403, 404, 409])"

fun WalletController_route :: "wallet_call \<Rightarrow> route_info" where
  "WalletController_route getMyWallet_call = endpoint GET [Seg ''wallets'', Seg ''me''] [200, 401, 404]"
| "WalletController_route (getMyLedger_call _) =
     endpoint GET [Seg ''wallets'', Seg ''me'', Seg ''ledger''] [200, 400, 401, 404]"
| "WalletController_route (listWallets_call _) =
     Roles [ADMIN] (endpoint GET [Seg ''wallets''] [200, 400, 401, 403])"
| "WalletController_route (getWalletById_call _) =
     Roles [ADMIN] (endpoint GET [Seg ''wallets'', Param] [200, 401, 403, 404])"
| "WalletController_route (getWalletLedger_call _ _) =
     Roles [ADMIN] (endpoint GET [Seg ''wallets'', Param, Seg ''ledger''] [200, 400, 401, 403, 404])"

fun TransactionController_route :: "transaction_call \<Rightarrow> route_info" where
  "TransactionController_route (deposit_call _) =
     HttpCode 202 (Throttle 60000 10 (endpoint POST [Seg ''transactions'', Seg ''deposit''] [202, 400, 403, 429]))"
| "TransactionController_route (withdraw_call _) =
     HttpCode 202 (Throttle 60000 10
       (endpoint POST [Seg ''transactions'', Seg ''withdrawal''] [202, 400, 403, 422, 429]))"
| "TransactionController_route (transfer_call _) =
     HttpCode 201 (Throttle 60000 20
       (endpoint POST [Seg ''transactions'', Seg ''transfer''] [201, 400, 403, 422, 429]))"
| "TransactionController_route (getHistory_call _) = endpoint GET [Seg ''transactions''] [200]"
| "TransactionController_route (getOne_call _) = endpoint GET [Seg ''transactions'', Param] [200, 403]"

fun PaymentController_route :: "payment_call \<Rightarrow> route_info" where
  "PaymentController_route (createDepositIntent_call _) =
     HttpCode 200 (Throttle 60000 20
       (endpoint POST [Seg ''payments'', Seg ''deposits'', Seg ''intents''] [200, 400, 401, 403, 409, 429]))"
| "PaymentController_route (confirmDeposit_call _) =
     HttpCode 202 (Throttle 60000 10
       (endpoint POST [Seg ''payments'', Seg ''deposits'', Seg ''confirm''] [202, 400, 401, 403, 409, 429]))"
| "PaymentController_route (createPayout_call _) =
     HttpCode 202 (Throttle 60000 10
       (endpoint POST [Seg ''payments'', Seg ''payouts'', Seg ''create''] [202, 400, 401, 403, 409, 422, 429]))"

fun StripeConnectController_route :: "connect_call \<Rightarrow> route_info" where
  "StripeConnectController_route createConnectAccount_call =
     HttpCode 200 (Throttle (60 * 60000) 5
       (endpoint POST [Seg ''stripe-connect'', Seg ''accounts''] [200, 401, 502, 429]))"
| "StripeConnectController_route getAccountStatus_call =
     HttpCode 200 (endpoint GET [Seg ''stripe-connect'', Seg ''accounts'', Seg ''status''] [200, 401, 502])"
| "StripeConnectController_route refreshOnboardingLink_call =
     HttpCode 200 (Throttle (60 * 60000) 10
       (endpoint POST [Seg ''stripe-connect'', Seg ''accounts'', Seg ''onboarding-link''] [200, 400, 401, 502, 429]))"
| "StripeConnectController_route handleReturn_call =
     Public (HttpCode 302 (endpoint GET [Seg ''stripe-connect'', Seg ''onboarding'', Seg ''return''] [302]))"
| "StripeConnectController_route handleRefresh_call =
     Public (HttpCode 302 (endpoint GET [Seg ''stripe-connect'', Seg ''onboarding'', Seg ''refresh''] [302]))"

definition StripeConnectWebhookController_route :: route_info where
  "StripeConnectWebhookController_route =
     Public (HttpCode 200 (endpoint POST [Seg ''stripe-connect'', Seg ''webhooks''] [200, 401]))"

definition HealthController_route :: route_info where
  "HealthController_route = Public (HttpCode 200 (endpoint GET [Seg ''health''] []))"

fun route_of :: "call \<Rightarrow> route_info" where
  "route_of (Auth c) = AuthController_route c"
| "route_of (Users c) = UsersController_route c"
| "route_of (Wallets c) = WalletController_route c"
| "route_of (Transactions c) = TransactionController_route c"
| "route_of (Payments c) = PaymentController_route c"
| "route_of (Connect c) = StripeConnectController_route c"
| "route_of (Webhook b s) = StripeConnectWebhookController_route"
| "route_of (Health up) = HealthController_route"

section \<open>Bodies\<close>

text \<open>What the methods return.\<close>

datatype result =
    NoResult
  | TokensResult TokenPair
  | ProfileResult UserWithWallet
  | UpdatedProfileResult UserProfile
  | UpdatedUserResult "UserWithWallet option"
  | UsersResult PaginatedUsersResult
  | WalletResult WalletResponse
  | WalletsResult WalletPage
  | LedgerResult LedgerPage
  | MutatedResult TransactionResult bool
  | HistoryResult "TransactionResult list \<times> PageMeta"
  | OneTransactionResult TransactionResult
  | IntentResult DepositIntentResult
  | PaymentResult "uuid \<times> transaction_status"
  | ConnectAccountResult "string \<times> string"
  | ConnectStatusResult ConnectAccountStatusDto
  | LinkResult string
  | RedirectResult string
  | ReceivedResult bool
  | HealthResult health_report

text \<open>The services the controllers are built with.\<close>

record app =
  app_auth :: auth_env
  app_registry :: registry
  app_connect :: connect_api
  app_connect_config :: connect_config
  app_date_parse :: "string \<Rightarrow> instant option"
  app_texts :: error_texts

definition giving :: "(world, 'a) prog \<Rightarrow> ('a \<Rightarrow> result) \<Rightarrow> (world, result) prog" where
  "giving m f = bindP m (\<lambda>a. ret (f a))"

text \<open>\<open>@CurrentUser()\<close>: reading a property of a user that is not there fails.\<close>

definition with_user :: "jwt_payload option \<Rightarrow> (jwt_payload \<Rightarrow> (world, result) prog) \<Rightarrow> (world, result) prog" where
  "with_user user f = (case user of
     None \<Rightarrow> throw (JsError ''Cannot read properties of undefined (reading 'sub')'')
   | Some u \<Rightarrow> f u)"

fun AuthController :: "app \<Rightarrow> jwt_payload option \<Rightarrow> string option \<Rightarrow> auth_call \<Rightarrow> (world, result) prog" where
  "AuthController app user userAgent (register_call dto) =
     giving (register (app_auth app) (RegisterDto_transform dto) userAgent) TokensResult"
| "AuthController app user userAgent (login_call dto) =
     giving (login (app_auth app) (LoginDto_transform dto) userAgent) TokensResult"
| "AuthController app user userAgent (refresh_call token) =
     giving (refresh (app_auth app) token userAgent) TokensResult"
| "AuthController app user userAgent (logout_call token) =
     with_user user (\<lambda>u. giving (logout (app_auth app) token (sub u) (jti u) userAgent) (\<lambda>_. NoResult))"
| "AuthController app user userAgent logoutAll_call =
     with_user user (\<lambda>u. giving (logoutAll (app_auth app) (sub u) (jti u) userAgent) (\<lambda>_. NoResult))"

fun UsersController :: "app \<Rightarrow> jwt_payload option \<Rightarrow> users_call \<Rightarrow> (world, result) prog" where
  "UsersController app user getMe_call = with_user user (\<lambda>u. giving (getMe (sub u)) ProfileResult)"
| "UsersController app user (updateProfile_call dto) =
     with_user user (\<lambda>u. giving (updateProfile (sub u) dto) UpdatedProfileResult)"
| "UsersController app user (changePassword_call dto) =
     with_user user (\<lambda>u. giving (changePassword (app_auth app) (sub u) (jti u) dto) (\<lambda>_. NoResult))"
| "UsersController app user closeAccount_call =
     with_user user (\<lambda>u. giving (closeAccount (app_auth app) (sub u) (jti u)) (\<lambda>_. NoResult))"
| "UsersController app user (listUsers_call query) = giving (listUsers query) UsersResult"
| "UsersController app user (getUserById_call i) = giving (getUserById i) ProfileResult"
| "UsersController app user (updateUserStatus_call i dto) =
     with_user user (\<lambda>u. giving (updateUserStatus (sub u) i dto) UpdatedUserResult)"

fun WalletController :: "app \<Rightarrow> jwt_payload option \<Rightarrow> wallet_call \<Rightarrow> (world, result) prog" where
  "WalletController app user getMyWallet_call =
     with_user user (\<lambda>u. giving (getMyWallet (sub u)) WalletResult)"
| "WalletController app user (getMyLedger_call query) =
     with_user user (\<lambda>u. giving (getMyLedger (app_date_parse app) (sub u) query) LedgerResult)"
| "WalletController app user (listWallets_call query) =
     giving (listWallets (app_date_parse app) query) WalletsResult"
| "WalletController app user (getWalletById_call i) = giving (getWalletById i) WalletResult"
| "WalletController app user (getWalletLedger_call i query) =
     giving (getWalletLedger (app_date_parse app) i query) LedgerResult"

text \<open>The replay flag of a mutation becomes the \<open>Idempotency-Replayed\<close> header.\<close>

definition mutation :: "MutationResult \<Rightarrow> result" where
  "mutation r = MutatedResult (mr_data r) (mr_replayed r)"

fun TransactionController :: "jwt_payload option \<Rightarrow> transaction_call \<Rightarrow> (world, result) prog" where
  "TransactionController user (deposit_call dto) =
     with_user user (\<lambda>u. giving (deposit (sub u) dto) mutation)"
| "TransactionController user (withdraw_call dto) =
     with_user user (\<lambda>u. giving (withdraw (sub u) dto) mutation)"
| "TransactionController user (transfer_call dto) =
     with_user user (\<lambda>u. giving (transfer (sub u) dto) mutation)"
| "TransactionController user (getHistory_call query) =
     with_user user (\<lambda>u. giving (getTransactionHistory (sub u) (TransactionQueryDto_transform query)) HistoryResult)"
| "TransactionController user (getOne_call i) =
     with_user user (\<lambda>u. giving (getTransaction (sub u) i) OneTransactionResult)"

fun PaymentController :: "app \<Rightarrow> jwt_payload option \<Rightarrow> payment_call \<Rightarrow> (world, result) prog" where
  "PaymentController app user (createDepositIntent_call dto) =
     with_user user (\<lambda>u. giving (createDepositIntent_service (app_registry app) (sub u) dto) IntentResult)"
| "PaymentController app user (confirmDeposit_call dto) =
     with_user user (\<lambda>u. giving (confirmDeposit_service (sub u) dto) PaymentResult)"
| "PaymentController app user (createPayout_call dto) =
     with_user user (\<lambda>u. giving (createPayout_service (sub u) dto) PaymentResult)"

fun StripeConnectController :: "app \<Rightarrow> jwt_payload option \<Rightarrow> connect_call \<Rightarrow> (world, result) prog" where
  "StripeConnectController app user createConnectAccount_call =
     with_user user (\<lambda>u. giving
       (createConnectAccount (app_connect app) (app_connect_config app) (sub u) (jp_email u)) ConnectAccountResult)"
| "StripeConnectController app user getAccountStatus_call =
     with_user user (\<lambda>u. giving (getAccountStatus (app_connect app) (sub u)) ConnectStatusResult)"
| "StripeConnectController app user refreshOnboardingLink_call =
     with_user user (\<lambda>u. giving
       (refreshOnboardingLink (app_connect app) (app_connect_config app) (sub u)) LinkResult)"
| "StripeConnectController app user handleReturn_call = ret (RedirectResult (handleReturn (app_connect_config app)))"
| "StripeConnectController app user handleRefresh_call = ret (RedirectResult (handleRefresh (app_connect_config app)))"

fun invoke :: "app \<Rightarrow> jwt_payload option \<Rightarrow> string option \<Rightarrow> call \<Rightarrow> (world, result) prog" where
  "invoke app user userAgent (Auth c) = AuthController app user userAgent c"
| "invoke app user userAgent (Users c) = UsersController app user c"
| "invoke app user userAgent (Wallets c) = WalletController app user c"
| "invoke app user userAgent (Transactions c) = TransactionController user c"
| "invoke app user userAgent (Payments c) = PaymentController app user c"
| "invoke app user userAgent (Connect c) = StripeConnectController app user c"
| "invoke app user userAgent (Webhook body signature) =
     giving (handleWebhook (app_connect app) (app_connect_config app) body signature) ReceivedResult"
| "invoke app user userAgent (Health up) = giving (health_check up) HealthResult"

end
