(* ===== verification/Requests.thy ===== *)
theory Requests
  imports Session_Properties Service_Properties Controllers
begin

text \<open>
  One request from the guards to the answer: the guards and interceptors of
  \<open>app.module.ts\<close> in their order, the pipes, the controller and the exception filter. The
  verdicts of the throttler, of the token library and of the pipes are part of the request.
\<close>

section \<open>Requests and answers\<close>

record request =
  rq_call :: call
  rq_url :: string
  rq_http :: http_request
  rq_throttled :: "http_exception option"
  rq_verified :: "jwt_payload option"
  rq_refused :: "thrown option"

datatype answer_body = Envelope "result ApiResponse" | Location string | Failure StandardErrorResponse

record answer =
  an_status :: nat
  an_replayed :: bool
  an_body :: answer_body

text \<open>\<open>res.redirect\<close> answers for itself; every other value is sent in its envelope.\<close>

definition answered :: "nat \<Rightarrow> result ApiResponse \<Rightarrow> answer" where
  "answered code r = (case api_data r of
     RedirectResult url \<Rightarrow> \<lparr>an_status = 302, an_replayed = False, an_body = Location url\<rparr>
   | MutatedResult t r_flag \<Rightarrow> \<lparr>an_status = code, an_replayed = r_flag, an_body = Envelope r\<rparr>
   | _ \<Rightarrow> \<lparr>an_status = code, an_replayed = False, an_body = Envelope r\<rparr>)"

definition failed :: "request \<Rightarrow> thrown \<Rightarrow> world \<Rightarrow> answer" where
  "failed rq t w = (let e = snd (catch_exception t (verb_str (ro_verb (route_of (rq_call rq)))) (rq_url rq) (clock w)) in
     \<lparr>an_status = er_statusCode e, an_replayed = False, an_body = Failure e\<rparr>)"

text \<open>Pipes, interceptors and handler, once the guards let the request through.\<close>

definition handled :: "app \<Rightarrow> request \<Rightarrow> jwt_payload option \<Rightarrow> world \<Rightarrow> answer \<times> world" where
  "handled app rq user w =
     (case RequestContextInterceptor ((rq_http rq)\<lparr>hq_user := user\<rparr>)
        (case rq_refused rq of
           Some t \<Rightarrow> ret (Inl t)
         | None \<Rightarrow> bindP (ResponseInterceptor (invoke app user (hq_user_agent (rq_http rq)) (rq_call rq)))
             (\<lambda>r. ret (Inr r))) w of
        (Inl e, w') \<Rightarrow> (failed rq (thrown_of (app_texts app) e) w', w')
      | (Inr (Inl t), w') \<Rightarrow> (failed rq t w', w')
      | (Inr (Inr r), w') \<Rightarrow> (answered (ro_code (route_of (rq_call rq))) r, w'))"

definition serve :: "app \<Rightarrow> request \<Rightarrow> world \<Rightarrow> answer \<times> world" where
  "serve app rq w = (case rq_throttled rq of
     Some e \<Rightarrow> (failed rq (HttpException e) w, w)
   | None \<Rightarrow>
       (case JwtAuthGuard (ro_public (route_of (rq_call rq))) (rq_verified rq) w of
          (Inl e, w') \<Rightarrow> (failed rq (thrown_of (app_texts app) e) w', w')
        | (Inr user, w') \<Rightarrow>
            if RolesGuard (ro_roles (route_of (rq_call rq))) user then handled app rq user w'
            else (failed rq (HttpException (nest_exception (app_texts app) ForbiddenException ''Forbidden resource'')) w', w')))"

section \<open>The routes\<close>

fun is_public :: "call \<Rightarrow> bool" where
  "is_public (Auth (register_call _)) = True"
| "is_public (Auth (login_call _)) = True"
| "is_public (Auth (refresh_call _)) = True"
| "is_public (Connect handleReturn_call) = True"
| "is_public (Connect handleRefresh_call) = True"
| "is_public (Webhook _ _) = True"
| "is_public (Health _) = True"
| "is_public _ = False"

fun is_admin :: "call \<Rightarrow> bool" where
  "is_admin (Users (listUsers_call _)) = True"
| "is_admin (Users (getUserById_call _)) = True"
| "is_admin (Users (updateUserStatus_call _ _)) = True"
| "is_admin (Wallets (listWallets_call _)) = True"
| "is_admin (Wallets (getWalletById_call _)) = True"
| "is_admin (Wallets (getWalletLedger_call _ _)) = True"
| "is_admin _ = False"

lemmas route_defs = endpoint_def Public_def Roles_def HttpCode_def Throttle_def global_throttle_def
  StripeConnectWebhookController_route_def HealthController_route_def

lemma route_cases:
  "(\<And>c'. c = Auth c' \<Longrightarrow> P) \<Longrightarrow> (\<And>c'. c = Users c' \<Longrightarrow> P) \<Longrightarrow> (\<And>c'. c = Wallets c' \<Longrightarrow> P) \<Longrightarrow>
   (\<And>c'. c = Transactions c' \<Longrightarrow> P) \<Longrightarrow> (\<And>c'. c = Payments c' \<Longrightarrow> P) \<Longrightarrow> (\<And>c'. c = Connect c' \<Longrightarrow> P) \<Longrightarrow>
   (\<And>b s. c = Webhook b s \<Longrightarrow> P) \<Longrightarrow> (\<And>u. c = Health u \<Longrightarrow> P) \<Longrightarrow> P"
  by (cases c) auto

lemma route_facts:
  "ro_public (route_of c) = is_public c"
  "ro_roles (route_of c) = (if is_admin c then Some [ADMIN] else None)"
  "ro_code (route_of c) \<in> set (ro_documented (route_of c)) \<or> c = Health True \<or> c = Health False"
proof -
  have "ro_public (route_of c) = is_public c
    \<and> ro_roles (route_of c) = (if is_admin c then Some [ADMIN] else None)
    \<and> (ro_code (route_of c) \<in> set (ro_documented (route_of c)) \<or> c = Health True \<or> c = Health False)"
  proof (cases c rule: route_cases)
    case (1 x) then show ?thesis by (cases x) (simp_all add: route_defs)
  next
    case (2 x) then show ?thesis by (cases x) (simp_all add: route_defs)
  next
    case (3 x) then show ?thesis by (cases x) (simp_all add: route_defs)
  next
    case (4 x) then show ?thesis by (cases x) (simp_all add: route_defs)
  next
    case (5 x) then show ?thesis by (cases x) (simp_all add: route_defs)
  next
    case (6 x) then show ?thesis by (cases x) (simp_all add: route_defs)
  qed (auto simp: route_defs)
  then show "ro_public (route_of c) = is_public c"
    "ro_roles (route_of c) = (if is_admin c then Some [ADMIN] else None)"
    "ro_code (route_of c) \<in> set (ro_documented (route_of c)) \<or> c = Health True \<or> c = Health False"
    by blast+
qed

section \<open>Requests as runs of the system\<close>

text \<open>Bodies and queries as the pipes let them through.\<close>

fun call_valid :: "validators \<Rightarrow> call \<Rightarrow> bool" where
  "call_valid V (Auth (register_call d)) = RegisterDto_valid V (RegisterDto_transform d)"
| "call_valid V (Auth (login_call d)) = LoginDto_valid V (LoginDto_transform d)"
| "call_valid V (Users (updateProfile_call d)) = UpdateProfileDto_valid d"
| "call_valid V (Users (changePassword_call d)) = ChangePasswordDto_valid d"
| "call_valid V (Users (listUsers_call q)) = UserQueryDto_valid q"
| "call_valid V (Wallets (getMyLedger_call q)) = LedgerQueryDto_valid V q"
| "call_valid V (Wallets (listWallets_call q)) = AdminWalletQueryDto_valid V q"
| "call_valid V (Wallets (getWalletLedger_call _ q)) = LedgerQueryDto_valid V q"
| "call_valid V (Transactions (deposit_call d)) = DepositDto_valid V d"
| "call_valid V (Transactions (withdraw_call d)) = DepositDto_valid V d"
| "call_valid V (Transactions (transfer_call d)) = TransferDto_valid V d"
| "call_valid V (Transactions (getHistory_call q)) = TransactionQueryDto_valid (TransactionQueryDto_transform q)"
| "call_valid V (Payments (createDepositIntent_call d)) = CreateDepositIntentDto_valid d"
| "call_valid V (Payments (confirmDeposit_call d)) = ConfirmDepositDto_valid V d"
| "call_valid V (Payments (createPayout_call d)) = CreatePayoutDto_valid V d"
| "call_valid V _ = True"

text \<open>The validation pipe refuses a call that breaks a rule.\<close>

definition piped :: "validators \<Rightarrow> request \<Rightarrow> bool" where
  "piped V rq \<longleftrightarrow> rq_refused rq \<noteq> None \<or> call_valid V (rq_call rq)"

lemma gateway_frame: "within same_books (call_gateway n f b)"
  by (rule same_db_books) (rule within_gateway)

lemma connect_frames:
  "within same_books (createConnectAccount api cfg u m)" "within same_books (getAccountStatus api u)"
  "within same_books (refreshOnboardingLink api cfg u)"
  unfolding createConnectAccount_def getAccountStatus_def refreshOnboardingLink_def createAndPersistAccount_def
    generateOnboardingLink_def createAccount_def retrieveAccount_def createAccountLink_def connect_findById_def
    setConnectAccountId_def
  by (intro frame_intros gateway_frame find_user_frame | (split prod.split; intro allI impI conjI))+

lemma read_frames:
  "within same_books (getMe u)" "within same_books (getUserById u)" "within same_books (listUsers uq)"
  "within same_books (getTransactionHistory u tq)" "within same_books (getTransaction u i)"
  unfolding getMe_def getUserById_def listUsers_def users_findAll_def getTransactionHistory_def
    findByWalletPaginated_def getTransaction_def findTransactionById_def case_prod_beta Let_def
  by (intro frame_intros lookup_frames)+

lemma decodeCursor_pure: "snd (decodeCursor other raw w) = w"
  by (auto simp: decodeCursor_def bad_cursor_def Let_def throw_def ret_def split: option.splits json.splits)

lemma cursor_frame: "within same_books (cursor_param other c)"
  unfolding cursor_param_def
  by (intro frame_intros) (simp add: within_def decodeCursor_pure same_books_def)

lemma keyset_frame: "within same_books (keyset_query other key c n rows)"
  unfolding keyset_query_def by (intro frame_intros)

lemma ledger_frame: "within same_books (fetchLedgerPage other i lq)"
  unfolding fetchLedgerPage_def findLedgerPage_def case_prod_beta
  by (intro frame_intros cursor_frame keyset_frame)

lemma wallet_frames:
  "within same_books (getMyWallet u)" "within same_books (getMyLedger other u lq)"
  "within same_books (listWallets other aw)" "within same_books (getWalletById i)"
  "within same_books (getWalletLedger other i lq)"
  unfolding getMyWallet_def getMyLedger_def listWallets_def getWalletById_def getWalletLedger_def
    wallet_findAll_def findById_def case_prod_beta
  by (intro frame_intros lookup_frames cursor_frame keyset_frame ledger_frame)+

lemma health_frame: "within same_books (health_check up)"
  unfolding health_check_def redis_ping_def
  by (intro frame_intros)

lemma calm_frame: "calm m \<Longrightarrow> within same_books m"
  by (rule within_wpI, rule wp_calm) (simp_all add: same_books_def)

lemma intent_frame:
  assumes "adapters_ok reg"
  shows "within same_books (createDepositIntent_service reg u dto)"
proof -
  have call: "within same_books (bindP (resolve reg p) (\<lambda>a. bindP m (\<lambda>c. createDepositIntent a (f c))))"
    if "within same_books m" for p f and m :: "(world, string option) prog"
  proof (cases "reg p")
    case None
    then show ?thesis by (simp add: resolve_def within_def bindP_def throw_def same_books_def)
  next
    case (Some a)
    with assms have "payment_adapter a" by (auto simp: adapters_ok_def)
    then have "within same_books (createDepositIntent a x)" for x
      by (intro calm_frame payment_adapter.calm_intent)
    then have "within same_books (bindP m (\<lambda>c. createDepositIntent a (f c)))"
      using that by (intro sbooks.within_intros)
    then show ?thesis by (simp add: resolve_def within_def bindP_def ret_def Some)
  qed
  show ?thesis
    unfolding createDepositIntent_service_def assertActive_def assertCurrencyMatch_def findPaymentInternalById_def
    by (rule call | rule frame_intros lookup_frames find_user_frame)+
qed

lemma giving_runs: "within (runs reg) m \<Longrightarrow> within (runs reg) (giving m f)"
  unfolding giving_def by (intro runs.within_intros)

lemma with_user_runs: "(\<And>u. within (runs reg) (f u)) \<Longrightarrow> within (runs reg) (with_user user f)"
  unfolding with_user_def by (intro runs.within_intros)

lemmas books_runs = auth_frames account_frames read_frames wallet_frames connect_frames webhook_frame
  health_frame

text \<open>Every call of every controller is a run of the system.\<close>

lemma invoke_runs:
  assumes reg: "adapters_ok (app_registry app)" and valid: "call_valid V c"
  shows "within (runs (app_registry app)) (invoke app user ua c)"
proof (cases c rule: route_cases)
  case (1 x)
  show ?thesis unfolding 1
    by (cases x) (simp_all add: giving_runs with_user_runs register_runs within_runs_books books_runs)
next
  case (2 x)
  show ?thesis unfolding 2
    by (cases x) (simp_all add: giving_runs with_user_runs within_runs_books books_runs)
next
  case (3 x)
  show ?thesis unfolding 3
    by (cases x) (simp_all add: giving_runs with_user_runs within_runs_books books_runs)
next
  case (4 x)
  with valid show ?thesis unfolding 4
    by (cases x) (simp_all add: giving_runs with_user_runs deposit_runs withdraw_runs transfer_runs within_runs_books books_runs
      DepositDto_valid_def TransferDto_valid_def)
next
  case (5 x)
  with valid show ?thesis unfolding 5
    by (cases x) (simp_all add: giving_runs with_user_runs confirmDeposit_runs createPayout_runs within_runs_books
      intent_frame [OF reg] DepositDto_valid_def ConfirmDepositDto_valid_def CreatePayoutDto_valid_def)
next
  case (6 x)
  show ?thesis unfolding 6
    by (cases x) (simp_all add: giving_runs with_user_runs within_runs_books books_runs sbooks.within_ret)
next
  case (7 b s)
  show ?thesis unfolding 7 by (simp add: giving_runs within_runs_books books_runs)
next
  case (8 u)
  show ?thesis unfolding 8 by (simp add: giving_runs within_runs_books books_runs)
qed

lemma ctx_frame: "within same_books (modP (\<lambda>w. w\<lparr>ctx := f w\<rparr>))"
  by (rule within_wpI) (simp add: wp_modP same_books_def)

lemma context_runs:
  assumes "within (runs reg) m"
  shows "within (runs reg) (RequestContextInterceptor h m)"
  unfolding RequestContextInterceptor_def
  by (intro runs.within_intros assms within_runs_books [OF ctx_frame] within_runs_books [OF random_string_frame])

lemma response_runs:
  assumes "within (runs reg) m"
  shows "within (runs reg) (ResponseInterceptor m)"
  unfolding ResponseInterceptor_def
  by (intro runs.within_intros assms within_runs_books [OF now_same_books])

lemma handled_runs:
  assumes "adapters_ok (app_registry app)" and "piped V rq"
  shows "runs (app_registry app) w (snd (handled app rq user w))"
proof -
  let ?m = "case rq_refused rq of
      Some t \<Rightarrow> ret (Inl t)
    | None \<Rightarrow> bindP (ResponseInterceptor (invoke app user (hq_user_agent (rq_http rq)) (rq_call rq))) (\<lambda>r. ret (Inr r))"
  have "within (runs (app_registry app)) ?m"
    using assms(2)
    by (auto simp: piped_def split: option.splits
      intro!: runs.within_intros response_runs invoke_runs [OF assms(1)])
  from context_runs [OF this] show ?thesis
    by (auto simp: handled_def dest: withinD split: prod.splits sum.splits)
qed

lemma guard_frame: "within same_books (JwtAuthGuard b v)"
  unfolding JwtAuthGuard_def by (intro frame_intros auth_frames)

lemma serve_runs:
  assumes "adapters_ok (app_registry app)" and "piped V rq"
  shows "runs (app_registry app) w (snd (serve app rq w))"
proof (cases "rq_throttled rq")
  case (Some e)
  then show ?thesis by (simp add: serve_def runs.R_refl)
next
  case None
  obtain r v where run: "JwtAuthGuard (ro_public (route_of (rq_call rq))) (rq_verified rq) w = (r, v)" by fastforce
  have "runs (app_registry app) w v"
    using withinD [OF guard_frame run] by (rule runs_elsewhere)
  moreover have "runs (app_registry app) v (snd (handled app rq u v))" for u
    by (rule handled_runs [OF assms])
  ultimately show ?thesis
    using runs.R_trans by (auto simp: serve_def None run split: sum.splits)
qed

section \<open>Who gets through the guards\<close>

text \<open>
  A request is admitted when the throttler lets it pass and it calls a public method, or
  carries a token the library verified, that is readably not revoked, of a user who exists
  and is active; an administrator's method also needs the role in the token.
\<close>

definition token_accepted :: "jwt_payload \<Rightarrow> world \<Rightarrow> bool" where
  "token_accepted p w \<longleftrightarrow> redis_ok w (redis_calls w) \<and> redis_live w (denylist_key (jti p)) = None
     \<and> (case find (\<lambda>u. u_id u = sub p) (users (db w)) of None \<Rightarrow> False | Some u \<Rightarrow> u_status u = ACTIVE)"

definition admitted :: "request \<Rightarrow> world \<Rightarrow> bool" where
  "admitted rq w \<longleftrightarrow> rq_throttled rq = None \<and> (is_public (rq_call rq) \<or> (case rq_verified rq of
     None \<Rightarrow> False
   | Some p \<Rightarrow> token_accepted p w \<and> (is_admin (rq_call rq) \<longrightarrow> jp_role p = ADMIN)))"

definition rejected :: "request \<Rightarrow> world \<Rightarrow> answer \<times> world \<Rightarrow> bool" where
  "rejected rq w r \<longleftrightarrow> (case an_body (fst r) of Failure e \<Rightarrow> er_statusCode e = an_status (fst r) | _ \<Rightarrow> False)
     \<and> db (snd r) = db w \<and> redis (snd r) = redis w \<and> wire (snd r) = wire w
     \<and> (rq_throttled rq = None \<longrightarrow> an_status (fst r) \<in> {401, 403, 503})"

lemma validate_run:
  "\<exists>w'. validate p w = (if token_accepted p w then Inr p else fst (validate p w), w')
    \<and> db w' = db w \<and> redis w' = redis w \<and> wire w' = wire w
    \<and> (\<not> token_accepted p w \<longrightarrow> (\<exists>k m. fst (validate p w) = Inl (HttpExn k m)
        \<and> (k = UnauthorizedException \<or> k = ServiceUnavailableException)))"
  by (auto simp: token_accepted_def validate_def isRevoked_def redis_get_def redis_call_def catchP_def bindP_def ret_def throw_def
    thenP_def denylist_failure_def audit_error_def audit_emit_def modP_def auth_findById_def find_user_def t_find_def
    getP_def users_t_def Let_def split: option.splits)

lemma guard_run:
  "\<exists>r w'. JwtAuthGuard b v w = (r, w') \<and> db w' = db w \<and> redis w' = redis w \<and> wire w' = wire w
    \<and> (if b then r = Inr None
       else case v of Some p \<Rightarrow> if token_accepted p w then r = Inr (Some p)
           else \<exists>k m. r = Inl (HttpExn k m) \<and> (k = UnauthorizedException \<or> k = ServiceUnavailableException)
         | None \<Rightarrow> \<exists>k m. r = Inl (HttpExn k m) \<and> (k = UnauthorizedException \<or> k = ServiceUnavailableException))"
proof (cases "b \<or> v = None")
  case True
  then show ?thesis by (auto simp: JwtAuthGuard_def ret_def throw_def)
next
  case False
  then obtain p where v: "v = Some p" "\<not> b" by auto
  obtain w' where w': "validate p w = (if token_accepted p w then Inr p else fst (validate p w), w')"
      "db w' = db w" "redis w' = redis w" "wire w' = wire w"
      "\<not> token_accepted p w \<longrightarrow> (\<exists>k m. fst (validate p w) = Inl (HttpExn k m)
        \<and> (k = UnauthorizedException \<or> k = ServiceUnavailableException))"
    using validate_run [of p w] by blast
  show ?thesis
  proof (cases "token_accepted p w")
    case True
    with w'(1) have "validate p w = (Inr p, w')" by simp
    with True v w'(2-4) show ?thesis by (simp add: JwtAuthGuard_def bindP_def ret_def)
  next
    case False
    with w'(5) obtain k m where km: "fst (validate p w) = Inl (HttpExn k m)"
      "k = UnauthorizedException \<or> k = ServiceUnavailableException" by blast
    moreover from this False w'(1) have "validate p w = (Inl (HttpExn k m), w')" by (metis fst_conv prod.collapse snd_conv)
    ultimately show ?thesis using False v w'(2-4) by (simp add: JwtAuthGuard_def bindP_def)
  qed
qed

lemma failed_http:
  "an_status (failed rq (thrown_of texts (HttpExn k m)) w) = http_status k"
  "case an_body (failed rq t w) of Failure e \<Rightarrow> er_statusCode e = an_status (failed rq t w) | _ \<Rightarrow> False"
  by (simp_all add: failed_def Let_def catch_exception_def toStandardError_def nest_exception_def unpackHttpExceptionBody_def)

lemma failed_forbidden: "an_status (failed rq (HttpException (nest_exception texts k m)) w) = http_status k"
  by (simp add: failed_def Let_def catch_exception_def toStandardError_def nest_exception_def unpackHttpExceptionBody_def)

lemma rejectedI:
  assumes "an_body a = Failure e" and "er_statusCode e = an_status a"
    and "db w' = db w" and "redis w' = redis w" and "wire w' = wire w"
    and "rq_throttled rq = None \<Longrightarrow> an_status a \<in> {401, 403, 503}"
  shows "rejected rq w (a, w')"
  using assms by (simp add: rejected_def)

lemma failed_Failure: "\<exists>e. an_body (failed rq t w) = Failure e \<and> er_statusCode e = an_status (failed rq t w)"
  by (simp add: failed_def Let_def)

lemma serve_outcome:
  "(admitted rq w \<longrightarrow> (\<exists>v. serve app rq w = handled app rq (if is_public (rq_call rq) then None else rq_verified rq) v
      \<and> db v = db w \<and> redis v = redis w \<and> wire v = wire w))
   \<and> (\<not> admitted rq w \<longrightarrow> rejected rq w (serve app rq w))"
proof (cases "rq_throttled rq")
  case (Some t)
  with failed_Failure [of rq "HttpException t" w] show ?thesis
    by (auto simp: admitted_def serve_def intro!: rejectedI)
next
  case None
  obtain r v where run: "JwtAuthGuard (is_public (rq_call rq)) (rq_verified rq) w = (r, v)"
    and v: "db v = db w" "redis v = redis w" "wire v = wire w"
    and r: "if is_public (rq_call rq) then r = Inr None
       else case rq_verified rq of Some p \<Rightarrow> if token_accepted p w then r = Inr (Some p)
           else \<exists>k m. r = Inl (HttpExn k m) \<and> (k = UnauthorizedException \<or> k = ServiceUnavailableException)
         | None \<Rightarrow> \<exists>k m. r = Inl (HttpExn k m) \<and> (k = UnauthorizedException \<or> k = ServiceUnavailableException)"
    using guard_run [of "is_public (rq_call rq)" "rq_verified rq" w] by blast
  have admin_private: "is_public c \<Longrightarrow> \<not> is_admin c" for c by (cases c rule: is_public.cases) simp_all
  have throws: "rejected rq w (failed rq (thrown_of (app_texts app) (HttpExn k m)) v, v)"
    if "k = UnauthorizedException \<or> k = ServiceUnavailableException" for k m
    using that failed_Failure [of rq "thrown_of (app_texts app) (HttpExn k m)" v] failed_http(1) [of rq "app_texts app" k m v] v
    by (auto intro!: rejectedI simp: http_status_def simp del: thrown_of.simps)
  have forbids: "rejected rq w (failed rq (HttpException (nest_exception (app_texts app) ForbiddenException s)) v, v)" for s
    using failed_Failure [of rq "HttpException (nest_exception (app_texts app) ForbiddenException s)" v]
      failed_forbidden [of rq "app_texts app" ForbiddenException s v] v
    by (auto intro!: rejectedI simp: http_status_def)
  have serve: "serve app rq w = (case r of Inl e \<Rightarrow> (failed rq (thrown_of (app_texts app) e) v, v)
      | Inr user \<Rightarrow> if RolesGuard (if is_admin (rq_call rq) then Some [ADMIN] else None) user then handled app rq user v
          else (failed rq (HttpException (nest_exception (app_texts app) ForbiddenException ''Forbidden resource'')) v, v))"
    unfolding serve_def None option.case route_facts(1,2) run prod.case ..
  show ?thesis
    using r v throws forbids admin_private [of "rq_call rq"]
    by (auto simp: serve None admitted_def RolesGuard_def split: option.splits if_splits simp del: thrown_of.simps)
qed

section \<open>Properties\<close>

text \<open>
  C6. Every request is authorised before its method runs: a request runs its controller only
  when it is admitted (a public method, or a verified token that is readably not revoked, of
  an existing active user, with the administrator's role where the method asks for it), and
  then with that token's user; every other request is answered with an error and leaves the
  database, Redis and the providers untouched.
\<close>

theorem requests_are_authorised:
  "(admitted rq w \<longrightarrow> (\<exists>v. serve app rq w = handled app rq (if is_public (rq_call rq) then None else rq_verified rq) v
      \<and> db v = db w \<and> redis v = redis w \<and> wire v = wire w))
   \<and> (\<not> admitted rq w \<longrightarrow> rejected rq w (serve app rq w))"
  by (rule serve_outcome)

definition demo_app :: app where
  "demo_app = \<lparr>app_auth = demo_env, app_registry = demo_registry, app_connect = demo_connect,
     app_connect_config = demo_connect_config, app_date_parse = (\<lambda>_. None),
     app_texts = \<lparr>et_message = (\<lambda>_. ''message''), et_stack = (\<lambda>_. ''stack'')\<rparr>\<rparr>"

definition demo_request :: "jwt_payload option \<Rightarrow> call \<Rightarrow> request" where
  "demo_request p c = \<lparr>rq_call = c, rq_url = ''/'', rq_http = \<lparr>hq_x_request_id = None, hq_user_agent = None,
     hq_ip = ''::1'', hq_user = None\<rparr>, rq_throttled = None, rq_verified = p, rq_refused = None\<rparr>"

definition ann_token :: jwt_payload where
  "ann_token = \<lparr>sub = ''id0'', jp_email = ''ann@x.y'', jp_role = USER, jti = ''j''\<rparr>"

definition demo_deposit_request :: "jwt_payload option \<Rightarrow> request" where
  "demo_deposit_request p = demo_request p (Transactions (deposit_call
     \<lparr>amount = 1, dto_currency = USD, dto_idempotencyKey = ''k9'', description = None\<rparr>))"

theorem requests_are_authorised_witness:
  "rejected (demo_deposit_request None) demo_registered (serve demo_app (demo_deposit_request None) demo_registered)
   \<and> rejected (demo_request (Some ann_token) (Users (getUserById_call ''id2''))) demo_registered
       (serve demo_app (demo_request (Some ann_token) (Users (getUserById_call ''id2''))) demo_registered)
   \<and> (\<exists>v. serve demo_app (demo_deposit_request (Some ann_token)) demo_registered
       = handled demo_app (demo_deposit_request (Some ann_token)) (Some ann_token) v)"
proof -
  have "token_accepted ann_token demo_registered"
    by (simp add: token_accepted_def demo_registered_def ann_token_def redis_live_def ann_def new_user_def)
  then show ?thesis
    using requests_are_authorised [of "demo_deposit_request None" demo_registered demo_app]
      requests_are_authorised [of "demo_deposit_request (Some ann_token)" demo_registered demo_app]
      requests_are_authorised [of "demo_request (Some ann_token) (Users (getUserById_call ''id2''))" demo_registered demo_app]
    by (auto simp: admitted_def demo_deposit_request_def demo_request_def ann_token_def)
qed

text \<open>Everything that happens to the running service: requests, the two jobs, and time.\<close>

datatype activity = Serve request | Process | Cleanup | Wait nat

fun occur :: "app \<Rightarrow> activity \<Rightarrow> world \<Rightarrow> world" where
  "occur app (Serve rq) w = snd (serve app rq w)"
| "occur app Process w = snd (processOutbox (app_registry app) w)"
| "occur app Cleanup w = (case cleanupExpiredTokens CLEANUP_BATCH_SIZE w of None \<Rightarrow> w | Some r \<Rightarrow> snd r)"
| "occur app (Wait ms) w = w\<lparr>clock := clock w + int ms\<rparr>"

definition happen :: "app \<Rightarrow> activity list \<Rightarrow> world \<Rightarrow> world" where
  "happen app acts w = fold (occur app) acts w"

definition activity_ok :: "validators \<Rightarrow> activity \<Rightarrow> bool" where
  "activity_ok V a = (case a of Serve rq \<Rightarrow> piped V rq | _ \<Rightarrow> True)"

lemma occur_runs:
  assumes "adapters_ok (app_registry app)" and "activity_ok V a"
  shows "runs (app_registry app) w (occur app a w)"
proof (cases a)
  case (Serve rq)
  with assms show ?thesis by (simp add: activity_ok_def serve_runs)
next
  case Process
  with processOutbox_runs [OF assms(1)] show ?thesis by (simp add: within_def)
next
  case Cleanup
  have "0 < CLEANUP_BATCH_SIZE" by (simp add: CLEANUP_BATCH_SIZE_def)
  from cleanup_outcome [OF this, of w] obtain r w' where "cleanupExpiredTokens CLEANUP_BATCH_SIZE w = Some (r, w')"
    "same_books w w'" by (auto simp: same_books_def split: if_splits)
  with Cleanup show ?thesis by (simp add: runs_elsewhere)
next
  case (Wait ms)
  then show ?thesis by (simp add: runs_elsewhere same_books_def)
qed

lemma happen_runs:
  assumes "adapters_ok (app_registry app)" and "list_all (activity_ok V) acts"
  shows "runs (app_registry app) w (happen app acts w)"
  using assms(2)
proof (induction acts arbitrary: w)
  case Nil
  show ?case by (simp add: happen_def runs.R_refl)
next
  case (Cons a acts)
  then have "runs (app_registry app) w (occur app a w)"
    "runs (app_registry app) (occur app a w) (happen app acts (occur app a w))"
    using occur_runs [OF assms(1), of V a w] by simp_all
  then show ?case using runs.R_trans by (auto simp: happen_def)
qed

text \<open>
  C5. The whole service refines the abstract system: whatever validated or refused requests
  it serves, through guards, pipes, controllers and filter, and however often the outbox and
  clean-up jobs run in between, its world moves by steps of the system; started on an empty
  database it only reaches the system's reachable states, with balanced books.
\<close>

theorem service_refines_system:
  assumes "adapters_ok (app_registry app)" and "list_all (activity_ok V) acts"
  shows "runs (app_registry app) w (happen app acts w)
    \<and> (db w = empty_db \<longrightarrow> reachable (app_registry app) (happen app acts w, []) \<and> books_ok (db (happen app acts w)))"
proof -
  have r: "runs (app_registry app) w (happen app acts w)" by (rule happen_runs [OF assms])
  moreover have "reachable (app_registry app) (happen app acts w, [])" if "db w = empty_db"
    using reachable_steps [OF reachable.start [OF that]] r by (simp add: runs_def)
  ultimately show ?thesis using reachable_sys_ok [OF _ assms(1)] by (fastforce simp: sys_ok_def)
qed

theorem service_refines_system_witness:
  "books_ok (db (happen demo_app [Serve (demo_request None (Auth (refresh_call ''t''))), Process, Wait 60000,
     Serve (demo_deposit_request (Some ann_token)), Cleanup] demo_start))"
proof -
  let ?V = "\<lparr>isEmail = (\<lambda>_. True), isPhoneNumber = (\<lambda>_. True), isUUID4 = (\<lambda>_. True), isBase64 = (\<lambda>_. True)\<rparr>"
  have "adapters_ok (app_registry demo_app)" by (simp add: demo_app_def demo_registry_ok)
  moreover have "list_all (activity_ok ?V) [Serve (demo_request None (Auth (refresh_call ''t''))), Process, Wait 60000,
     Serve (demo_deposit_request (Some ann_token)), Cleanup]"
    by (simp add: activity_ok_def piped_def demo_request_def demo_deposit_request_def DepositDto_valid_def
      MoneyDto_valid_def description_valid_def optional_def)
  ultimately show ?thesis
    using service_refines_system by (metis demo_start_simps(1))
qed

end
