(* ===== verification/Writes.thy ===== *)
theory Writes
  imports Requests "HOL-Library.Sublist"
begin

text \<open>
  The program seen from its tables: \<open>table_write\<close> lists every single write the code performs,
  and every service method, request and job is shown to be a sequence of them. What all the
  writes keep holds of the running service, whatever requests it serves: the schema's
  constraints, the append-only records, the fate of a revoked token, and who may grant
  rights.
\<close>

section \<open>The writes\<close>

text \<open>Columns an update of the row never changes.\<close>

definition account_kept :: "user \<Rightarrow> user \<Rightarrow> bool" where
  "account_kept u v \<longleftrightarrow> u_id v = u_id u \<and> u_createdAt v = u_createdAt u"

text \<open>Without an administrator's rights a role stays, and a status only goes to \<open>CLOSED\<close>.\<close>

definition rights_kept :: "user \<Rightarrow> user \<Rightarrow> bool" where
  "rights_kept u v \<longleftrightarrow> u_role v = u_role u \<and> (u_status v = u_status u \<or> u_status v = CLOSED)"

definition wallet_fixed :: "wallet \<Rightarrow> uuid \<times> uuid \<times> currency \<times> account_status \<times> instant" where
  "wallet_fixed x = (w_id x, w_userId x, w_currency x, w_status x, w_createdAt x)"

definition transaction_fixed :: "transaction \<Rightarrow> transaction" where
  "transaction_fixed t = t\<lparr>tx_status := INITIATED, tx_providerRef := None, tx_updatedAt := 0, settledAt := None\<rparr>"

definition event_fixed :: "outbox_event \<Rightarrow> outbox_event" where
  "event_fixed e = e\<lparr>deliveredAt := None, retryCount := 0\<rparr>"

text \<open>Everything but the database: the clock and the id supply advance, the audit trail grows.\<close>

definition advances :: "world \<Rightarrow> world \<Rightarrow> bool" where
  "advances w w' \<longleftrightarrow> clock w \<le> clock w' \<and> uuids w' = uuids w \<and> uuid_next w \<le> uuid_next w'
     \<and> prefix (audits w) (audits w')"

definition aside :: "world \<Rightarrow> world \<Rightarrow> bool" where
  "aside w w' \<longleftrightarrow> db w' = db w \<and> advances w w'"

inductive table_write :: "bool \<Rightarrow> world \<Rightarrow> world \<Rightarrow> bool" for admin where
  elsewhere: "aside w w' \<Longrightarrow> table_write admin w w'"
| user_created: "table_write admin w (snd (t_create users_t (new_user d) w))"
| wallet_created: "table_write admin w (snd (t_create wallets_t (new_wallet u) w))"
| token_created: "table_write admin w (snd (t_create refreshTokens_t (new_refreshToken u h x) w))"
| transaction_created: "table_write admin w (snd (t_create transactions_t (new_transaction inp s) w))"
| entry_created: "table_write admin w (snd (t_create ledgerEntries_t (new_ledgerEntry i l) w))"
| log_created: "table_write admin w (snd (t_create paymentLogs_t (new_paymentLog p cl) w))"
| event_created: "table_write admin w (snd (t_create outboxEvents_t (new_outboxEvent oi) w))"
| user_updated: "(\<And>u. account_kept u (f u)) \<Longrightarrow> (\<And>u. admin \<or> rights_kept u (f u)) \<Longrightarrow>
    table_write admin w (snd (t_update users_t (\<lambda>u. u_id u = i) f w))"
| wallet_updated: "(\<And>x. wallet_fixed (g x) = wallet_fixed x) \<Longrightarrow>
    table_write admin w (snd (t_update wallets_t (\<lambda>x. w_id x = i) g w))"
| transaction_updated: "(\<And>t. transaction_fixed (k t) = transaction_fixed t) \<Longrightarrow>
    table_write admin w (snd (t_update transactions_t (\<lambda>t. tx_id t = i) k w))"
| event_updated: "(\<And>e. event_fixed (m e) = event_fixed e) \<Longrightarrow>
    table_write admin w (snd (t_update outboxEvents_t (\<lambda>e. oe_id e = i) m w))"
| token_revoked: "table_write admin w (snd (t_update refreshTokens_t (\<lambda>r. tokenHash r = h \<and> revokedAt r = None)
    (\<lambda>r. r\<lparr>revokedAt := Some c\<rparr>) w))"
| tokens_revoked: "(\<And>r. P r \<Longrightarrow> revokedAt r = None) \<Longrightarrow>
    table_write admin w (snd (t_updateMany refreshTokens_t P (\<lambda>r. r\<lparr>revokedAt := Some c\<rparr>) w))"
| session_evicted: "r \<in> set (refreshTokens (db w)) \<Longrightarrow> revokedAt r = None \<Longrightarrow>
    table_write admin w (snd (t_update refreshTokens_t (\<lambda>x. rt_id x = rt_id r) (\<lambda>x. x\<lparr>revokedAt := Some c\<rparr>) w))"
| tokens_deleted: "table_write admin w (snd (delete_batch n w))"

definition writes :: "bool \<Rightarrow> world \<Rightarrow> world \<Rightarrow> bool" where
  "writes admin = (table_write admin)\<^sup>*\<^sup>*"

interpretation writes: effect_order "writes admin" for admin
  by unfold_locales (auto simp: writes_def)

lemma write_writes: "table_write admin w w' \<Longrightarrow> writes admin w w'"
  by (simp add: writes_def)

lemma aside_writes: "aside w w' \<Longrightarrow> writes admin w w'"
  by (rule write_writes) (rule table_write.elsewhere)

lemma writes_admin:
  assumes "writes False w w'"
  shows "writes admin w w'"
proof -
  have "table_write False u v \<Longrightarrow> table_write admin u v" for u v
    by (erule table_write.cases) (auto intro: table_write.intros)
  with assms show ?thesis unfolding writes_def by (metis mono_rtranclp)
qed

interpretation asides: effect_order aside
  by unfold_locales (auto simp: aside_def advances_def)

interpretation advancing: effect_order advances
  by unfold_locales (auto simp: advances_def)

section \<open>The shape of a table_write\<close>

lemma create_shape:
  "advances w (snd (t_create T mk w)) \<and> (db (snd (t_create T mk w)) = db w
   \<or> (\<exists>r. r = mk (uuids w (uuid_next w)) (clock w) \<and> t_fits T r \<and> t_refs T (db w) r
       \<and> db (snd (t_create T mk w)) = t_put T (t_get T (db w) @ [r]) (db w)))"
  by (auto simp: t_create_def Let_def advances_def split: option.splits)

lemma update_shape:
  "snd (t_update T P f w) = w
   \<or> (\<exists>r. find P (t_get T (db w)) = Some r \<and> t_fits T (t_touch T (clock w) (f r))
       \<and> snd (t_update T P f w) = w\<lparr>db := t_put T (map (\<lambda>x. if P x then t_touch T (clock w) (f x) else x) (t_get T (db w))) (db w)\<rparr>)"
  by (auto simp: t_update_def Let_def split: option.splits)

lemma update_advances: "advances w (snd (t_update T P f w))"
  using update_shape [of T P f w] by (auto simp: advances_def)

lemma write_advances: "table_write admin w w' \<Longrightarrow> advances w w'"
proof (induction rule: table_write.induct)
  case (elsewhere w w')
  then show ?case by (simp add: aside_def)
next
  case (tokens_revoked P w c)
  then show ?case by (simp add: t_updateMany_def advances_def)
next
  case (tokens_deleted w n)
  then show ?case by (simp add: delete_batch_def advances_def)
qed (simp_all add: create_shape update_advances)

lemma writes_advances: "writes admin w w' \<Longrightarrow> advances w w'"
  unfolding writes_def
  by (induction rule: rtranclp_induct) (auto intro: advancing.R_refl advancing.R_trans write_advances)

section \<open>Primitives as writes\<close>

lemma within_write: "(\<And>w. table_write admin w (snd (m w))) \<Longrightarrow> within (writes admin) m"
  by (rule within_returnsD) (rule write_writes)

lemma within_aside: "within aside m \<Longrightarrow> within (writes admin) m"
  by (erule within_weaken) (rule aside_writes)

lemmas created_writes =
  within_write [OF table_write.user_created] within_write [OF table_write.wallet_created]
  within_write [OF table_write.token_created] within_write [OF table_write.transaction_created]
  within_write [OF table_write.entry_created] within_write [OF table_write.log_created]
  within_write [OF table_write.event_created]

lemma updated_writes:
  "(\<And>u. account_kept u (f u)) \<Longrightarrow> (\<And>u. admin \<or> rights_kept u (f u)) \<Longrightarrow>
     within (writes admin) (t_update users_t (\<lambda>u. u_id u = i) f)"
  "(\<And>x. wallet_fixed (g x) = wallet_fixed x) \<Longrightarrow> within (writes admin) (t_update wallets_t (\<lambda>x. w_id x = i) g)"
  "(\<And>t. transaction_fixed (k t) = transaction_fixed t) \<Longrightarrow>
     within (writes admin) (t_update transactions_t (\<lambda>t. tx_id t = i) k)"
  "(\<And>e. event_fixed (m e) = event_fixed e) \<Longrightarrow> within (writes admin) (t_update outboxEvents_t (\<lambda>e. oe_id e = i) m)"
  by (rule within_write, rule table_write.intros, simp_all)+

lemma revoked_writes:
  "within (writes admin) (t_update refreshTokens_t (\<lambda>r. tokenHash r = h \<and> revokedAt r = None)
     (\<lambda>r. r\<lparr>revokedAt := Some c\<rparr>))"
  "within (writes admin) (t_updateMany refreshTokens_t (\<lambda>r. tokenHash r = h \<and> revokedAt r = None)
     (\<lambda>r. r\<lparr>revokedAt := Some c\<rparr>))"
  "within (writes admin) (t_updateMany refreshTokens_t (\<lambda>r. rt_userId r = u \<and> revokedAt r = None)
     (\<lambda>r. r\<lparr>revokedAt := Some c\<rparr>))"
  by (rule within_write, rule table_write.intros, simp?)+

lemma read_aside:
  "within aside (t_find T P)" "within aside (t_filter T P)" "within aside (t_count T P)" "within aside now"
  by (simp_all add: t_find_def t_filter_def t_count_def now_def asides.within_getP)

lemma audit_aside:
  "within aside (audit_log ev m)" "within aside (audit_warn ev m)" "within aside (audit_error ev m)"
  by (auto intro!: within_wpI simp: wp_simps aside_def advances_def)

lemma redis_aside: "within aside (redis_call f)"
  by (rule within_wpI) (simp add: wp_simps aside_def advances_def)

lemma random_aside: "within aside random_string" "within aside (randomBytes n)"
proof -
  show s: "within aside random_string"
    by (rule within_wpI) (simp add: random_string_def wp_def aside_def advances_def)
  show "within aside (randomBytes n)"
    unfolding randomBytes_def by (intro asides.within_intros s)
qed

lemma gateway_aside: "within aside (call_gateway n f b)" "within aside (from_sum r)"
  by (rule within_wpI; simp add: wp_simps aside_def advances_def split: sum.splits)+

lemma local_aside:
  "within aside (modP (\<lambda>w. w\<lparr>ctx := c w\<rparr>))" "within aside (modP (\<lambda>w. w\<lparr>paypalToken := p w\<rparr>))"
  by (rule within_wpI; simp add: wp_modP aside_def advances_def)+

lemma parse_aside:
  "within aside (resolveHashSecret env)" "within aside (parseExpiry s)" "within aside (resolveKey env)"
  unfolding resolveHashSecret_def parseExpiry_def resolveKey_def
  by (auto intro: asides.within_intros split: option.splits)

lemmas aside_intros = asides.within_intros read_aside audit_aside redis_aside random_aside gateway_aside
  local_aside parse_aside

lemmas aside_primitives = read_aside audit_aside redis_aside random_aside gateway_aside local_aside parse_aside

text \<open>A transaction that rolls back has only advanced.\<close>

lemma within_writes_transaction:
  assumes "within (writes admin) m"
  shows "within (writes admin) (withTransaction m)"
  using assms by (rule within_withTransaction)
    (auto intro!: aside_writes dest: writes_advances simp: aside_def advances_def)

lemmas write_intros = writes.within_intros within_writes_transaction created_writes updated_writes
  revoked_writes aside_primitives [THEN within_aside]

lemmas kept_defs = account_kept_def rights_kept_def wallet_fixed_def transaction_fixed_def event_fixed_def

text \<open>The case distinctions of the code.\<close>

lemma within_case_list: "within R m \<Longrightarrow> (\<And>y ys. within R (f y ys)) \<Longrightarrow>
    within R (case xs of [] \<Rightarrow> m | y # ys \<Rightarrow> f y ys)"
  by (cases xs) simp_all

lemma within_case_pair: "(\<And>x y. within R (f x y)) \<Longrightarrow> within R (case p of (x, y) \<Rightarrow> f x y)"
  by (cases p) simp

lemma within_case_sum: "(\<And>x. within R (f x)) \<Longrightarrow> (\<And>y. within R (g y)) \<Longrightarrow>
    within R (case s of Inl x \<Rightarrow> f x | Inr y \<Rightarrow> g y)"
  by (cases s) simp_all

lemmas case_intros = within_case_list within_case_pair within_case_sum

section \<open>The money services\<close>

lemma lookup_writes:
  "within (writes admin) (findByUserId u)" "within (writes admin) (find_user u)"
  "within (writes admin) (users_findById u)" "within (writes admin) (findByIdWithPassword u)"
  "within (writes admin) (findByIdempotencyKey key)" "within (writes admin) (findTransactionById i)"
  "within (writes admin) (findPaymentInternalById u)" "within (writes admin) (connect_findById u)"
  "within (writes admin) (findUserById_payment u)" "within (writes admin) (lockWallet i)"
  unfolding users_findById_def findByIdWithPassword_def findByUserId_def find_user_def
    findByIdempotencyKey_def findTransactionById_def findPaymentInternalById_def connect_findById_def
    findUserById_payment_def lockWallet_def new_Decimal_ret
  by (intro write_intros case_intros)+

lemma guard_writes:
  "within (writes admin) (assertActive x)" "within (writes admin) (assertCurrencyMatch x c)"
  "within (writes admin) (assertSufficientBalance a n u)" "within (writes admin) (idempotent_replay u key t)"
  unfolding assertActive_def assertCurrencyMatch_def assertSufficientBalance_def decimal_toString_def idempotent_replay_def
  by (intro write_intros)+

lemma balance_writes:
  "within (writes admin) (creditAvailable i a)" "within (writes admin) (debitAvailableAndLock i a)"
  "within (writes admin) (creditPending i a)" "within (writes admin) (settlePending i a)"
  "within (writes admin) (Wallet_Repo.settleWithdrawal i a)" "within (writes admin) (debitAvailable i a)"
  unfolding creditAvailable_def debitAvailableAndLock_def creditPending_def settlePending_def
    Wallet_Repo.settleWithdrawal_def debitAvailable_def
  by (intro write_intros; simp add: kept_defs)+

lemma record_writes:
  "within (writes admin) (transaction_create inp s)" "within (writes admin) (ledgerEntry_create l)"
  "within (writes admin) (outboxEvent_create oi)" "within (writes admin) (createPaymentLog cl)"
  "within (writes admin) (markDelivered i)" "within (writes admin) (incrementRetry i)"
  "within (writes admin) (setProviderRef i ref)"
  unfolding transaction_create_def ledgerEntry_create_def outboxEvent_create_def createPaymentLog_def
    markDelivered_def incrementRetry_def setProviderRef_def
  by (intro write_intros; simp add: kept_defs)+

lemma flow_writes:
  "within (writes admin) (initiateDeposit inp a p)" "within (writes admin) (initiateWithdrawal inp a p)"
  "within (writes admin) (executeTransfer inp a b p)"
  unfolding initiateDeposit_def initiateWithdrawal_def executeTransfer_def
  by (intro write_intros record_writes)+

lemmas money_intros = write_intros lookup_writes guard_writes balance_writes record_writes flow_writes

lemma block_writes:
  "within (writes admin) (deposit_block u d)" "within (writes admin) (withdraw_block u d)"
  "within (writes admin) (transfer_block u td x y)"
  "within (writes admin) (confirmDeposit_block u cd)" "within (writes admin) (createPayout_block u cp)"
  unfolding deposit_block_def withdraw_block_def transfer_block_def confirmDeposit_block_def decimal_toString_def
    createPayout_block_def resolveStripeConnectAccount_def resolvePaypalEmail_def case_prod_beta Let_def
  by (intro money_intros)+

lemma money_writes:
  "within (writes admin) (deposit u d)" "within (writes admin) (withdraw u d)"
  "within (writes admin) (transfer u td)"
  "within (writes admin) (confirmDeposit_service u cd)" "within (writes admin) (createPayout_service u cp)"
  unfolding deposit_def withdraw_def transfer_def confirmDeposit_service_def createPayout_service_def
  by (intro money_intros block_writes)+

section \<open>The payment processor\<close>

text \<open>Adapters talk to their gateways and keep a token; they write no table.\<close>

definition adapters_confined :: "registry \<Rightarrow> bool" where
  "adapters_confined reg \<longleftrightarrow> (\<forall>p a. reg p = Some a \<longrightarrow>
     (\<forall>x. within aside (createDepositIntent a x)) \<and> (\<forall>x ty. within aside (process a x ty)))"

lemma stripe_confined:
  "within aside (stripe_createDepositIntent api to_cents p)" "within aside (stripe_process api to_cents p ty)"
  unfolding stripe_createDepositIntent_def stripe_process_def stripe_confirmDeposit_def stripe_createPayout_def
  by (intro aside_intros)+

lemma paypal_confined:
  "within aside (paypal_createDepositIntent bt p)" "within aside (paypal_process bt oauth payouts cfg p ty)"
  unfolding paypal_createDepositIntent_def paypal_process_def paypal_confirmDeposit_def paypal_createPayout_def
    getAccessToken_def fetchAndCacheToken_def Let_def
  by (intro aside_intros case_intros)+

lemma payment_registry_confined:
  "adapters_confined (payment_registry (StripeProvider api to_cents) (PaypalProvider bt oauth payouts cfg))"
  using stripe_confined paypal_confined
  by (auto simp: adapters_confined_def payment_registry_def StripeProvider_def PaypalProvider_def split: provider.splits)

lemma customer_writes: "within (writes admin) (persistCustomerId c r)"
proof -
  have "within (writes admin) (upsertBraintreeCustomerId u x)" for u x
    unfolding upsertBraintreeCustomerId_def by (intro write_intros lookup_writes; simp add: kept_defs)
  then show ?thesis
    by (auto simp: persistCustomerId_def split: option.splits json.splits intro!: write_intros)
qed

lemma path_writes:
  "within (writes admin) (settleDeposit_path c i r)" "within (writes admin) (settleWithdrawal_path c i r)"
  "within (writes admin) (failDeposit_path c i r)" "within (writes admin) (failWithdrawal_path c i r)"
  unfolding settleDeposit_path_def settleWithdrawal_path_def failDeposit_path_def failWithdrawal_path_def
    required_def stampProviderRef_def
  by (intro money_intros customer_writes; simp add: kept_defs)+

lemma dispatch_writes: "within (writes admin) (dispatch c i r)"
  unfolding dispatch_def settle_def fail_def by (intro money_intros path_writes)

lemma call_provider_writes:
  assumes "adapters_confined reg"
  shows "within (writes admin) (call_provider reg e u p t)"
proof (cases "reg p")
  case None
  then show ?thesis
    by (simp add: call_provider_def resolve_def within_def bindP_def throw_def writes.R_refl)
next
  case (Some a)
  with assms have "within (writes admin) (process a x ty)" for x ty
    by (simp add: adapters_confined_def within_aside)
  then have "within (writes admin) (bindP (process a x ty) (dispatch c i))" for x ty c i
    by (intro write_intros dispatch_writes)
  then show ?thesis by (simp add: call_provider_def resolve_def Some within_def bindP_def ret_def Let_def)
qed

lemma processOutbox_writes:
  assumes "adapters_confined reg"
  shows "within (writes admin) (processOutbox reg)"
proof -
  have "within (writes admin) (processEvent_body reg e)" for e
    unfolding processEvent_body_def using call_provider_writes [OF assms]
    by (auto intro!: money_intros split: option.splits json.splits)
  then show ?thesis
    unfolding processOutbox_def processBatch_def findPendingProviderEvents_def processEvent_def redis_ops
    by (intro money_intros)
qed

section \<open>Sessions and accounts\<close>

lemma token_writes:
  "within (writes admin) (hashToken env t)" "within (writes admin) (getRefreshExpiry env)"
  "within (writes admin) (getAccessTokenTtlSeconds env)" "within (writes admin) (generateTokenPair env u m r)"
  "within (writes admin) (hash_password env p)" "within (writes admin) (encrypt env x)"
  "within (writes admin) (decrypt env y)"
  unfolding hashToken_def getRefreshExpiry_def getAccessTokenTtlSeconds_def generateTokenPair_def
    generateAccessToken_def generateRefreshToken_def hash_password_def encrypt_def decrypt_def
  by (intro write_intros case_intros | simp add: case_prod_beta)+

lemma cache_writes:
  "within (writes admin) (denylist_revoke j n)" "within (writes admin) (isRevoked j)"
  "within (writes admin) (storeRotationCache env h t)" "within (writes admin) (getRotationCache env h)"
  "within (writes admin) (clearRotationCache h)"
  unfolding denylist_revoke_def isRevoked_def storeRotationCache_def getRotationCache_def
    clearRotationCache_def denylist_failure_def redis_ops Let_def
  by (intro write_intros token_writes)+

text \<open>The evicted session was active when its row was read.\<close>

lemma evict_writes: "within (writes admin) (evict_oldest u date)"
proof (rule within_returnsD)
  fix w :: world
  let ?rows = "filter (active_session u date) (refreshTokens (db w))"
  show "writes admin w (snd (evict_oldest u date w))"
  proof (cases "oldest_session ?rows")
    case None
    then show ?thesis
      by (simp add: evict_oldest_def bindP_def t_filter_def getP_def refreshTokens_t_def ret_def writes.R_refl)
  next
    case (Some r)
    then have "r \<in> set ?rows" by (metis oldest_session_def list.case_eq_if list.set_sel(1) option.distinct(1) option.inject set_sort)
    then have r: "r \<in> set (refreshTokens (db w))" "revokedAt r = None" by (auto simp: active_session_def)
    have "snd (evict_oldest u date w) = snd (t_update refreshTokens_t (\<lambda>x. rt_id x = rt_id r) (\<lambda>x. x\<lparr>revokedAt := Some date\<rparr>) w)"
      using Some by (simp add: evict_oldest_def bindP_def thenP_def t_filter_def getP_def refreshTokens_t_def ret_def
        split: sum.splits prod.splits)
    with table_write.session_evicted [OF r] show ?thesis by (simp add: write_writes)
  qed
qed

lemma session_writes:
  "within (writes admin) (revokeActive u)"
  "within (writes admin) (findTokenWithGrace h)" "within (writes admin) (persistRefreshToken env u t a)"
  "within (writes admin) (rotateToken env h u h' x tp)" "within (writes admin) (revokeAccessToken env j)"
  "within (writes admin) (revokeToken h)" "within (writes admin) (revokeAllTokens u)"
  unfolding findTokenWithGrace_def findRefreshTokenWithGrace_def persistRefreshToken_def revokeActive_def
    createSessionAtomic_def rotateToken_def rotateRefreshToken_def
    revokeAccessToken_def revokeToken_def revokeRefreshToken_def revokeAllTokens_def revokeAllUserTokens_def
    case_prod_beta
  by (intro write_intros token_writes cache_writes evict_writes)+

lemmas session_intros = write_intros lookup_writes token_writes cache_writes session_writes

lemma auth_writes:
  "within (writes admin) (login env dto ua)" "within (writes admin) (refresh env raw ua)"
  "within (writes admin) (logout env raw u j ua)" "within (writes admin) (logoutAll env u j ua)"
  "within (writes admin) (validate p)"
  unfolding login_def refresh_def refresh_reuse_def refresh_grace_def refresh_active_def logout_def
    logout_own_def logoutAll_def validate_def findByEmail_def auth_findById_def Let_def
  by (intro session_intros | split token_state.split; intro allI impI conjI)+

lemma register_writes: "within (writes admin) (register env rdto ua)"
  unfolding register_def createUserWithWallet_def create_user_block_def
  by (intro session_intros | split exn.split; intro allI impI conjI)+

lemma account_writes:
  "within (writes admin) (updateProfile u pd)" "within (writes admin) (changePassword env u j cp)"
  "within (writes admin) (closeAccount env u j)"
proof -
  show "within (writes admin) (updateProfile u pd)"
    unfolding updateProfile_def updateProfile_repo_def
    by (intro session_intros | (split exn.split; intro allI impI conjI) | simp add: kept_defs)+
  show "within (writes admin) (changePassword env u j cp)"
    unfolding changePassword_def updatePasswordAndRevokeSessions_def case_prod_beta
    by (intro session_intros | simp add: kept_defs)+
  show "within (writes admin) (closeAccount env u j)"
    unfolding closeAccount_def closeAccount_defs
    by (intro session_intros | simp add: kept_defs)+
qed

lemma admin_writes: "within (writes True) (updateUserStatus a u ad)"
  unfolding updateUserStatus_def closeAccount_defs updateStatusOrRole_def
  by (intro session_intros | simp add: kept_defs)+

section \<open>Requests and jobs\<close>

lemma connect_writes:
  "within (writes admin) (createConnectAccount api cfg u m)" "within (writes admin) (getAccountStatus api u)"
  "within (writes admin) (refreshOnboardingLink api cfg u)"
  unfolding createConnectAccount_def getAccountStatus_def refreshOnboardingLink_def createAndPersistAccount_def
    generateOnboardingLink_def createAccount_def retrieveAccount_def createAccountLink_def setConnectAccountId_def
  by (intro money_intros case_intros | simp add: kept_defs)+

lemma webhook_writes: "within (writes admin) (handleWebhook api cfg body sig)"
proof -
  have "within (writes admin) (route ev)" for ev
    unfolding route_def handleAccountUpdated_def handleAccountDeauthorized_def handleCapabilityUpdated_def
      findByConnectAccountId_def clearConnectAccountId_def Let_def
    by (intro money_intros case_intros | (split json.split; intro allI impI conjI) | simp add: kept_defs)+
  then show ?thesis unfolding handleWebhook_def by (intro money_intros case_intros)
qed

lemma intent_writes:
  assumes "adapters_confined reg"
  shows "within (writes admin) (createDepositIntent_service reg u dto)"
proof -
  have call: "within (writes admin) (bindP (resolve reg p) (\<lambda>a. bindP m (\<lambda>c. createDepositIntent a (f c))))"
    if "within (writes admin) m" for p f and m :: "(world, string option) prog"
  proof (cases "reg p")
    case None
    then show ?thesis by (simp add: resolve_def within_def bindP_def throw_def writes.R_refl)
  next
    case (Some a)
    with assms have "within (writes admin) (createDepositIntent a x)" for x
      by (simp add: adapters_confined_def within_aside)
    then have "within (writes admin) (bindP m (\<lambda>c. createDepositIntent a (f c)))"
      using that by (intro write_intros)
    then show ?thesis by (simp add: resolve_def within_def bindP_def ret_def Some)
  qed
  show ?thesis
    unfolding createDepositIntent_service_def
    by (rule call | rule money_intros)+
qed

lemma read_writes:
  "within (writes admin) (getMe u)" "within (writes admin) (getUserById u)" "within (writes admin) (listUsers uq)"
  "within (writes admin) (getTransactionHistory u tq)" "within (writes admin) (getTransaction u i)"
  "within (writes admin) (health_check up)"
  unfolding getMe_def getUserById_def listUsers_def users_findAll_def getTransactionHistory_def
    findByWalletPaginated_def getTransaction_def health_check_def redis_ping_def case_prod_beta Let_def
  by (intro money_intros)+

lemma listing_writes:
  "within (writes admin) (getMyWallet u)" "within (writes admin) (getMyLedger other u lq)"
  "within (writes admin) (listWallets other aw)" "within (writes admin) (getWalletById i)"
  "within (writes admin) (getWalletLedger other i lq)"
proof -
  have cursor: "within (writes admin) (cursor_param other c)" for c
  proof -
    have "within (writes admin) (decodeCursor other raw)" for raw
      by (simp add: within_def decodeCursor_pure writes.R_refl)
    then show ?thesis unfolding cursor_param_def by (intro write_intros)
  qed
  have keyset: "within (writes admin) (keyset_query other key c n rows)" for key c n and rows :: "'r list"
    unfolding keyset_query_def by (intro write_intros)
  have ledger: "within (writes admin) (fetchLedgerPage other i lq)" for i lq
    unfolding fetchLedgerPage_def findLedgerPage_def case_prod_beta by (intro write_intros cursor keyset)
  show "within (writes admin) (getMyWallet u)" "within (writes admin) (getMyLedger other u lq)"
    "within (writes admin) (listWallets other aw)" "within (writes admin) (getWalletById i)"
    "within (writes admin) (getWalletLedger other i lq)"
    unfolding getMyWallet_def getMyLedger_def listWallets_def getWalletById_def getWalletLedger_def
      wallet_findAll_def findById_def case_prod_beta
    by (intro money_intros cursor keyset ledger)+
qed

text \<open>The one call that may change a role or reopen an account.\<close>

fun is_grant :: "call \<Rightarrow> bool" where
  "is_grant (Users (updateUserStatus_call _ _)) = True"
| "is_grant _ = False"

lemmas invoked_writes = register_writes auth_writes account_writes admin_writes money_writes connect_writes
  webhook_writes read_writes listing_writes

lemma wrapped_writes:
  "within (writes admin) m \<Longrightarrow> within (writes admin) (giving m f)"
  "(\<And>u. within (writes admin) (k u)) \<Longrightarrow> within (writes admin) (with_user user k)"
  unfolding giving_def with_user_def by (intro write_intros; simp)+

lemma context_writes:
  assumes "within (writes admin) m"
  shows "within (writes admin) (RequestContextInterceptor h m)"
  unfolding RequestContextInterceptor_def by (intro write_intros assms)

lemma invoke_writes:
  assumes "adapters_confined (app_registry app)"
  shows "within (writes (is_grant c)) (invoke app user ua c)"
proof (cases c rule: route_cases)
  case (1 x)
  show ?thesis unfolding 1 by (cases x) (simp_all add: wrapped_writes invoked_writes)
next
  case (2 x)
  show ?thesis unfolding 2 by (cases x) (simp_all add: wrapped_writes invoked_writes)
next
  case (3 x)
  show ?thesis unfolding 3 by (cases x) (simp_all add: wrapped_writes invoked_writes)
next
  case (4 x)
  show ?thesis unfolding 4 by (cases x) (simp_all add: wrapped_writes invoked_writes)
next
  case (5 x)
  show ?thesis unfolding 5 by (cases x) (simp_all add: wrapped_writes invoked_writes intent_writes [OF assms])
next
  case (6 x)
  show ?thesis unfolding 6 by (cases x) (simp_all add: wrapped_writes invoked_writes writes.within_ret)
next
  case (7 b s)
  show ?thesis unfolding 7 by (simp add: wrapped_writes invoked_writes)
next
  case (8 u)
  show ?thesis unfolding 8 by (simp add: wrapped_writes invoked_writes)
qed

lemma handled_writes:
  assumes "adapters_confined (app_registry app)"
  shows "writes (is_grant (rq_call rq)) w (snd (handled app rq user w))"
proof -
  let ?m = "case rq_refused rq of
      Some t \<Rightarrow> ret (Inl t)
    | None \<Rightarrow> bindP (ResponseInterceptor (invoke app user (hq_user_agent (rq_http rq)) (rq_call rq))) (\<lambda>r. ret (Inr r))"
  have "within (writes (is_grant (rq_call rq))) ?m"
    unfolding ResponseInterceptor_def by (intro write_intros invoke_writes [OF assms])
  from context_writes [OF this] show ?thesis
    by (auto simp: handled_def dest: withinD split: prod.splits sum.splits)
qed

text \<open>A request that may grant rights has been admitted; any other only makes plain writes.\<close>

definition grants :: "world \<Rightarrow> activity \<Rightarrow> bool" where
  "grants w a = (case a of Serve rq \<Rightarrow> is_grant (rq_call rq) \<and> admitted rq w | _ \<Rightarrow> False)"

lemma jwt_writes: "within (writes admin) (JwtAuthGuard b v)"
  unfolding JwtAuthGuard_def by (intro write_intros auth_writes)

lemma serve_writes:
  assumes "adapters_confined (app_registry app)"
  shows "writes (is_grant (rq_call rq)) w (snd (serve app rq w))"
proof (cases "rq_throttled rq")
  case (Some e)
  then show ?thesis by (simp add: serve_def writes.R_refl)
next
  case None
  obtain r v where run: "JwtAuthGuard (ro_public (route_of (rq_call rq))) (rq_verified rq) w = (r, v)" by fastforce
  have "writes (is_grant (rq_call rq)) w v" using withinD [OF jwt_writes run] .
  then show ?thesis
    using writes.R_trans handled_writes [OF assms] by (auto simp: serve_def None run split: sum.splits)
qed

lemma serve_granting:
  assumes "adapters_confined (app_registry app)"
  shows "writes (grants w (Serve rq)) w (snd (serve app rq w))"
proof (cases "admitted rq w")
  case True
  with serve_writes [OF assms] show ?thesis by (simp add: grants_def)
next
  case False
  then have "db (snd (serve app rq w)) = db w" using serve_outcome by (simp add: rejected_def)
  moreover have "advances w (snd (serve app rq w))" by (rule writes_advances [OF serve_writes [OF assms]])
  ultimately show ?thesis by (simp add: aside_writes aside_def)
qed

lemma cleanup_loop_writes:
  assumes "cleanup_loop n d w = Some r"
  shows "writes admin w (snd r)"
proof (rule cleanup_loop.raw_induct [OF _ assms])
  fix loop n d w r
  assume IH: "\<And>n d w r. loop n d w = Some r \<Longrightarrow> writes admin w (snd r)"
    and body: "(let (result, w') = delete_batch n w; deleted' = d + result
      in if result < n then Some (deleted', w')
         else loop n deleted' (w'\<lparr>clock := clock w' + CLEANUP_BATCH_DELAY_MS\<rparr>)) = Some r"
  obtain k v where b: "delete_batch n w = (k, v)" by fastforce
  let ?v = "v\<lparr>clock := clock v + CLEANUP_BATCH_DELAY_MS\<rparr>"
  have v: "writes admin w v" using table_write.tokens_deleted [of admin w n] b by (simp add: write_writes)
  have "writes admin v (snd r)"
  proof (cases "k < n")
    case True
    with body b show ?thesis by (auto simp: Let_def writes.R_refl)
  next
    case False
    with body b have "loop n (d + k) ?v = Some r" by (simp add: Let_def)
    then have "writes admin ?v (snd r)" by (rule IH)
    moreover have "writes admin v ?v"
      by (rule aside_writes) (simp add: aside_def advances_def CLEANUP_BATCH_DELAY_MS_def)
    ultimately show ?thesis using writes.R_trans by blast
  qed
  with v show "writes admin w (snd r)" by (rule writes.R_trans)
qed

lemma cleanup_writes:
  assumes "cleanupExpiredTokens n w = Some r"
  shows "writes admin w (snd r)"
proof -
  have set: "within (writes admin) (redis_set_nx k v t)" and del: "within (writes admin) (redis_del k)" for k v t
    unfolding redis_ops by (intro write_intros)+
  obtain q v where q: "redis_set_nx CLEANUP_LOCK_KEY ''1'' CLEANUP_LOCK_TTL_SECONDS w = (q, v)" by fastforce
  have w: "writes admin w v" by (rule withinD [OF set q])
  show ?thesis
  proof (cases "q = Inr True")
    case True
    with assms q obtain d u where l: "cleanup_loop n 0 v = Some (d, u)" and r: "r = redis_del CLEANUP_LOCK_KEY u"
      by (auto simp: cleanupExpiredTokens_def deleteAllExpiredTokens_def)
    have "writes admin u (snd r)" using del by (simp add: r within_def)
    have "writes admin v u" using cleanup_loop_writes [OF l] by simp
    with w have "writes admin w u" by (rule writes.R_trans)
    then show ?thesis by (rule writes.R_trans) fact
  next
    case False
    with assms q w show ?thesis by (auto simp: cleanupExpiredTokens_def split: sum.splits)
  qed
qed

lemma occur_writes:
  assumes "adapters_confined (app_registry app)"
  shows "writes (grants w a) w (occur app a w)"
proof (cases a)
  case (Serve rq)
  with serve_granting [OF assms] show ?thesis by simp
next
  case Process
  with processOutbox_writes [OF assms] show ?thesis by (simp add: within_def)
next
  case Cleanup
  then show ?thesis using cleanup_writes by (auto intro: writes.R_refl split: option.splits)
next
  case (Wait ms)
  then show ?thesis by (auto intro!: aside_writes simp: aside_def advances_def)
qed

text \<open>No activity of the run is an admitted grant.\<close>

fun unprivileged :: "app \<Rightarrow> activity list \<Rightarrow> world \<Rightarrow> bool" where
  "unprivileged app [] w = True"
| "unprivileged app (a # acts) w = (\<not> grants w a \<and> unprivileged app acts (occur app a w))"

lemma happen_Cons: "happen app (a # acts) w = happen app acts (occur app a w)"
  by (simp add: happen_def)

lemma happen_writes:
  assumes "adapters_confined (app_registry app)"
  shows "writes (\<not> unprivileged app acts w) w (happen app acts w)"
proof (induction acts arbitrary: w)
  case Nil
  then show ?case by (simp add: happen_def writes.R_refl)
next
  case (Cons a acts)
  let ?b = "\<not> unprivileged app (a # acts) w"
  have "writes ?b w (occur app a w)"
    using occur_writes [OF assms, of w a] by (cases "grants w a") (simp_all add: writes_admin)
  moreover have "writes ?b (occur app a w) (happen app acts (occur app a w))"
    using Cons.IH [of "occur app a w"] by (cases "unprivileged app acts (occur app a w)") (simp_all add: writes_admin)
  ultimately show ?case by (simp only: happen_Cons writes.R_trans)
qed

end
