(* ===== verification/Guarantees.thy ===== *)
theory Guarantees
  imports Writes
begin

text \<open>
  What holds of the running service because all its writes keep it: the constraints of the
  schema, the records that are only appended to, the rights of the users, and the refresh
  tokens that were revoked. Each is an invariant of \<open>table_write\<close>, carried to \<open>happen\<close> by
  \<open>happen_writes\<close>.
\<close>

section \<open>The constraints of the schema\<close>

text \<open>Unique columns, decimals in range, and foreign keys that lead somewhere.\<close>

definition table_ok :: "'r table \<Rightarrow> db \<Rightarrow> bool" where
  "table_ok T d \<longleftrightarrow> unique_rows T d \<and> (\<forall>r \<in> set (t_get T d). t_fits T r \<and> t_refs T d r)"

definition tables_ok :: "db \<Rightarrow> bool" where
  "tables_ok d \<longleftrightarrow> table_ok users_t d \<and> table_ok refreshTokens_t d \<and> table_ok wallets_t d
     \<and> table_ok transactions_t d \<and> table_ok ledgerEntries_t d \<and> table_ok paymentLogs_t d
     \<and> table_ok outboxEvents_t d"

text \<open>
  The same as \<open>prisma/schema.prisma\<close> states it, column by column: every \<open>@id\<close> and \<open>@unique\<close>,
  every \<open>@relation\<close>, and the range of every \<open>Decimal(18, 4)\<close>.
\<close>

definition schema_ok :: "db \<Rightarrow> bool" where
  "schema_ok d \<longleftrightarrow>
     distinct (map u_id (users d)) \<and> distinct (map u_email (users d)) \<and> distinct (map u_phone (users d))
   \<and> unique_col braintreeCustomerId (users d) \<and> unique_col stripeConnectAccountId (users d)
   \<and> unique_col paypalEmail (users d)
   \<and> distinct (map rt_id (refreshTokens d)) \<and> distinct (map tokenHash (refreshTokens d))
   \<and> (\<forall>r \<in> set (refreshTokens d). has_user d (rt_userId r))
   \<and> distinct (map w_id (wallets d)) \<and> distinct (map w_userId (wallets d))
   \<and> (\<forall>x \<in> set (wallets d). has_user d (w_userId x) \<and> decimal_fits (availableBalance x)
        \<and> decimal_fits (lockedBalance x) \<and> decimal_fits (pendingBalance x))
   \<and> distinct (map tx_id (transactions d)) \<and> distinct (map idempotencyKey (transactions d))
   \<and> (\<forall>t \<in> set (transactions d). decimal_fits (tx_amount t)
        \<and> (senderWalletId t = None \<or> has_wallet d (the (senderWalletId t)))
        \<and> (receiverWalletId t = None \<or> has_wallet d (the (receiverWalletId t))))
   \<and> distinct (map le_id (ledgerEntries d))
   \<and> (\<forall>e \<in> set (ledgerEntries d). has_wallet d (le_walletId e) \<and> has_transaction d (le_transactionId e)
        \<and> decimal_fits (le_amount e) \<and> decimal_fits (balanceAfter e))
   \<and> distinct (map pl_id (paymentLogs d)) \<and> distinct (map pl_transactionId (paymentLogs d))
   \<and> (\<forall>p \<in> set (paymentLogs d). has_transaction d (pl_transactionId p))
   \<and> distinct (map oe_id (outboxEvents d))
   \<and> (\<forall>e \<in> set (outboxEvents d). has_transaction d (oe_transactionId e))"

lemma unique_col_Some: "unique_col (Some \<circ> k) rows = distinct (map k rows)"
  by (simp add: unique_col_def distinct_map inj_on_def)

lemma optional_ref: "(case i of None \<Rightarrow> True | Some j \<Rightarrow> has_wallet d j) \<longleftrightarrow> i = None \<or> has_wallet d (the i)"
  by (cases i) simp_all

lemma table_spelled:
  "table_ok users_t d \<longleftrightarrow> distinct (map u_id (users d)) \<and> distinct (map u_email (users d)) \<and> distinct (map u_phone (users d))
     \<and> unique_col braintreeCustomerId (users d) \<and> unique_col stripeConnectAccountId (users d) \<and> unique_col paypalEmail (users d)"
  "table_ok refreshTokens_t d \<longleftrightarrow> distinct (map rt_id (refreshTokens d)) \<and> distinct (map tokenHash (refreshTokens d))
     \<and> (\<forall>r \<in> set (refreshTokens d). has_user d (rt_userId r))"
  "table_ok wallets_t d \<longleftrightarrow> distinct (map w_id (wallets d)) \<and> distinct (map w_userId (wallets d))
     \<and> (\<forall>x \<in> set (wallets d). has_user d (w_userId x) \<and> decimal_fits (availableBalance x)
          \<and> decimal_fits (lockedBalance x) \<and> decimal_fits (pendingBalance x))"
  "table_ok transactions_t d \<longleftrightarrow> distinct (map tx_id (transactions d)) \<and> distinct (map idempotencyKey (transactions d))
     \<and> (\<forall>t \<in> set (transactions d). decimal_fits (tx_amount t)
          \<and> (senderWalletId t = None \<or> has_wallet d (the (senderWalletId t)))
          \<and> (receiverWalletId t = None \<or> has_wallet d (the (receiverWalletId t))))"
  "table_ok ledgerEntries_t d \<longleftrightarrow> distinct (map le_id (ledgerEntries d))
     \<and> (\<forall>e \<in> set (ledgerEntries d). has_wallet d (le_walletId e) \<and> has_transaction d (le_transactionId e)
          \<and> decimal_fits (le_amount e) \<and> decimal_fits (balanceAfter e))"
  "table_ok paymentLogs_t d \<longleftrightarrow> distinct (map pl_id (paymentLogs d)) \<and> distinct (map pl_transactionId (paymentLogs d))
     \<and> (\<forall>p \<in> set (paymentLogs d). has_transaction d (pl_transactionId p))"
  "table_ok outboxEvents_t d \<longleftrightarrow> distinct (map oe_id (outboxEvents d))
     \<and> (\<forall>e \<in> set (outboxEvents d). has_transaction d (oe_transactionId e))"
  unfolding table_ok_def unique_rows_def
  by (auto simp: users_t_def refreshTokens_t_def wallets_t_def transactions_t_def ledgerEntries_t_def
    paymentLogs_t_def outboxEvents_t_def unique_col_Some optional_ref)

lemma schema_tables: "schema_ok d \<longleftrightarrow> tables_ok d"
  unfolding schema_ok_def tables_ok_def table_spelled by (simp only: conj_assoc)

definition ids_grow :: "db \<Rightarrow> db \<Rightarrow> bool" where
  "ids_grow d d' \<longleftrightarrow> (\<forall>i. (has_user d i \<longrightarrow> has_user d' i) \<and> (has_wallet d i \<longrightarrow> has_wallet d' i)
     \<and> (has_transaction d i \<longrightarrow> has_transaction d' i))"

text \<open>
  References of a table lead to other tables, and stay good while those only gain ids.
\<close>

locale referencing_table = table_laws T for T :: "'r table" +
  assumes refs_put: "t_refs T (t_put T rs d) r = t_refs T d r"
    and refs_grow: "ids_grow d d' \<Longrightarrow> t_refs T d r \<Longrightarrow> t_refs T d' r"
begin

lemma create_ok:
  assumes "table_ok T (db w)"
  shows "table_ok T (db (snd (t_create T mk w)))"
proof -
  have "unique_rows T (db (snd (t_create T mk w)))"
    using create_keeps_unique [of mk] assms by (simp add: within_def keeps_rel_def table_ok_def)
  then show ?thesis
    using create_shape [of w T mk] assms by (auto simp: table_ok_def get_put refs_put)
qed

text \<open>An update that selects by a unique column and keeps the references.\<close>

lemma update_ok:
  assumes ok: "table_ok T (db w)" and sel: "(n, k) \<in> set (t_unique T)" "\<And>x. P x \<Longrightarrow> k x = Some v"
    and refs: "\<And>d c x. t_refs T d (t_touch T c (f x)) = t_refs T d x"
  shows "table_ok T (db (snd (t_update T P f w)))"
proof -
  let ?rows = "t_get T (db w)" and ?w = "snd (t_update T P f w)"
  have u: "unique_rows T (db ?w)"
    using update_keeps_unique [OF sel, of P f] ok by (simp add: within_def keeps_rel_def table_ok_def)
  from update_shape [of T P f w] show ?thesis
  proof
    assume "?w = w"
    with ok show ?thesis by simp
  next
    assume "\<exists>r. find P ?rows = Some r \<and> t_fits T (t_touch T (clock w) (f r))
      \<and> ?w = w\<lparr>db := t_put T (map (\<lambda>x. if P x then t_touch T (clock w) (f x) else x) ?rows) (db w)\<rparr>"
    then obtain r where r: "find P ?rows = Some r" "t_fits T (t_touch T (clock w) (f r))"
      and w: "?w = w\<lparr>db := t_put T (map (\<lambda>x. if P x then t_touch T (clock w) (f x) else x) ?rows) (db w)\<rparr>" by blast
    from r(1) have Pr: "P r" "r \<in> set ?rows" by (auto dest: find_Some_iff_hd)
    have one: "x = r" if "x \<in> set ?rows" "P x" for x
      using ok sel(1) unique_colD [of k ?rows x r] that Pr sel(2) [of x] sel(2) [of r]
      by (auto simp: table_ok_def unique_rows_def)
    have "t_fits T y \<and> t_refs T (db w) y"
      if "y \<in> set (map (\<lambda>x. if P x then t_touch T (clock w) (f x) else x) ?rows)" for y
      using that r(2) one ok by (auto simp: table_ok_def refs)
    with u show ?thesis unfolding table_ok_def w by (simp add: get_put refs_put)
  qed
qed

lemma update_by_id_ok:
  assumes "table_ok T (db w)" and "\<And>d c x. t_refs T d (t_touch T c (f x)) = t_refs T d x"
  shows "table_ok T (db (snd (t_update T (\<lambda>x. t_id T x = i) f w)))"
  using assms by (intro update_ok [OF _ id_unique, where v = i]) simp_all

lemma updateMany_ok:
  assumes "table_ok T (db w)"
    and "\<And>n k c x. (n, k) \<in> set (t_unique T) \<Longrightarrow> k (t_touch T c (f x)) = k x"
    and "\<And>c x. t_fits T (t_touch T c (f x)) = t_fits T x" and "\<And>d c x. t_refs T d (t_touch T c (f x)) = t_refs T d x"
  shows "table_ok T (db (snd (t_updateMany T P f w)))"
proof -
  let ?g = "\<lambda>x. if P x then t_touch T (clock w) (f x) else x"
  have "unique_col k (map ?g (t_get T (db w)))" if "(n, k) \<in> set (t_unique T)" for n k
    by (rule unique_col_keep) (use assms(1,2) that in \<open>auto simp: table_ok_def unique_rows_def\<close>)
  then show ?thesis
    using assms(1,3,4) by (auto simp: t_updateMany_def table_ok_def unique_rows_def get_put refs_put)
qed

lemma elsewhere_ok:
  assumes "table_ok T d" and "t_get T d' = t_get T d" and "ids_grow d d'"
  shows "table_ok T d'"
  using assms refs_grow by (auto simp: table_ok_def unique_rows_def)

lemma put_shapes:
  "\<exists>rs. db (snd (t_create T mk w)) = t_put T rs (db w)"
  "\<exists>rs. db (snd (t_update T P f w)) = t_put T rs (db w)"
  "\<exists>rs. db (snd (t_updateMany T P f w)) = t_put T rs (db w)"
proof -
  show "\<exists>rs. db (snd (t_create T mk w)) = t_put T rs (db w)"
    using create_shape [of w T mk] put_get by metis
  have "db (snd (t_update T P f w)) = t_put T (t_get T (db w)) (db w)
      \<or> (\<exists>rs. db (snd (t_update T P f w)) = t_put T rs (db w))"
    using update_shape [of T P f w] by (auto simp: put_get)
  then show "\<exists>rs. db (snd (t_update T P f w)) = t_put T rs (db w)" by blast
  show "\<exists>rs. db (snd (t_updateMany T P f w)) = t_put T rs (db w)" by (auto simp: t_updateMany_def)
qed

end

lemmas has_defs = has_user_def has_wallet_def has_transaction_def

interpretation user_refs: referencing_table users_t
  by unfold_locales (auto simp: users_t_def)

interpretation token_refs: referencing_table refreshTokens_t
  by unfold_locales (auto simp: refreshTokens_t_def ids_grow_def has_user_def)

interpretation wallet_refs: referencing_table wallets_t
  by unfold_locales (auto simp: wallets_t_def ids_grow_def has_user_def)

interpretation transaction_refs: referencing_table transactions_t
  by unfold_locales (auto simp: transactions_t_def ids_grow_def has_wallet_def split: option.splits)

interpretation entry_refs: referencing_table ledgerEntries_t
  by unfold_locales (auto simp: ledgerEntries_t_def ids_grow_def has_wallet_def has_transaction_def)

interpretation log_refs: referencing_table paymentLogs_t
  by unfold_locales (auto simp: paymentLogs_t_def ids_grow_def has_transaction_def)

interpretation event_refs: referencing_table outboxEvents_t
  by unfold_locales (auto simp: outboxEvents_t_def ids_grow_def has_transaction_def)

lemma table_fields:
  "t_get users_t = users"
  "t_get refreshTokens_t = refreshTokens"
  "t_get wallets_t = wallets"
  "t_get transactions_t = transactions"
  "t_get ledgerEntries_t = ledgerEntries"
  "t_get paymentLogs_t = paymentLogs"
  "t_get outboxEvents_t = outboxEvents"
  "t_put users_t rs_users d = d\<lparr>users := rs_users\<rparr>"
  "t_put refreshTokens_t rs_refreshTokens d = d\<lparr>refreshTokens := rs_refreshTokens\<rparr>"
  "t_put wallets_t rs_wallets d = d\<lparr>wallets := rs_wallets\<rparr>"
  "t_put transactions_t rs_transactions d = d\<lparr>transactions := rs_transactions\<rparr>"
  "t_put ledgerEntries_t rs_ledgerEntries d = d\<lparr>ledgerEntries := rs_ledgerEntries\<rparr>"
  "t_put paymentLogs_t rs_paymentLogs d = d\<lparr>paymentLogs := rs_paymentLogs\<rparr>"
  "t_put outboxEvents_t rs_outboxEvents d = d\<lparr>outboxEvents := rs_outboxEvents\<rparr>"
  by (simp_all add: table_defs)

lemma table_ids:
  "t_id users_t = u_id" "t_id refreshTokens_t = rt_id" "t_id wallets_t = w_id" "t_id transactions_t = tx_id"
  "t_id ledgerEntries_t = le_id" "t_id paymentLogs_t = pl_id" "t_id outboxEvents_t = oe_id"
  by (simp_all add: table_defs)

lemma tables_ok_put:
  assumes "tables_ok d"
  shows "table_ok users_t (t_put users_t us d) \<Longrightarrow> ids_grow d (t_put users_t us d) \<Longrightarrow> tables_ok (t_put users_t us d)"
    "table_ok refreshTokens_t (t_put refreshTokens_t rs d) \<Longrightarrow> tables_ok (t_put refreshTokens_t rs d)"
    "table_ok wallets_t (t_put wallets_t xs d) \<Longrightarrow> ids_grow d (t_put wallets_t xs d) \<Longrightarrow> tables_ok (t_put wallets_t xs d)"
    "table_ok transactions_t (t_put transactions_t ts d) \<Longrightarrow> ids_grow d (t_put transactions_t ts d) \<Longrightarrow>
       tables_ok (t_put transactions_t ts d)"
    "table_ok ledgerEntries_t (t_put ledgerEntries_t ls d) \<Longrightarrow> tables_ok (t_put ledgerEntries_t ls d)"
    "table_ok paymentLogs_t (t_put paymentLogs_t ps d) \<Longrightarrow> tables_ok (t_put paymentLogs_t ps d)"
    "table_ok outboxEvents_t (t_put outboxEvents_t es d) \<Longrightarrow> tables_ok (t_put outboxEvents_t es d)"
proof -
  note elsewhere = user_refs.elsewhere_ok [of d] token_refs.elsewhere_ok [of d] wallet_refs.elsewhere_ok [of d]
    transaction_refs.elsewhere_ok [of d] entry_refs.elsewhere_ok [of d] log_refs.elsewhere_ok [of d]
    event_refs.elsewhere_ok [of d]
  have grow: "ids_grow d (t_put refreshTokens_t rs d)" "ids_grow d (t_put ledgerEntries_t ls d)"
    "ids_grow d (t_put paymentLogs_t ps d)" "ids_grow d (t_put outboxEvents_t es d)"
    by (simp_all add: ids_grow_def has_defs table_fields)
  show "table_ok users_t (t_put users_t us d) \<Longrightarrow> ids_grow d (t_put users_t us d) \<Longrightarrow> tables_ok (t_put users_t us d)"
    using assms by (simp add: tables_ok_def elsewhere table_fields)
  show "table_ok refreshTokens_t (t_put refreshTokens_t rs d) \<Longrightarrow> tables_ok (t_put refreshTokens_t rs d)"
    using assms grow(1) by (simp add: tables_ok_def elsewhere table_fields)
  show "table_ok wallets_t (t_put wallets_t xs d) \<Longrightarrow> ids_grow d (t_put wallets_t xs d) \<Longrightarrow> tables_ok (t_put wallets_t xs d)"
    using assms by (simp add: tables_ok_def elsewhere table_fields)
  show "table_ok transactions_t (t_put transactions_t ts d) \<Longrightarrow> ids_grow d (t_put transactions_t ts d) \<Longrightarrow>
      tables_ok (t_put transactions_t ts d)"
    using assms by (simp add: tables_ok_def elsewhere table_fields)
  show "table_ok ledgerEntries_t (t_put ledgerEntries_t ls d) \<Longrightarrow> tables_ok (t_put ledgerEntries_t ls d)"
    using assms grow(2) by (simp add: tables_ok_def elsewhere table_fields)
  show "table_ok paymentLogs_t (t_put paymentLogs_t ps d) \<Longrightarrow> tables_ok (t_put paymentLogs_t ps d)"
    using assms grow(3) by (simp add: tables_ok_def elsewhere table_fields)
  show "table_ok outboxEvents_t (t_put outboxEvents_t es d) \<Longrightarrow> tables_ok (t_put outboxEvents_t es d)"
    using assms grow(4) by (simp add: tables_ok_def elsewhere table_fields)
qed

lemma ids_grow_put:
  "ids_grow d (d\<lparr>users := users d @ [u]\<rparr>)" "ids_grow d (d\<lparr>wallets := wallets d @ [x]\<rparr>)"
  "ids_grow d (d\<lparr>transactions := transactions d @ [t]\<rparr>)"
  "(\<And>u. u_id (f u) = u_id u) \<Longrightarrow> ids_grow d (d\<lparr>users := map f (users d)\<rparr>)"
  "(\<And>x. w_id (g x) = w_id x) \<Longrightarrow> ids_grow d (d\<lparr>wallets := map g (wallets d)\<rparr>)"
  "(\<And>t. tx_id (k t) = tx_id t) \<Longrightarrow> ids_grow d (d\<lparr>transactions := map k (transactions d)\<rparr>)"
  by (auto simp: ids_grow_def has_defs list_ex_iff)

lemma create_grows:
  "ids_grow (db w) (db (snd (t_create users_t mk w)))" "ids_grow (db w) (db (snd (t_create wallets_t mk' w)))"
  "ids_grow (db w) (db (snd (t_create transactions_t mk'' w)))"
  using create_shape [of w users_t mk] create_shape [of w wallets_t mk'] create_shape [of w transactions_t mk'']
  by (auto simp: table_fields ids_grow_put) (simp_all add: ids_grow_def)

lemma update_grows:
  "(\<And>u. u_id (f u) = u_id u) \<Longrightarrow> ids_grow (db w) (db (snd (t_update users_t P f w)))"
  "(\<And>x. w_id (g x) = w_id x) \<Longrightarrow> ids_grow (db w) (db (snd (t_update wallets_t Q g w)))"
  "(\<And>t. tx_id (k t) = tx_id t) \<Longrightarrow> ids_grow (db w) (db (snd (t_update transactions_t S k w)))"
proof -
  have same: "ids_grow d d" for d by (simp add: ids_grow_def)
  have ids: "u_id (t_touch users_t c u) = u_id u" "w_id (t_touch wallets_t c x) = w_id x"
    "tx_id (t_touch transactions_t c t) = tx_id t" for c u x t
    by (simp_all add: table_defs)
  show "(\<And>u. u_id (f u) = u_id u) \<Longrightarrow> ids_grow (db w) (db (snd (t_update users_t P f w)))"
    using update_shape [of users_t P f w] by (auto simp: table_fields same ids intro!: ids_grow_put)
  show "(\<And>x. w_id (g x) = w_id x) \<Longrightarrow> ids_grow (db w) (db (snd (t_update wallets_t Q g w)))"
    using update_shape [of wallets_t Q g w] by (auto simp: table_fields same ids intro!: ids_grow_put)
  show "(\<And>t. tx_id (k t) = tx_id t) \<Longrightarrow> ids_grow (db w) (db (snd (t_update transactions_t S k w)))"
    using update_shape [of transactions_t S k w] by (auto simp: table_fields same ids intro!: ids_grow_put)
qed

text \<open>Columns behind a fixed one.\<close>

lemma fixed_columns:
  "wallet_fixed x = wallet_fixed y \<longleftrightarrow> w_id x = w_id y \<and> w_userId x = w_userId y \<and> w_currency x = w_currency y
     \<and> w_status x = w_status y \<and> w_createdAt x = w_createdAt y"
  "transaction_fixed t = transaction_fixed t' \<longleftrightarrow> tx_id t = tx_id t' \<and> idempotencyKey t = idempotencyKey t'
     \<and> tx_type t = tx_type t' \<and> tx_amount t = tx_amount t' \<and> tx_currency t = tx_currency t'
     \<and> tx_description t = tx_description t' \<and> senderWalletId t = senderWalletId t'
     \<and> receiverWalletId t = receiverWalletId t' \<and> tx_provider t = tx_provider t' \<and> tx_createdAt t = tx_createdAt t'"
  "event_fixed e = event_fixed e' \<longleftrightarrow> oe_id e = oe_id e' \<and> oe_transactionId e = oe_transactionId e'
     \<and> eventType e = eventType e' \<and> oe_payload e = oe_payload e' \<and> oe_createdAt e = oe_createdAt e'"
  by (cases t; cases t'; cases e; cases e'; auto simp: wallet_fixed_def transaction_fixed_def event_fixed_def)+

lemma subset_ok:
  assumes "table_ok refreshTokens_t d" and "distinct rs" and "set rs \<subseteq> set (refreshTokens d)"
  shows "table_ok refreshTokens_t (d\<lparr>refreshTokens := rs\<rparr>)"
proof -
  have "unique_col k rs" if "unique_col k (refreshTokens d)" for k
  proof -
    have "inj_on k (set (filter (\<lambda>r. k r \<noteq> None) rs))"
      using unique_colD [OF that] assms(3) by (intro inj_onI) (simp add: subset_iff)
    with assms(2) show ?thesis by (simp add: unique_col_def distinct_map)
  qed
  then show ?thesis
    using assms(1,3) by (auto simp: table_ok_def unique_rows_def refreshTokens_t_def has_user_def)
qed

lemma delete_expired_sub:
  "set (delete_expired c n rs) \<subseteq> set rs" "distinct rs \<Longrightarrow> distinct (delete_expired c n rs)"
  "r \<in> set rs \<Longrightarrow> c \<le> expiresAt r \<Longrightarrow> r \<in> set (delete_expired c n rs)"
proof -
  show sub: "set (delete_expired c n rs) \<subseteq> set rs" for c n rs
    by (induction c n rs rule: delete_expired.induct) auto
  show "distinct rs \<Longrightarrow> distinct (delete_expired c n rs)"
    by (induction c n rs rule: delete_expired.induct) (use sub in \<open>auto dest!: subsetD [OF sub]\<close>)
  show "r \<in> set rs \<Longrightarrow> c \<le> expiresAt r \<Longrightarrow> r \<in> set (delete_expired c n rs)"
    by (induction c n rs rule: delete_expired.induct) auto
qed

text \<open>A write changes one table; it keeps the schema when it keeps that table.\<close>

lemma schema_step:
  assumes "tables_ok d"
  shows "\<exists>rs. d' = t_put users_t rs d \<Longrightarrow> (table_ok users_t d \<Longrightarrow> table_ok users_t d') \<Longrightarrow> ids_grow d d' \<Longrightarrow> tables_ok d'"
    "\<exists>rs. d' = t_put refreshTokens_t rs d \<Longrightarrow> (table_ok refreshTokens_t d \<Longrightarrow> table_ok refreshTokens_t d') \<Longrightarrow> tables_ok d'"
    "\<exists>rs. d' = t_put wallets_t rs d \<Longrightarrow> (table_ok wallets_t d \<Longrightarrow> table_ok wallets_t d') \<Longrightarrow> ids_grow d d' \<Longrightarrow> tables_ok d'"
    "\<exists>rs. d' = t_put transactions_t rs d \<Longrightarrow> (table_ok transactions_t d \<Longrightarrow> table_ok transactions_t d') \<Longrightarrow> ids_grow d d' \<Longrightarrow> tables_ok d'"
    "\<exists>rs. d' = t_put ledgerEntries_t rs d \<Longrightarrow> (table_ok ledgerEntries_t d \<Longrightarrow> table_ok ledgerEntries_t d') \<Longrightarrow> tables_ok d'"
    "\<exists>rs. d' = t_put paymentLogs_t rs d \<Longrightarrow> (table_ok paymentLogs_t d \<Longrightarrow> table_ok paymentLogs_t d') \<Longrightarrow> tables_ok d'"
    "\<exists>rs. d' = t_put outboxEvents_t rs d \<Longrightarrow> (table_ok outboxEvents_t d \<Longrightarrow> table_ok outboxEvents_t d') \<Longrightarrow> tables_ok d'"
  using tables_ok_put [OF assms] assms by (auto simp: tables_ok_def)

lemma write_schema:
  assumes "table_write admin w w'" and "tables_ok (db w)"
  shows "tables_ok (db w')"
  using assms
proof (induction rule: table_write.induct)
  case (elsewhere w w')
  then show ?case by (simp add: aside_def)
next
  case (user_created w d)
  then show ?case
    by (rule schema_step(1)) (rule user_refs.put_shapes user_refs.create_ok create_grows; assumption?)+
next
  case (wallet_created w u)
  then show ?case
    by (rule schema_step(3)) (rule wallet_refs.put_shapes wallet_refs.create_ok create_grows; assumption?)+
next
  case (token_created w u h x)
  then show ?case
    by (rule schema_step(2)) (rule token_refs.put_shapes token_refs.create_ok; assumption?)+
next
  case (transaction_created w inp s)
  then show ?case
    by (rule schema_step(4)) (rule transaction_refs.put_shapes transaction_refs.create_ok create_grows; assumption?)+
next
  case (entry_created w i l)
  then show ?case
    by (rule schema_step(5)) (rule entry_refs.put_shapes entry_refs.create_ok; assumption?)+
next
  case (log_created w p cl)
  then show ?case
    by (rule schema_step(6)) (rule log_refs.put_shapes log_refs.create_ok; assumption?)+
next
  case (event_created w oi)
  then show ?case
    by (rule schema_step(7)) (rule event_refs.put_shapes event_refs.create_ok; assumption?)+
next
  case (user_updated f w i)
  have ok: "table_ok users_t (db w) \<Longrightarrow> table_ok users_t (db (snd (t_update users_t (\<lambda>u. u_id u = i) f w)))"
    by (rule user_refs.update_by_id_ok [unfolded table_ids]) (simp_all add: users_t_def)
  show ?case
    by (rule schema_step(1) [OF _ user_refs.put_shapes(2)]) (use user_updated ok in \<open>simp_all add: update_grows account_kept_def\<close>)
next
  case (wallet_updated g w i)
  have ok: "table_ok wallets_t (db w) \<Longrightarrow> table_ok wallets_t (db (snd (t_update wallets_t (\<lambda>x. w_id x = i) g w)))"
    by (rule wallet_refs.update_by_id_ok [unfolded table_ids])
      (use wallet_updated(1) in \<open>simp_all add: wallets_t_def fixed_columns\<close>)
  show ?case
    by (rule schema_step(3) [OF _ wallet_refs.put_shapes(2)]) (use wallet_updated ok in \<open>simp_all add: update_grows fixed_columns\<close>)
next
  case (transaction_updated k w i)
  have ok: "table_ok transactions_t (db w) \<Longrightarrow>
      table_ok transactions_t (db (snd (t_update transactions_t (\<lambda>t. tx_id t = i) k w)))"
    by (rule transaction_refs.update_by_id_ok [unfolded table_ids])
      (use transaction_updated(1) in \<open>simp_all add: transactions_t_def fixed_columns\<close>)
  show ?case
    by (rule schema_step(4) [OF _ transaction_refs.put_shapes(2)]) (use transaction_updated ok in \<open>simp_all add: update_grows fixed_columns\<close>)
next
  case (event_updated m w i)
  have ok: "table_ok outboxEvents_t (db w) \<Longrightarrow>
      table_ok outboxEvents_t (db (snd (t_update outboxEvents_t (\<lambda>e. oe_id e = i) m w)))"
    by (rule event_refs.update_by_id_ok [unfolded table_ids])
      (use event_updated(1) in \<open>simp_all add: outboxEvents_t_def fixed_columns\<close>)
  show ?case
    by (rule schema_step(7) [OF _ event_refs.put_shapes(2)]) (use event_updated ok in \<open>simp_all\<close>)
next
  case (token_revoked w h c)
  have ok: "table_ok refreshTokens_t (db w) \<Longrightarrow> table_ok refreshTokens_t
      (db (snd (t_update refreshTokens_t (\<lambda>r. tokenHash r = h \<and> revokedAt r = None) (\<lambda>r. r\<lparr>revokedAt := Some c\<rparr>) w)))"
    by (rule token_refs.update_ok [where n = "''tokenHash''" and k = "Some \<circ> tokenHash" and v = h])
      (auto simp: refreshTokens_t_def)
  show ?case
    by (rule schema_step(2) [OF _ token_refs.put_shapes(2)]) (use token_revoked ok in \<open>simp_all\<close>)
next
  case (tokens_revoked P w c)
  have ok: "table_ok refreshTokens_t (db w) \<Longrightarrow> table_ok refreshTokens_t
      (db (snd (t_updateMany refreshTokens_t P (\<lambda>r. r\<lparr>revokedAt := Some c\<rparr>) w)))"
    by (rule token_refs.updateMany_ok) (auto simp: refreshTokens_t_def)
  show ?case
    by (rule schema_step(2) [OF _ token_refs.put_shapes(3)]) (use tokens_revoked ok in \<open>simp_all\<close>)
next
  case (session_evicted r w c)
  have ok: "table_ok refreshTokens_t (db w) \<Longrightarrow> table_ok refreshTokens_t
      (db (snd (t_update refreshTokens_t (\<lambda>x. rt_id x = rt_id r) (\<lambda>x. x\<lparr>revokedAt := Some c\<rparr>) w)))"
    by (rule token_refs.update_by_id_ok [unfolded table_ids]) (simp_all add: refreshTokens_t_def)
  show ?case
    by (rule schema_step(2) [OF _ token_refs.put_shapes(2)]) (use session_evicted ok in \<open>simp_all\<close>)
next
  case (tokens_deleted w n)
  have "distinct (refreshTokens (db w))"
    using tokens_deleted refreshTokens.unique_ids [of "db w"]
    by (auto simp: tables_ok_def table_ok_def distinct_map table_fields)
  then have "table_ok refreshTokens_t (db w) \<Longrightarrow> table_ok refreshTokens_t (db (snd (delete_batch n w)))"
    using subset_ok delete_expired_sub by (simp add: delete_batch_def)
  moreover have "\<exists>rs. db (snd (delete_batch n w)) = t_put refreshTokens_t rs (db w)"
    by (auto simp: delete_batch_def table_fields)
  ultimately show ?case using tokens_deleted by (metis schema_step(2))
qed

lemma writes_schema: "writes admin w w' \<Longrightarrow> tables_ok (db w) \<Longrightarrow> tables_ok (db w')"
  unfolding writes_def by (induction rule: rtranclp_induct) (auto intro: write_schema)

section \<open>Records\<close>

text \<open>
  Ledger entries, payment logs and audit lines are only appended to; of every other record
  the columns stay that no update may change.
\<close>

definition user_fixed :: "user \<Rightarrow> uuid \<times> instant" where
  "user_fixed u = (u_id u, u_createdAt u)"

definition history :: "world \<Rightarrow> world \<Rightarrow> bool" where
  "history w w' \<longleftrightarrow> prefix (audits w) (audits w')
     \<and> prefix (ledgerEntries (db w)) (ledgerEntries (db w'))
     \<and> prefix (paymentLogs (db w)) (paymentLogs (db w'))
     \<and> prefix (map transaction_fixed (transactions (db w))) (map transaction_fixed (transactions (db w')))
     \<and> prefix (map event_fixed (outboxEvents (db w))) (map event_fixed (outboxEvents (db w')))
     \<and> prefix (map wallet_fixed (wallets (db w))) (map wallet_fixed (wallets (db w')))
     \<and> prefix (map user_fixed (users (db w))) (map user_fixed (users (db w')))"

interpretation histories: effect_order history
  by unfold_locales (auto simp: history_def intro: prefix_order.trans)

lemma touched_fixed:
  "wallet_fixed (t_touch wallets_t c x) = wallet_fixed x"
  "transaction_fixed (t_touch transactions_t c t) = transaction_fixed t"
  "event_fixed (t_touch outboxEvents_t c e) = event_fixed e"
  "account_kept u (t_touch users_t c v) = account_kept u v" "rights_kept u (t_touch users_t c v) = rights_kept u v"
  by (simp_all add: fixed_columns table_defs account_kept_def rights_kept_def)

text \<open>Appending a row, and changing rows in columns that are not fixed.\<close>

lemma created_history:
  "history w (snd (t_create users_t mk1 w))" "history w (snd (t_create refreshTokens_t mk2 w))"
  "history w (snd (t_create wallets_t mk3 w))" "history w (snd (t_create transactions_t mk4 w))"
  "history w (snd (t_create ledgerEntries_t mk5 w))" "history w (snd (t_create paymentLogs_t mk6 w))"
  "history w (snd (t_create outboxEvents_t mk7 w))"
proof -
  note defs = history_def advances_def table_fields
  show "history w (snd (t_create users_t mk1 w))" using create_shape [of w users_t mk1] by (auto simp: defs)
  show "history w (snd (t_create refreshTokens_t mk2 w))"
    using create_shape [of w refreshTokens_t mk2] by (auto simp: defs)
  show "history w (snd (t_create wallets_t mk3 w))" using create_shape [of w wallets_t mk3] by (auto simp: defs)
  show "history w (snd (t_create transactions_t mk4 w))"
    using create_shape [of w transactions_t mk4] by (auto simp: defs)
  show "history w (snd (t_create ledgerEntries_t mk5 w))"
    using create_shape [of w ledgerEntries_t mk5] by (auto simp: defs)
  show "history w (snd (t_create paymentLogs_t mk6 w))"
    using create_shape [of w paymentLogs_t mk6] by (auto simp: defs)
  show "history w (snd (t_create outboxEvents_t mk7 w))"
    using create_shape [of w outboxEvents_t mk7] by (auto simp: defs)
qed

lemma map_kept: "(\<And>x. h (g x) = h x) \<Longrightarrow> map (\<lambda>x. h (if P x then g x else x)) xs = map h xs"
  by simp

lemma updated_history:
  "(\<And>u. account_kept u (f u)) \<Longrightarrow> history w (snd (t_update users_t P1 f w))"
  "(\<And>x. wallet_fixed (g x) = wallet_fixed x) \<Longrightarrow> history w (snd (t_update wallets_t P2 g w))"
  "(\<And>t. transaction_fixed (k t) = transaction_fixed t) \<Longrightarrow> history w (snd (t_update transactions_t P3 k w))"
  "(\<And>e. event_fixed (m e) = event_fixed e) \<Longrightarrow> history w (snd (t_update outboxEvents_t P4 m w))"
  "history w (snd (t_update refreshTokens_t P5 n w))"
proof -
  show "history w (snd (t_update users_t P1 f w))" if "\<And>u. account_kept u (f u)"
  proof -
    have kept: "user_fixed (t_touch users_t c (f u)) = user_fixed u" for c u
      using that [of u] touched_fixed(4) [of u c "f u"] by (simp add: account_kept_def user_fixed_def)
    then show ?thesis
      using update_shape [of users_t P1 f w]
      by (auto simp: history_def table_fields comp_def map_kept [of user_fixed, OF kept])
  qed
  show "history w (snd (t_update wallets_t P2 g w))" if "\<And>x. wallet_fixed (g x) = wallet_fixed x"
  proof -
    have kept: "wallet_fixed (t_touch wallets_t c (g x)) = wallet_fixed x" for c x using that touched_fixed by simp
    show ?thesis
      using update_shape [of wallets_t P2 g w]
      by (auto simp: history_def table_fields comp_def map_kept [of wallet_fixed, OF kept])
  qed
  show "history w (snd (t_update transactions_t P3 k w))" if "\<And>t. transaction_fixed (k t) = transaction_fixed t"
  proof -
    have kept: "transaction_fixed (t_touch transactions_t c (k t)) = transaction_fixed t" for c t using that touched_fixed by simp
    show ?thesis
      using update_shape [of transactions_t P3 k w]
      by (auto simp: history_def table_fields comp_def map_kept [of transaction_fixed, OF kept])
  qed
  show "history w (snd (t_update outboxEvents_t P4 m w))" if "\<And>e. event_fixed (m e) = event_fixed e"
  proof -
    have kept: "event_fixed (t_touch outboxEvents_t c (m e)) = event_fixed e" for c e using that touched_fixed by simp
    show ?thesis
      using update_shape [of outboxEvents_t P4 m w]
      by (auto simp: history_def table_fields comp_def map_kept [of event_fixed, OF kept])
  qed
  show "history w (snd (t_update refreshTokens_t P5 n w))"
    using update_shape [of refreshTokens_t P5 n w] by (auto simp: history_def table_fields)
qed

lemma write_history: "table_write admin w w' \<Longrightarrow> history w w'"
proof (induction rule: table_write.induct)
  case (elsewhere w w')
  then show ?case by (simp add: aside_def advances_def history_def)
next
  case (tokens_revoked P w c)
  then show ?case by (simp add: t_updateMany_def history_def table_fields)
next
  case (tokens_deleted w n)
  then show ?case by (simp add: delete_batch_def history_def)
qed (simp_all add: created_history updated_history)

lemma writes_history: "writes admin w w' \<Longrightarrow> history w w'"
  unfolding writes_def
  by (induction rule: rtranclp_induct) (auto intro: histories.R_refl histories.R_trans write_history)

section \<open>Rights\<close>

text \<open>
  Users are added at the end, without an administrator's role; the others keep their role,
  and their status unless the account is closed.
\<close>

definition rights_stable :: "world \<Rightarrow> world \<Rightarrow> bool" where
  "rights_stable w w' \<longleftrightarrow> (\<exists>old new. users (db w') = old @ new
     \<and> list_all2 (\<lambda>u v. account_kept u v \<and> rights_kept u v) (users (db w)) old
     \<and> list_all (\<lambda>u. u_role u = USER) new)"

lemma kept_refl: "account_kept u u \<and> rights_kept u u"
  by (simp add: account_kept_def rights_kept_def)

lemma kept_trans: "account_kept u v \<and> rights_kept u v \<Longrightarrow> account_kept v x \<and> rights_kept v x \<Longrightarrow>
    account_kept u x \<and> rights_kept u x"
  by (auto simp: account_kept_def rights_kept_def)

lemma rights_stable_trans:
  assumes "rights_stable u v" and "rights_stable v w"
  shows "rights_stable u w"
proof -
  let ?R = "\<lambda>u v. account_kept u v \<and> rights_kept u v"
  from assms obtain o1 n1 o2 n2 where v: "users (db v) = o1 @ n1" "list_all2 ?R (users (db u)) o1"
      "list_all (\<lambda>u. u_role u = USER) n1"
    and w: "users (db w) = o2 @ n2" "list_all2 ?R (users (db v)) o2" "list_all (\<lambda>u. u_role u = USER) n2"
    by (auto simp: rights_stable_def)
  from w(2) v(1) obtain p q where pq: "o2 = p @ q" "list_all2 ?R o1 p" "list_all2 ?R n1 q"
    by (auto simp: list_all2_append1)
  have "list_all2 ?R (users (db u)) p"
    by (rule list_all2_trans [OF _ v(2) pq(2)]) (rule kept_trans)
  moreover have "list_all (\<lambda>u. u_role u = USER) q"
    using pq(3) v(3) by (induction rule: list_all2_induct) (auto simp: rights_kept_def)
  ultimately show ?thesis
    using w(1,3) pq(1) unfolding rights_stable_def by (intro exI [of _ p] exI [of _ "q @ n2"]) simp
qed

lemma rights_stable_same: "users (db w') = users (db w) \<Longrightarrow> rights_stable w w'"
  unfolding rights_stable_def
  by (intro exI [of _ "users (db w)"] exI [of _ "[]"]) (simp add: list_all2_refl kept_refl)

interpretation rights: effect_order rights_stable
  by unfold_locales (auto intro: rights_stable_trans rights_stable_same)

lemma write_rights: "table_write False w w' \<Longrightarrow> rights_stable w w'"
proof (induction rule: table_write.induct)
  case (elsewhere w w')
  then show ?case by (simp add: aside_def rights_stable_same)
next
  case (user_created w d)
  from create_shape [of w users_t "new_user d"]
  have "users (db (snd (t_create users_t (new_user d) w))) = users (db w)
      \<or> (\<exists>u. users (db (snd (t_create users_t (new_user d) w))) = users (db w) @ [u] \<and> u_role u = USER)"
    by (auto simp: table_fields new_user_def)
  then show ?case
    using kept_refl by (auto simp: rights_stable_same) (force simp: rights_stable_def intro: list_all2_refl)
next
  case (user_updated f w i)
  from update_shape [of users_t "\<lambda>u. u_id u = i" f w] show ?case
  proof
    assume "\<exists>r. find (\<lambda>u. u_id u = i) (t_get users_t (db w)) = Some r \<and> t_fits users_t (t_touch users_t (clock w) (f r))
      \<and> snd (t_update users_t (\<lambda>u. u_id u = i) f w) = w\<lparr>db := t_put users_t
          (map (\<lambda>x. if u_id x = i then t_touch users_t (clock w) (f x) else x) (t_get users_t (db w))) (db w)\<rparr>"
    then have "users (db (snd (t_update users_t (\<lambda>u. u_id u = i) f w)))
        = map (\<lambda>x. if u_id x = i then t_touch users_t (clock w) (f x) else x) (users (db w))"
      by (auto simp: table_fields)
    then show ?thesis
      using user_updated unfolding rights_stable_def
      by (intro exI [of _ "map (\<lambda>x. if u_id x = i then t_touch users_t (clock w) (f x) else x) (users (db w))"] exI [of _ "[]"])
         (auto simp: list_all2_map2 touched_fixed kept_refl intro!: list_all2_refl)
  qed (simp add: rights.R_refl)
qed (auto intro!: rights_stable_same simp: table_fields t_create_def t_update_def t_updateMany_def delete_batch_def
  Let_def split: option.splits)

lemma writes_rights: "writes False w w' \<Longrightarrow> rights_stable w w'"
  unfolding writes_def
  by (induction rule: rtranclp_induct) (auto intro: rights.R_refl rights.R_trans write_rights)

section \<open>Revoked tokens\<close>

lemma write_revoked:
  assumes "table_write admin w w'" and "tables_ok (db w)" and "r \<in> set (refreshTokens (db w))"
    and "revokedAt r \<noteq> None" and "clock w' \<le> expiresAt r"
  shows "r \<in> set (refreshTokens (db w'))"
  using assms
proof (induction rule: table_write.induct)
  case (elsewhere w w')
  then show ?case by (simp add: aside_def)
next
  case (token_created w u h x)
  with create_shape [of w refreshTokens_t "new_refreshToken u h x"] show ?case by (auto simp: table_fields)
next
  case (token_revoked w h c)
  with update_shape [of refreshTokens_t "\<lambda>r. tokenHash r = h \<and> revokedAt r = None" "\<lambda>r. r\<lparr>revokedAt := Some c\<rparr>" w]
  show ?case by (force simp: table_fields)
next
  case (tokens_revoked P w c)
  have "\<not> P r" using tokens_revoked(1) [of r] tokens_revoked(4) by auto
  with tokens_revoked(3) show ?case by (force simp: t_updateMany_def table_fields)
next
  case (session_evicted r' w c)
  have "r' \<noteq> r" using session_evicted by auto
  moreover have "unique_col (Some \<circ> rt_id) (refreshTokens (db w))"
    using session_evicted(3) refreshTokens.id_unique
    by (auto simp: tables_ok_def table_ok_def unique_rows_def table_fields table_ids)
  ultimately have "rt_id r \<noteq> rt_id r'"
    using session_evicted(1,4) by (auto dest: unique_colD)
  with update_shape [of refreshTokens_t "\<lambda>x. rt_id x = rt_id r'" "\<lambda>r. r\<lparr>revokedAt := Some c\<rparr>" w] session_evicted(4)
  show ?case by (force simp: table_fields)
next
  case (tokens_deleted w n)
  then show ?case by (simp add: delete_batch_def delete_expired_sub(3))
qed (auto simp: table_fields t_create_def t_update_def Let_def split: option.splits)

lemma writes_revoked:
  assumes "writes admin w w'" and "tables_ok (db w)" and "r \<in> set (refreshTokens (db w))"
    and "revokedAt r \<noteq> None" and "clock w' \<le> expiresAt r"
  shows "r \<in> set (refreshTokens (db w'))"
  using assms unfolding writes_def
proof (induction rule: rtranclp_induct)
  case base
  then show ?case by simp
next
  case (step v w')
  have v: "tables_ok (db v)" "clock v \<le> clock w'"
    using step.hyps step.prems(1) writes_schema [of admin w v] write_advances by (auto simp: writes_def advances_def)
  with step show ?case by (intro write_revoked [OF step.hyps(2) v(1)]) simp_all
qed

lemma rotate_revoked:
  assumes "tables_ok (db w)" and "r \<in> set (refreshTokens (db w))" and "revokedAt r \<noteq> None"
  shows "\<exists>e. rotateRefreshToken (tokenHash r) u h x w = (Inl e, w)"
proof -
  have "unique_col (Some \<circ> tokenHash) (refreshTokens (db w))"
    using assms(1) by (auto simp: tables_ok_def table_ok_def unique_rows_def refreshTokens_t_def)
  then have "find (\<lambda>q. tokenHash q = tokenHash r \<and> revokedAt q = None) (refreshTokens (db w)) = None"
    using assms(2,3) unique_colD [of "Some \<circ> tokenHash"] by (fastforce simp: find_None_iff_all)
  then show ?thesis
    by (simp add: rotateRefreshToken_def withTransaction_def bindP_def thenP_def now_def getP_def t_update_def table_fields)
qed

section \<open>Wallets\<close>

text \<open>A wallet is an active USD wallet from its registration on.\<close>

definition usd_wallets :: "world \<Rightarrow> bool" where
  "usd_wallets w \<longleftrightarrow> (\<forall>x \<in> set (wallets (db w)). w_currency x = USD \<and> w_status x = ACTIVE)"

lemma write_usd: "table_write admin w w' \<Longrightarrow> usd_wallets w \<Longrightarrow> usd_wallets w'"
proof (induction rule: table_write.induct)
  case (elsewhere w w')
  then show ?case by (simp add: aside_def usd_wallets_def)
next
  case (wallet_created w u)
  with create_shape [of w wallets_t "new_wallet u"] show ?case
    by (auto simp: table_fields usd_wallets_def new_wallet_def)
next
  case (wallet_updated g w i)
  have "w_currency (t_touch wallets_t c (g x)) = w_currency x \<and> w_status (t_touch wallets_t c (g x)) = w_status x" for c x
    using wallet_updated(1) [of x] by (simp add: fixed_columns table_defs)
  with wallet_updated(2) update_shape [of wallets_t "\<lambda>x. w_id x = i" g w] show ?case
    by (auto simp: table_fields usd_wallets_def)
qed (auto simp: usd_wallets_def table_fields t_create_def t_update_def t_updateMany_def delete_batch_def Let_def
  split: option.splits)

lemma writes_usd: "writes admin w w' \<Longrightarrow> usd_wallets w \<Longrightarrow> usd_wallets w'"
  unfolding writes_def by (induction rule: rtranclp_induct) (auto intro: write_usd)

text \<open>So a block of another currency throws.\<close>

lemma usd_blocks:
  assumes "usd_wallets w"
  shows "dto_currency d \<noteq> USD \<Longrightarrow> \<exists>e. fst (deposit_block u d w) = Inl e"
    and "dto_currency d \<noteq> USD \<Longrightarrow> \<exists>e. fst (withdraw_block u d w) = Inl e"
    and "dto_currency cd \<noteq> USD \<Longrightarrow> \<exists>e. fst (confirmDeposit_block u cd w) = Inl e"
    and "dto_currency cp \<noteq> USD \<Longrightarrow> \<exists>e. fst (createPayout_block u cp w) = Inl e"
    and "dto_currency td \<noteq> USD \<Longrightarrow> \<exists>e. fst (transfer_block u td x y w) = Inl e"
proof -
  have usd: "find P (wallets (db w)) = Some x \<Longrightarrow> w_currency x = USD" for P x
    using assms by (auto simp: usd_wallets_def dest: find_Some_iff_hd)
  have throws: "\<exists>e. fst (m w) = Inl e" if "wp m (\<lambda>_ _. False) (\<lambda>_ _. True) w" for m :: "(world, transaction) prog"
    using that by (auto simp: wp_def split: prod.splits sum.splits)
  show "dto_currency d \<noteq> USD \<Longrightarrow> \<exists>e. fst (deposit_block u d w) = Inl e"
    by (rule throws) (auto simp: deposit_block_def wp_simps dest: usd split: option.splits)
  show "dto_currency d \<noteq> USD \<Longrightarrow> \<exists>e. fst (withdraw_block u d w) = Inl e"
    by (rule throws) (auto simp: withdraw_block_def wp_simps dest: usd split: option.splits)
  show "dto_currency cd \<noteq> USD \<Longrightarrow> \<exists>e. fst (confirmDeposit_block u cd w) = Inl e"
    by (rule throws) (auto simp: confirmDeposit_block_def wp_simps dest: usd split: option.splits)
  show "dto_currency cp \<noteq> USD \<Longrightarrow> \<exists>e. fst (createPayout_block u cp w) = Inl e"
    by (rule throws) (auto simp: createPayout_block_def wp_simps dest: usd split: option.splits)
  show "dto_currency td \<noteq> USD \<Longrightarrow> \<exists>e. fst (transfer_block u td x y w) = Inl e"
    by (rule throws) (auto simp: transfer_block_def wp_simps Let_def case_prod_beta dest: usd split: option.splits)
qed

section \<open>Presenting a revoked token\<close>

definition same_sessions :: "world \<Rightarrow> world \<Rightarrow> bool" where
  "same_sessions w w' \<longleftrightarrow> map rt_id (refreshTokens (db w')) = map rt_id (refreshTokens (db w))"

interpretation sessions: effect_order same_sessions
  by unfold_locales (auto simp: same_sessions_def)

lemma aside_sessions: "within aside m \<Longrightarrow> within same_sessions m"
  by (erule within_weaken) (simp add: aside_def same_sessions_def)

lemma cache_aside: "within aside (getRotationCache env h)" "within aside (clearRotationCache h)"
  unfolding getRotationCache_def clearRotationCache_def decrypt_def redis_ops
  by (intro aside_intros case_intros | simp add: case_prod_beta)+

lemma refusal_sessions:
  "within same_sessions (refresh_reuse h t ua)" "within same_sessions (refresh_grace env h t ua)"
proof -
  have "within same_sessions (revokeActive u)" for u
  proof -
    have "within same_sessions (t_updateMany refreshTokens_t P (\<lambda>r. r\<lparr>revokedAt := d\<rparr>))" for P d
    proof (rule within_wpI)
      fix w :: world
      have "map rt_id (map (\<lambda>x. if P x then t_touch refreshTokens_t (clock w) (x\<lparr>revokedAt := d\<rparr>) else x) rs) = map rt_id rs"
        for rs by (induction rs) (simp_all add: refreshTokens_t_def)
      then show "wp (t_updateMany refreshTokens_t P (\<lambda>r. r\<lparr>revokedAt := d\<rparr>))
          (\<lambda>_. same_sessions w) (\<lambda>_. same_sessions w) w"
        by (simp add: wp_simps same_sessions_def table_fields del: map_map)
    qed
    then show ?thesis
      unfolding revokeActive_def by (intro sessions.within_intros aside_sessions [OF read_aside(4)])
  qed
  then show "within same_sessions (refresh_reuse h t ua)"
    unfolding refresh_reuse_def revokeAllTokens_def revokeAllUserTokens_def
    by (intro sessions.within_intros aside_sessions [OF cache_aside(2)] aside_sessions [OF audit_aside(2)])
  show "within same_sessions (refresh_grace env h t ua)"
    unfolding refresh_grace_def by (intro aside_sessions aside_intros cache_aside)
qed

lemma refresh_revoked:
  assumes env: "env_valid env" and schema: "tables_ok (db w)" and r: "r \<in> set (refreshTokens (db w))"
    and revoked: "revokedAt r \<noteq> None" and raw: "token_hash env raw = tokenHash r"
  shows "same_sessions w (snd (refresh env raw ua w))"
proof -
  have "unique_col (Some \<circ> tokenHash) (refreshTokens (db w))"
    using schema by (auto simp: tables_ok_def table_ok_def unique_rows_def refreshTokens_t_def)
  then have "distinct (map tokenHash (refreshTokens (db w)))"
    by (simp add: unique_col_def distinct_map inj_on_def comp_def)
  from find_distinct_key [OF this r] obtain d where d: "revokedAt r = Some d"
    and "find (\<lambda>y. tokenHash y = tokenHash r) (refreshTokens (db w)) = Some r" using revoked by blast
  then have "refresh env raw ua w = (case classify_token (clock w) REFRESH_TOKEN_GRACE_PERIOD_SECONDS (Some r) of
      GRACE_PERIOD t \<Rightarrow> refresh_grace env (tokenHash r) t ua w
    | REUSE_DETECTED t \<Rightarrow> refresh_reuse (tokenHash r) t ua w
    | _ \<Rightarrow> throw (HttpExn UnauthorizedException ''Invalid token.'') w)"
    by (simp add: refresh_def bindP_def hashToken_run [OF env] raw findTokenWithGrace_def findRefreshTokenWithGrace_def
      t_find_def getP_def refreshTokens_t_def now_def ret_def classify_token_def split: option.splits)
  then show ?thesis
    using refusal_sessions by (auto simp: within_def throw_def sessions.R_refl split: token_state.splits)
qed

section \<open>Rights over a run\<close>

lemma grants_by_admin:
  assumes "grants w a"
  obtains rq p where "a = Serve rq" and "is_grant (rq_call rq)" and "rq_verified rq = Some p"
    and "jp_role p = ADMIN" and "token_accepted p w"
proof -
  from assms obtain rq where rq: "a = Serve rq" "is_grant (rq_call rq)" "admitted rq w"
    by (auto simp: grants_def split: activity.splits)
  from rq(2) have "is_admin (rq_call rq)" "\<not> is_public (rq_call rq)"
    by (cases "rq_call rq" rule: is_grant.cases; simp)+
  with rq that show thesis by (auto simp: admitted_def split: option.splits)
qed

lemma rights_or_grant:
  assumes "adapters_confined (app_registry app)"
  shows "rights_stable w (happen app acts w)
    \<or> (\<exists>before rq after p. acts = before @ Serve rq # after \<and> is_grant (rq_call rq)
        \<and> rq_verified rq = Some p \<and> jp_role p = ADMIN \<and> token_accepted p (happen app before w))"
    (is "_ \<or> ?G acts w")
proof (induction acts arbitrary: w)
  case Nil
  then show ?case by (simp add: happen_def rights.R_refl)
next
  case (Cons a acts)
  show ?case
  proof (cases "grants w a")
    case True
    then obtain rq p where "a # acts = [] @ Serve rq # acts" "is_grant (rq_call rq)" "rq_verified rq = Some p"
      "jp_role p = ADMIN" "token_accepted p (happen app [] w)"
      by (elim grants_by_admin) (simp add: happen_def)
    then have "?G (a # acts) w" by blast
    then show ?thesis ..
  next
    case False
    with occur_writes [OF assms, of w a] have a: "rights_stable w (occur app a w)" by (simp add: writes_rights)
    from Cons.IH [of "occur app a w"] show ?thesis
    proof
      assume "rights_stable (occur app a w) (happen app acts (occur app a w))"
      with a have "rights_stable w (happen app (a # acts) w)" unfolding happen_Cons by (rule rights.R_trans)
      then show ?thesis ..
    next
      assume "?G acts (occur app a w)"
      then obtain before rq after p where "acts = before @ Serve rq # after" "is_grant (rq_call rq)"
        "rq_verified rq = Some p" "jp_role p = ADMIN" "token_accepted p (happen app before (occur app a w))" by blast
      then have "?G (a # acts) w"
        by (intro exI [of _ "a # before"] exI [of _ rq] exI [of _ after] exI [of _ p]) (simp add: happen_Cons)
      then show ?thesis ..
    qed
  qed
qed

section \<open>Properties\<close>

text \<open>
  The constraints of the schema hold in every state the running service reaches. The
  database enforces them itself; what the services add is that no write of theirs, bulk
  updates and deletions included, is outside that enforcement.
\<close>

lemma schema_enforced:
  assumes "adapters_confined (app_registry app)" and "schema_ok (db w)"
  shows "schema_ok (db (happen app acts w))"
  using writes_schema [OF happen_writes [OF assms(1)]] assms(2) by (simp add: schema_tables)

definition demo_day :: "activity list" where
  "demo_day = [Serve (demo_request None (Auth (refresh_call ''t''))), Process,
     Serve (demo_deposit_request (Some ann_token)), Wait 60000, Cleanup]"

lemma demo_confined: "adapters_confined (app_registry demo_app)"
  unfolding demo_app_def demo_registry_def app.simps by (rule payment_registry_confined)

text \<open>
  C10. The books of the service are append-only: no request and no job alters or drops a
  ledger entry, a payment log or an audit line, and of a stored transaction, outbox event,
  wallet or user the identifying columns (key, type, amount, currency, parties, provider,
  payload, owner, creation time) never change and their order is kept.
\<close>

theorem records_append_only:
  assumes "adapters_confined (app_registry app)"
  shows "history w (happen app acts w)"
  by (rule writes_history [OF happen_writes [OF assms]])

theorem records_append_only_witness:
  "prefix (map user_fixed (users (db demo_registered))) (map user_fixed (users (db (happen demo_app demo_day demo_registered))))"
  using records_append_only [OF demo_confined, of demo_registered demo_day] by (simp add: history_def)

text \<open>
  C9. Only administrators grant rights: over any run a user's role stays, a status changes
  to \<open>CLOSED\<close> only, and new users have the role \<open>USER\<close>, unless the run holds a call of the
  one administrative method whose request carried a token with the role \<open>ADMIN\<close> that was
  accepted at that moment.
\<close>

theorem only_administrators_grant:
  assumes "adapters_confined (app_registry app)"
  shows "rights_stable w (happen app acts w)
    \<or> (\<exists>before rq after p. acts = before @ Serve rq # after \<and> is_grant (rq_call rq)
        \<and> rq_verified rq = Some p \<and> jp_role p = ADMIN \<and> token_accepted p (happen app before w))"
  by (rule rights_or_grant [OF assms])

theorem only_administrators_grant_witness: "rights_stable demo_registered (happen demo_app demo_day demo_registered)"
  using only_administrators_grant [OF demo_confined, of demo_registered demo_day]
  by (auto simp: demo_day_def demo_request_def demo_deposit_request_def Cons_eq_append_conv)

text \<open>
  C8. A revoked refresh token is dead: until it expires its row stays as it is, whatever
  happens, so it can be rotated at most once; presenting it again never opens a session.
\<close>

theorem revoked_token_is_dead:
  assumes "adapters_confined (app_registry app)" and "schema_ok (db w)"
    and "r \<in> set (refreshTokens (db w))" and "revokedAt r \<noteq> None"
    and "clock (happen app acts w) \<le> expiresAt r"
  shows "r \<in> set (refreshTokens (db (happen app acts w)))
    \<and> (\<exists>e. rotateRefreshToken (tokenHash r) u h x (happen app acts w) = (Inl e, happen app acts w))
    \<and> (env_valid env \<and> token_hash env raw = tokenHash r \<longrightarrow>
        same_sessions (happen app acts w) (snd (refresh env raw ua (happen app acts w))))"
proof -
  note run = happen_writes [OF assms(1), of acts w]
  note start = assms(2) [unfolded schema_tables]
  have "tables_ok (db (happen app acts w))" by (rule writes_schema [OF run start])
  moreover have "r \<in> set (refreshTokens (db (happen app acts w)))" by (rule writes_revoked [OF run start assms(3-5)])
  ultimately show ?thesis using rotate_revoked refresh_revoked assms(4) by blast
qed

lemma demo_schema: "schema_ok (db (demo_logged_in (Some 900000)))"
  by (simp add: schema_ok_def unique_col_def demo_logged_in_def
    demo_registered_def demo_session_def demo_wallet_def ann_def bob_def new_user_def demo_user_def has_defs
    decimal_fits_def)

theorem revoked_token_is_dead_witness:
  "\<exists>e. rotateRefreshToken ''hraw'' ''id0'' ''h'' 0 (happen demo_app [Wait 60000] (demo_logged_in (Some 900000)))
     = (Inl e, happen demo_app [Wait 60000] (demo_logged_in (Some 900000)))"
proof -
  have "clock (happen demo_app [Wait 60000] (demo_logged_in (Some 900000))) \<le> expiresAt (demo_session (Some 900000))"
    by (simp add: happen_def demo_session_def)
  from revoked_token_is_dead [OF demo_confined demo_schema _ _ this] show ?thesis
    by (simp add: demo_session_def)
qed

text \<open>
  C11. Every wallet stays an active USD wallet: no activity changes a wallet's currency or
  status, so a deposit, withdrawal, confirmation, payout or transfer in EUR or GBP always
  throws, and freezing a user never freezes the wallet.
\<close>

theorem wallets_stay_usd:
  assumes "adapters_confined (app_registry app)" and "usd_wallets w"
  shows "usd_wallets (happen app acts w)
    \<and> (dto_currency d \<noteq> USD \<longrightarrow> (\<exists>e. fst (deposit_block u d (happen app acts w)) = Inl e)
        \<and> (\<exists>e. fst (withdraw_block u d (happen app acts w)) = Inl e))
    \<and> (dto_currency cd \<noteq> USD \<longrightarrow> (\<exists>e. fst (confirmDeposit_block u cd (happen app acts w)) = Inl e))
    \<and> (dto_currency cp \<noteq> USD \<longrightarrow> (\<exists>e. fst (createPayout_block u cp (happen app acts w)) = Inl e))
    \<and> (dto_currency td \<noteq> USD \<longrightarrow> (\<exists>e. fst (transfer_block u td x y (happen app acts w)) = Inl e))"
proof -
  have "usd_wallets (happen app acts w)" by (rule writes_usd [OF happen_writes [OF assms(1)] assms(2)])
  with usd_blocks [OF this] show ?thesis by blast
qed

theorem wallets_stay_usd_witness:
  "usd_wallets (happen demo_app demo_day demo_start)
   \<and> (\<exists>e. fst (deposit_block ''id0'' \<lparr>amount = 1, dto_currency = EUR, dto_idempotencyKey = ''k'', description = None\<rparr>
        (happen demo_app demo_day demo_start)) = Inl e)"
  using wallets_stay_usd [OF demo_confined, of demo_start demo_day "\<lparr>amount = 1, dto_currency = EUR,
    dto_idempotencyKey = ''k'', description = None\<rparr>"] by (simp add: usd_wallets_def empty_db_def)

end
