(* ===== verification/Ledger.thy ===== *)
theory Ledger
  imports Demo
begin

text \<open>
  The ledger against the transactions. Entries are written by the internal deposit and
  withdrawal flows when they start, by a transfer, and by the settlement of a provider
  payment; nothing ever changes or deletes one. Shown here is what the entries of a stored
  transaction are in every reachable state of the system, so under every interleaving of the
  blocks, with the provider calls and processor runs in between.
\<close>

section \<open>The entries of a transaction\<close>

text \<open>An entry of a transaction: its amount, its currency, and the wallet of its side.\<close>

definition entry_of :: "transaction \<Rightarrow> ledger_entry \<Rightarrow> bool" where
  "entry_of t e \<longleftrightarrow> le_transactionId e = tx_id t \<and> le_amount e = tx_amount t \<and> le_currency e = tx_currency t
     \<and> (case direction e of DEBIT \<Rightarrow> senderWalletId t = Some (le_walletId e)
        | CREDIT \<Rightarrow> receiverWalletId t = Some (le_walletId e))"

text \<open>
  Which entries a transaction has: a transfer its two sides, a provider payment one once it
  is settled and none before or when it failed, and no settled transaction is without one.
\<close>

definition entries_fit :: "transaction \<Rightarrow> ledger_entry list \<Rightarrow> bool" where
  "entries_fit t es \<longleftrightarrow>
     (tx_type t = TRANSFER \<longrightarrow> map direction es = [DEBIT, CREDIT])
   \<and> (tx_type t \<noteq> TRANSFER \<longrightarrow> tx_provider t \<noteq> Some INTERNAL \<longrightarrow>
        length es = (if tx_status t = SETTLED then 1 else 0))
   \<and> (tx_status t = SETTLED \<longrightarrow> es \<noteq> [])"

definition entries_for :: "db \<Rightarrow> uuid \<Rightarrow> ledger_entry list" where
  "entries_for d i = filter (\<lambda>e. le_transactionId e = i) (ledgerEntries d)"

definition ledger_ok :: "db \<Rightarrow> bool" where
  "ledger_ok d \<longleftrightarrow> list_all (\<lambda>e. list_ex (\<lambda>t. entry_of t e) (transactions d)) (ledgerEntries d)
     \<and> list_all (\<lambda>t. entries_fit t (entries_for d (tx_id t))) (transactions d)"

lemma ledger_same:
  "transactions d' = transactions d \<Longrightarrow> ledgerEntries d' = ledgerEntries d \<Longrightarrow> ledger_ok d \<Longrightarrow> ledger_ok d'"
  by (simp add: ledger_ok_def entries_for_def)

text \<open>A new transaction comes with its entries.\<close>

lemma ledger_post:
  assumes ok: "ledger_ok d" and new: "\<forall>s \<in> set (transactions d). tx_id s \<noteq> tx_id t"
    and d': "transactions d' = transactions d @ [t]" "ledgerEntries d' = ledgerEntries d @ es"
    and es: "list_all (entry_of t) es" "entries_fit t es"
  shows "ledger_ok d'"
proof -
  have old: "le_transactionId e \<noteq> tx_id t" if "e \<in> set (ledgerEntries d)" for e
    using ok new that by (fastforce simp: ledger_ok_def list_all_iff list_ex_iff entry_of_def)
  then have none: "filter (\<lambda>e. le_transactionId e = tx_id t) (ledgerEntries d) = []" by simp
  have own: "filter (\<lambda>e. le_transactionId e = tx_id t) es = es"
    using es(1) by (simp add: filter_id_conv list_all_iff entry_of_def)
  have other: "filter (\<lambda>e. le_transactionId e = tx_id s) es = []" if "s \<in> set (transactions d)" for s
    using es(1) new that by (auto simp: filter_empty_conv list_all_iff entry_of_def)
  show ?thesis
    using ok es by (auto simp: ledger_ok_def entries_for_def d' list_all_iff list_ex_iff none own other)
qed

text \<open>A transaction is resolved: when it is settled it gets one more entry, and none when it fails.\<close>

lemma ledger_resolve:
  assumes ok: "ledger_ok d" and uniq: "distinct (map tx_id (transactions d))"
    and c: "c \<in> set (transactions d)" "tx_status c = INITIATED" "tx_type c \<noteq> TRANSFER"
    and d': "list_all2 (tx_resolved (tx_id c) st) (transactions d) (transactions d')"
      "ledgerEntries d' = ledgerEntries d @ es"
    and es: "list_all (entry_of c) es" "length es = (if st = SETTLED then 1 else 0)"
  shows "ledger_ok d'"
proof -
  have one: "s = c" if "s \<in> set (transactions d)" "tx_id s = tx_id c" for s
    using uniq c(1) that by (auto simp: distinct_map dest: inj_onD)
  have fwd: "\<exists>t' \<in> set (transactions d'). tx_resolved (tx_id c) st t t'" if "t \<in> set (transactions d)" for t
    using d'(1) that by (metis in_set_conv_nth list_all2_conv_all_nth)
  have bwd: "\<exists>t \<in> set (transactions d). tx_resolved (tx_id c) st t t'" if "t' \<in> set (transactions d')" for t'
    using d'(1) that by (metis in_set_conv_nth list_all2_conv_all_nth)
  have entry: "entry_of t' e" if "entry_of t e" "tx_resolved (tx_id c) st t t'" for t t' e
    using that by (auto simp: entry_of_def tx_resolved_def same_payment_def split: if_splits entry_direction.splits)
  have all: "\<exists>t' \<in> set (transactions d'). entry_of t' e" if "e \<in> set (ledgerEntries d')" for e
  proof -
    have "\<exists>t \<in> set (transactions d). entry_of t e"
      using that ok es(1) c(1) by (auto simp: d'(2) ledger_ok_def list_all_iff list_ex_iff)
    with fwd entry show ?thesis by blast
  qed
  have "entries_fit t' (entries_for d' (tx_id t'))" if t': "t' \<in> set (transactions d')" for t'
  proof -
    from bwd [OF t'] obtain t where t: "t \<in> set (transactions d)" "tx_resolved (tx_id c) st t t'" by blast
    then have was: "entries_fit t (entries_for d (tx_id t))" and id: "tx_id t' = tx_id t"
      using ok by (auto simp: ledger_ok_def list_all_iff tx_resolved_def same_payment_def split: if_splits)
    show ?thesis
    proof (cases "tx_id t = tx_id c")
      case True
      with one t(1) have "t = c" by blast
      moreover have "filter (\<lambda>e. le_transactionId e = tx_id c) es = es"
        using es(1) by (simp add: filter_id_conv list_all_iff entry_of_def)
      ultimately show ?thesis
        using was t(2) c(2,3) es(2) id
        by (auto simp: entries_fit_def entries_for_def d'(2) tx_resolved_def same_payment_def)
    next
      case False
      then have "filter (\<lambda>e. le_transactionId e = tx_id t) es = []"
        using es(1) by (auto simp: filter_empty_conv list_all_iff entry_of_def)
      with False was t(2) show ?thesis by (simp add: entries_for_def d'(2) tx_resolved_def)
    qed
  qed
  with all show ?thesis by (simp add: ledger_ok_def list_all_iff list_ex_iff)
qed

section \<open>The blocks\<close>

lemma posted_entries:
  assumes "posted t ls ev w w'"
  shows "transactions (db w') = transactions (db w) @ [t]"
    and "ledgerEntries (db w') = ledgerEntries (db w) @
      map (\<lambda>(n, (i, l)). new_ledgerEntry i l (uuids w (uuid_next w + 1 + n)) (clock w)) (zip [0..<length ls] ls)"
    and "\<forall>s \<in> set (transactions (db w)). tx_id s \<noteq> tx_id t"
  using assms by (auto simp: posted_def fresh_row_def)

text \<open>What the two internal flows write when they start.\<close>

lemma deposit_block_entry:
  "wp (deposit_block u dto) (\<lambda>t w'. \<exists>i l ev v. posted t [(i, l)] ev v w'
      \<and> transactions (db v) = transactions (db w) \<and> ledgerEntries (db v) = ledgerEntries (db w)
      \<and> tx_type t = DEPOSIT \<and> tx_status t = INITIATED \<and> tx_provider t = Some INTERNAL \<and> receiverWalletId t = Some i
      \<and> li_transactionId l = tx_id t \<and> li_direction l = CREDIT \<and> li_amount l = tx_amount t \<and> li_currency l = tx_currency t)
   (\<lambda>_ w'. db w' = db w) w"
  unfolding deposit_block_def wp_withTransaction_db
  by (intro wlp_intros initiateDeposit_run, (intro exI conjI, assumption)+) (auto simp: new_transaction_def)

lemma withdraw_block_entry:
  "wp (withdraw_block u dto) (\<lambda>t w'. \<exists>i l ev v. posted t [(i, l)] ev v w'
      \<and> transactions (db v) = transactions (db w) \<and> ledgerEntries (db v) = ledgerEntries (db w)
      \<and> tx_type t = WITHDRAWAL \<and> tx_status t = INITIATED \<and> tx_provider t = Some INTERNAL \<and> senderWalletId t = Some i
      \<and> li_transactionId l = tx_id t \<and> li_direction l = DEBIT \<and> li_amount l = tx_amount t \<and> li_currency l = tx_currency t)
   (\<lambda>_ w'. db w' = db w) w"
  unfolding withdraw_block_def wp_withTransaction_db
  by (intro wlp_intros initiateWithdrawal_run, (intro exI conjI, assumption)+) (auto simp: new_transaction_def)

definition posted_rows :: "(uuid \<times> CreateLedgerEntryInput) list \<Rightarrow> world \<Rightarrow> ledger_entry list" where
  "posted_rows ls v = map (\<lambda>(n, (i, l)). new_ledgerEntry i l (uuids v (uuid_next v + 1 + n)) (clock v)) (zip [0..<length ls] ls)"

lemma posted_ledger:
  assumes "ledger_ok (db w)" and "posted t ls ev v w'"
    and "transactions (db v) = transactions (db w)" and "ledgerEntries (db v) = ledgerEntries (db w)"
    and "list_all (entry_of t) (posted_rows ls v)" and "entries_fit t (posted_rows ls v)"
  shows "ledger_ok (db w')"
  by (rule ledger_post [OF assms(1), of t _ "posted_rows ls v"])
     (use posted_entries [OF assms(2)] assms(3-6) in \<open>simp_all add: posted_rows_def\<close>)

lemmas entry_simps = entry_of_def entries_fit_def new_ledgerEntry_def posted_rows_def upt_rec

lemma block_ledgers:
  assumes ok: "ledger_ok (db w)"
  shows "ledger_ok (db (snd (deposit_block u dto w)))" and "ledger_ok (db (snd (withdraw_block u dto w)))"
    and "w_id sw \<noteq> w_id rw \<Longrightarrow> ledger_ok (db (snd (transfer_block u tdto sw rw w)))"
    and "ledger_ok (db (snd (confirmDeposit_block u cdto w)))" and "ledger_ok (db (snd (createPayout_block u pdto w)))"
proof -
  show "ledger_ok (db (snd (deposit_block u dto w)))"
    by (rule wp_keeps [where I = ledger_ok, OF deposit_block_entry])
       (auto elim!: posted_ledger [OF ok] simp: entry_simps ok)
  show "ledger_ok (db (snd (withdraw_block u dto w)))"
    by (rule wp_keeps [where I = ledger_ok, OF withdraw_block_entry])
       (auto elim!: posted_ledger [OF ok] simp: entry_simps ok)
  show "ledger_ok (db (snd (transfer_block u tdto sw rw w)))" if "w_id sw \<noteq> w_id rw"
    by (rule wp_keeps [where I = ledger_ok, OF transfer_block_run [OF that]])
       (auto elim!: posted_ledger [OF ok] simp: entry_simps transfer_entries_def ok)
  show "ledger_ok (db (snd (confirmDeposit_block u cdto w)))"
    by (rule wp_keeps [where I = ledger_ok, OF confirmDeposit_block_run])
       (auto elim!: posted_ledger [OF ok] simp: entry_simps ok)
  show "ledger_ok (db (snd (createPayout_block u pdto w)))"
    by (rule wp_keeps [where I = ledger_ok, OF createPayout_block_run])
       (auto elim!: posted_ledger [OF ok] simp: entry_simps ok)
qed

section \<open>Settling and failing\<close>

definition entry_added :: "entry_direction \<Rightarrow> uuid option \<Rightarrow> TransactionContext \<Rightarrow> world \<Rightarrow> world \<Rightarrow> bool" where
  "entry_added side i c w w' \<longleftrightarrow> (\<exists>e. ledgerEntries (db w') = ledgerEntries (db w) @ [e]
     \<and> le_transactionId e = tc_id c \<and> direction e = side \<and> i = Some (le_walletId e)
     \<and> le_amount e = tc_amount c \<and> le_currency e = tc_currency c)"

lemma settle_paths_entry:
  "wp (settleDeposit_path c ev r) (\<lambda>_ w'. entry_added CREDIT (tc_receiverWalletId c) c w w') (\<lambda>_ _. True) w"
  "wp (settleWithdrawal_path c ev r) (\<lambda>_ w'. entry_added DEBIT (tc_senderWalletId c) c w w') (\<lambda>_ _. True) w"
  unfolding settleDeposit_path_def settleWithdrawal_path_def
  by (intro wlp_intros wp_partial_ledgerEntry_create, simp only: Let_def, intro wlp_intros,
      simp_all add: entry_added_def new_ledgerEntry_def)+

lemma fail_paths_entry:
  "wp (failDeposit_path c ev r) (\<lambda>_ w'. ledgerEntries (db w') = ledgerEntries (db w)) (\<lambda>_ _. True) w"
  "wp (failWithdrawal_path c ev r) (\<lambda>_ w'. ledgerEntries (db w') = ledgerEntries (db w)) (\<lambda>_ _. True) w"
  unfolding failDeposit_path_def failWithdrawal_path_def
  by (intro wlp_intros wlp_fail_wallet [where da = 0 and dl = 0 and dp = "- tc_amount c"]; simp add: wallets_t_def move_def)
     (intro wlp_intros wlp_fail_wallet [where da = "tc_amount c" and dl = "- tc_amount c" and dp = 0]; simp add: wallets_t_def move_def)

text \<open>The transaction a path resolves was pending: a payment log would have stopped it.\<close>

lemma resolved_pending:
  assumes "books_ok (db w)" and "context_in c (db w)" and "tc_type c \<noteq> TRANSFER" and "resolved st i da dl dp (tc_id c) w w'"
  obtains t where "t \<in> set (transactions (db w))" and "context_of c t" and "tx_status t = INITIATED"
proof -
  from assms(2) obtain t where t: "t \<in> set (transactions (db w))" "context_of c t"
    by (auto simp: context_in_def list_ex_iff)
  moreover have "\<not> logged (paymentLogs (db w)) (tc_id c)"
    using assms(4) by (auto simp: resolved_def logged_def list_ex_iff)
  ultimately have "tx_status t = INITIATED"
    using assms(1,3) by (auto simp: books_ok_def log_ok_def context_of_def)
  with t show ?thesis by (rule that)
qed

lemma resolved_ledger:
  assumes ok: "ledger_ok (db w)" "books_ok (db w)" "context_in c (db w)" and ty: "tc_type c \<noteq> TRANSFER"
    and r: "resolved st i da dl dp (tc_id c) w w'" and rows: "ledgerEntries (db w') = ledgerEntries (db w) @ es"
    and es: "length es = (if st = SETTLED then 1 else 0)"
      "\<And>t. context_of c t \<Longrightarrow> list_all (entry_of t) es"
  shows "ledger_ok (db w')"
proof -
  obtain t where t: "t \<in> set (transactions (db w))" "context_of c t" "tx_status t = INITIATED"
    by (rule resolved_pending [OF ok(2,3) ty r])
  show ?thesis
    by (rule ledger_resolve [OF ok(1) _ t(1,3), where st = st and es = es])
       (use t(2) ty r rows es ok(2) in \<open>auto simp: context_of_def resolved_def books_ok_def\<close>)
qed

lemma settled_ledger:
  assumes "ledger_ok (db w)" and "books_ok (db w)" and "context_in c (db w)" and "tc_type c \<noteq> TRANSFER"
    and "resolved SETTLED i da dl dp (tc_id c) w w'" and "entry_added side j c w w'"
    and "side = CREDIT \<and> j = tc_receiverWalletId c \<or> side = DEBIT \<and> j = tc_senderWalletId c"
  shows "ledger_ok (db w')"
proof -
  from assms(6) obtain e where e: "ledgerEntries (db w') = ledgerEntries (db w) @ [e]"
    "le_transactionId e = tc_id c" "direction e = side" "j = Some (le_walletId e)"
    "le_amount e = tc_amount c" "le_currency e = tc_currency c" by (auto simp: entry_added_def)
  show ?thesis
    by (rule resolved_ledger [OF assms(1-5) e(1)]) (use e assms(7) in \<open>auto simp: entry_of_def context_of_def\<close>)
qed

lemma settle_ledger:
  assumes "ledger_ok (db w)" and "books_ok (db w)" and "context_in c (db w)"
  shows "ledger_ok (db (snd (settle c ev r w)))"
  unfolding settle_def audit_log_def
  by (rule keeps_transaction [where I = ledger_ok])
     (auto intro!: wlp_if wlp_throw wp_mono [OF wp_conj [OF settleDeposit_path_run settle_paths_entry(1)]]
         wp_mono [OF wp_conj [OF settleWithdrawal_path_run settle_paths_entry(2)]]
       elim!: settled_ledger [OF assms, rotated] simp: assms)

lemma fail_ledger:
  assumes "ledger_ok (db w)" and "books_ok (db w)" and "context_in c (db w)"
  shows "ledger_ok (db (snd (fail c ev r w)))"
  unfolding fail_def audit_warn_def
  by (rule keeps_transaction [where I = ledger_ok])
     (auto intro!: wlp_if wlp_throw wp_mono [OF wp_conj [OF failDeposit_path_run fail_paths_entry(1)]]
         wp_mono [OF wp_conj [OF failWithdrawal_path_run fail_paths_entry(2)]]
       elim!: resolved_ledger [OF assms, rotated, where es = "[]"] simp: assms)

lemma same_books_ledger: "same_books w w' \<Longrightarrow> ledger_ok (db w) \<Longrightarrow> ledger_ok (db w')"
  by (rule ledger_same [where d = "db w"]) (simp_all add: same_books_def)

lemma dispatch_ledger:
  assumes "ledger_ok (db w)" and "books_ok (db w)" and "context_in c (db w)"
  shows "ledger_ok (db (snd (dispatch c e r w)))"
  using settle_ledger [OF assms] fail_ledger [OF assms] markDelivered_same_books [of e] assms(1)
  by (auto simp: dispatch_def Let_def within_def intro: same_books_ledger)

section \<open>Every reachable state\<close>

lemma create_user_ledger: "ledger_ok (db w) \<Longrightarrow> ledger_ok (db (snd (create_user_block dto w)))"
proof (rule wp_keeps [where I = ledger_ok and Q = "\<lambda>_ w'. transactions (db w') = transactions (db w)
    \<and> ledgerEntries (db w') = ledgerEntries (db w)"])
  show "wp (create_user_block dto) (\<lambda>_ w'. transactions (db w') = transactions (db w)
      \<and> ledgerEntries (db w') = ledgerEntries (db w)) (\<lambda>_ w'. db w' = db w) w"
    unfolding create_user_block_def wp_withTransaction_db
    by (intro wlp_intros wp_partial_create) (simp add: users_t_def wallets_t_def)
qed (auto intro: ledger_same)

lemma run_task_ledger:
  assumes "ledger_ok (db w)" and "books_ok (db w)" and "task_ok (db w) k"
  shows "ledger_ok (db (run_task k w))"
  using assms by (cases k) (simp_all add: block_ledgers dispatch_ledger)

lemma step_ledger:
  assumes "step reg s s'" and "adapters_ok reg" and "sys_ok s" and "ledger_ok (db (fst s))"
  shows "ledger_ok (db (fst s'))"
  using assms(1,3,4)
proof (induction rule: step.induct)
  case (provider_call t w p a q r w' ts u e)
  then show ?case using process_same_db [OF assms(2)] by simp
next
  case (commit w ts k us)
  then show ?case using run_task_ledger [of w k] by (simp add: sys_ok_def)
next
  case (registration w ts d)
  then show ?case using create_user_ledger by simp
next
  case (elsewhere w w' ts)
  then show ?case using same_books_ledger by simp
qed simp_all

lemma reachable_ledger:
  assumes "reachable reg s" and "adapters_ok reg"
  shows "ledger_ok (db (fst s))"
  using assms(1)
proof (induction rule: reachable.induct)
  case (start w)
  then show ?case by (simp add: ledger_ok_def empty_db_def)
next
  case (more s s')
  then show ?case using step_ledger [OF more(2) assms(2)] reachable_sys_ok [OF more(1) assms(2)] by simp
qed

text \<open>
  C7. The ledger agrees with the transactions: in every reachable state each ledger entry
  belongs to a stored transaction, with its amount, its currency and the wallet of its side
  (debits at the sender, credits at the receiver); a transfer has exactly one debit and one
  credit; a payment through a provider has exactly one entry once it is settled and none
  while it is pending or after it failed; and no settled transaction is without an entry.
\<close>

theorem ledger_matches_transactions:
  assumes "reachable reg (w, ts)" and "adapters_ok reg"
  shows "(\<forall>e \<in> set (ledgerEntries (db w)). \<exists>t \<in> set (transactions (db w)). entry_of t e)
    \<and> (\<forall>t \<in> set (transactions (db w)). entries_fit t (entries_for (db w) (tx_id t)))"
  using reachable_ledger [OF assms] by (simp add: ledger_ok_def list_all_iff list_ex_iff)

theorem ledger_matches_transactions_witness:
  "entries_fit (demo_deposit SETTLED (Some ''sale1'') (Some 1000000)) (entries_for demo_settled_db ''id4'')
   \<and> length (entries_for demo_settled_db ''id4'') = 1"
proof -
  have "entries_fit (demo_deposit SETTLED (Some ''sale1'') (Some 1000000)) (entries_for demo_settled_db ''id4'')"
    using ledger_matches_transactions [OF demo_settled_reachable demo_registry_ok]
    by (simp add: demo_settled_db_def demo_deposit_def)
  then show ?thesis by (simp add: entries_for_def demo_settled_db_def)
qed

section \<open>The balance a ledger gives\<close>

definition signed :: "uuid \<Rightarrow> ledger_entry \<Rightarrow> decimal" where
  "signed i e = (if le_walletId e = i then case direction e of CREDIT \<Rightarrow> le_amount e | DEBIT \<Rightarrow> - le_amount e else 0)"

lemma sum_list_none: "(\<And>x. x \<in> set xs \<Longrightarrow> f x = 0) \<Longrightarrow> sum_list (map f xs) = (0 :: int)"
  by (induction xs) auto

lemma sum_one_key:
  assumes "distinct (map k ts)" and "t \<in> set ts"
  shows "(\<Sum>s \<leftarrow> ts. if k s = k t then a else 0) = (a :: int)"
  using assms
proof (induction ts)
  case (Cons s ts)
  have none: "(\<Sum>s \<leftarrow> us. if k s = c then a else 0) = 0" if "c \<notin> k ` set us" for us c
    using that by (induction us) auto
  from Cons show ?case by (cases "k s = k t") (auto simp: none image_iff)
qed simp

lemma entry_of_unique:
  assumes "books_ok d" and "ledger_ok d" and "t \<in> set (transactions d)"
    and "e \<in> set (ledgerEntries d) \<and> le_transactionId e = tx_id t"
  shows "entry_of t e"
proof -
  from assms(2,4) have "\<exists>s \<in> set (transactions d). entry_of s e" by (simp add: ledger_ok_def list_all_iff list_ex_iff)
  then obtain s where s: "s \<in> set (transactions d)" "entry_of s e" by blast
  with assms(4) have "tx_id s = tx_id t" by (simp add: entry_of_def)
  with tx_unique [OF assms(1) s(1) assms(3)] s(2) show ?thesis by simp
qed

text \<open>Summing over the ledger is summing over the entries of each transaction.\<close>

lemma sum_by_transaction:
  fixes f :: "ledger_entry \<Rightarrow> int"
  assumes "ledger_ok d" and "distinct (map tx_id (transactions d))"
  shows "sum_list (map f (ledgerEntries d)) = (\<Sum>t \<leftarrow> transactions d. sum_list (map f (entries_for d (tx_id t))))"
proof -
  have part: "(\<Sum>e \<leftarrow> es. if i = le_transactionId e then f e else 0) = sum_list (map f (filter (\<lambda>e. le_transactionId e = i) es))"
    for i es by (induction es) auto
  have "f e = (\<Sum>t \<leftarrow> transactions d. if tx_id t = le_transactionId e then f e else 0)" if "e \<in> set (ledgerEntries d)" for e
  proof -
    from assms(1) that have "\<exists>t \<in> set (transactions d). entry_of t e"
      by (simp add: ledger_ok_def list_all_iff list_ex_iff)
    then obtain t where "t \<in> set (transactions d)" "le_transactionId e = tx_id t" by (auto simp: entry_of_def)
    with sum_one_key [OF assms(2), of t "f e"] show ?thesis by simp
  qed
  then have "sum_list (map f (ledgerEntries d))
      = (\<Sum>e \<leftarrow> ledgerEntries d. \<Sum>t \<leftarrow> transactions d. if tx_id t = le_transactionId e then f e else 0)"
    by (intro arg_cong [where f = sum_list] map_cong) simp_all
  also have "\<dots> = (\<Sum>t \<leftarrow> transactions d. \<Sum>e \<leftarrow> ledgerEntries d. if tx_id t = le_transactionId e then f e else 0)"
    by (rule sum_list_swap)
  finally show ?thesis by (simp only: part entries_for_def)
qed

text \<open>A transaction's entries at a wallet are what it moved in the wallet's available and locked funds.\<close>

lemma entries_share:
  assumes "tx_ok t" and "entries_fit t es" and "list_all (entry_of t) es"
    and "tx_type t \<noteq> TRANSFER \<longrightarrow> tx_provider t \<noteq> Some INTERNAL"
  shows "sum_list (map (signed i) es) = available_share i t + locked_share i t"
proof (cases "tx_type t = TRANSFER")
  case True
  then obtain a b where "es = [a, b]" "direction a = DEBIT" "direction b = CREDIT"
    using assms(2) by (auto simp: entries_fit_def map_eq_Cons_conv)
  with True assms(1,3) show ?thesis
    by (auto simp: signed_def entry_of_def share_defs tx_ok_def)
next
  case False
  with assms(2,4) have n: "length es = (if tx_status t = SETTLED then 1 else 0)" by (simp add: entries_fit_def)
  show ?thesis
  proof (cases "tx_status t = SETTLED")
    case True
    with n obtain e where "es = [e]" by (auto simp: length_Suc_conv)
    with False True assms(1,3) show ?thesis
      by (cases "tx_type t") (auto simp: signed_def entry_of_def share_defs tx_ok_def split: entry_direction.splits)
  next
    case open': False
    with n have "es = []" by simp
    with False open' assms(1) show ?thesis
      by (cases "tx_type t"; cases "tx_status t") (auto simp: share_defs tx_ok_def)
  qed
qed

text \<open>
  C38. The ledger gives the balance: in every reachable state, the credits less the debits a
  ledger holds for a wallet are the wallet's available and locked funds together, provided
  every deposit and withdrawal at the wallet went through a payment provider. (The wallet
  service's own deposits and withdrawals have their entry from the start, whatever becomes
  of them.)
\<close>

theorem ledger_gives_balance:
  assumes "reachable reg (w, ts)" and "adapters_ok reg" and "x \<in> set (wallets (db w))"
    and "\<forall>t \<in> set (transactions (db w)). tx_type t \<noteq> TRANSFER \<longrightarrow>
      senderWalletId t = Some (w_id x) \<or> receiverWalletId t = Some (w_id x) \<longrightarrow> tx_provider t \<noteq> Some INTERNAL"
  shows "sum_list (map (signed (w_id x)) (ledgerEntries (db w))) = availableBalance x + lockedBalance x"
proof -
  have books: "books_ok (db w)" using reachable_sys_ok [OF assms(1,2)] by (simp add: sys_ok_def)
  have ledger: "ledger_ok (db w)" using reachable_ledger [OF assms(1,2)] by simp
  have share: "sum_list (map (signed (w_id x)) (entries_for (db w) (tx_id t)))
      = available_share (w_id x) t + locked_share (w_id x) t" if t: "t \<in> set (transactions (db w))" for t
  proof (cases "tx_type t \<noteq> TRANSFER \<and> tx_provider t = Some INTERNAL")
    case True
    with assms(4) t have "senderWalletId t \<noteq> Some (w_id x)" "receiverWalletId t \<noteq> Some (w_id x)" by blast+
    moreover have "signed (w_id x) e = 0" if "e \<in> set (entries_for (db w) (tx_id t))" for e
    proof -
      have "entry_of t e" using entry_of_unique [OF books ledger t] that by (simp add: entries_for_def)
      then show ?thesis using calculation by (auto simp: entry_of_def signed_def split: entry_direction.splits)
    qed
    then have "sum_list (map (signed (w_id x)) (entries_for (db w) (tx_id t))) = 0"
      by (rule sum_list_none)
    ultimately show ?thesis by (simp add: share_defs)
  next
    case False
    have "list_all (entry_of t) (entries_for (db w) (tx_id t))"
      using entry_of_unique [OF books ledger t] by (simp add: list_all_iff entries_for_def)
    with False books ledger t show ?thesis
      by (intro entries_share) (auto simp: books_ok_def ledger_ok_def list_all_iff)
  qed
  have "sum_list (map (signed (w_id x)) (ledgerEntries (db w)))
      = (\<Sum>t \<leftarrow> transactions (db w). available_share (w_id x) t + locked_share (w_id x) t)"
    unfolding sum_by_transaction [OF ledger books [unfolded books_ok_def, THEN conjunct2, THEN conjunct2, THEN conjunct1]]
    by (rule arg_cong [where f = sum_list], rule map_cong [OF refl share])
  also have "\<dots> = total (available_share (w_id x)) (transactions (db w)) + total (locked_share (w_id x)) (transactions (db w))"
    by (simp add: total_def sum_list_addf)
  finally show ?thesis using books assms(3) by (simp add: books_ok_def wallet_balanced_def)
qed

theorem ledger_gives_balance_witness:
  "sum_list (map (signed ''id1'') (ledgerEntries demo_settled_db)) = 1000000"
proof -
  have "sum_list (map (signed (w_id (demo_wallet ''id0'' ''id1'' 1000000 0 0))) (ledgerEntries (db demo_settled)))
      = availableBalance (demo_wallet ''id0'' ''id1'' 1000000 0 0) + lockedBalance (demo_wallet ''id0'' ''id1'' 1000000 0 0)"
    by (rule ledger_gives_balance [OF demo_settled_reachable demo_registry_ok])
       (simp_all add: demo_settled_db_def demo_deposit_def)
  then show ?thesis by (simp add: demo_wallet_def)
qed

end
