(* ===== verification/Session_Races.thy ===== *)
theory Session_Races
  imports Auth_Repo
begin

text \<open>
  \<open>createSessionAtomic\<close> step by step. Its transaction takes the user's advisory lock, counts the
  active sessions, chooses the oldest one to evict, and commits the eviction with the new
  session; between these statements other requests commit. Shown is that with the lock the
  session limit holds while sessions are only created and revoked, and that a refresh token
  rotated in between, which takes no lock, breaks it.
\<close>

section \<open>Logins side by side\<close>

text \<open>How far a transaction of \<open>createSessionAtomic\<close> has come.\<close>

datatype phase = Waits | Holds | Counted nat | Chosen "uuid option"

record login_run =
  lg_user :: uuid
  lg_hash :: string
  lg_expires :: instant
  lg_phase :: phase

text \<open>Clock, committed refresh tokens, running transactions.\<close>

type_synonym sessions = "instant \<times> refresh_token list \<times> login_run list"

definition waiting :: "uuid \<Rightarrow> string \<Rightarrow> instant \<Rightarrow> login_run" where
  "waiting u h x = \<lparr>lg_user = u, lg_hash = h, lg_expires = x, lg_phase = Waits\<rparr>"

text \<open>The advisory lock of a user is free.\<close>

definition lock_free :: "uuid \<Rightarrow> login_run list \<Rightarrow> bool" where
  "lock_free u ls \<longleftrightarrow> (\<forall>l \<in> set ls. lg_user l = u \<longrightarrow> lg_phase l = Waits)"

definition choose_evicted :: "nat \<Rightarrow> nat \<Rightarrow> uuid \<Rightarrow> instant \<Rightarrow> refresh_token list \<Rightarrow> uuid option" where
  "choose_evicted m c u d rs =
     (if m \<le> c then map_option rt_id (oldest_session (filter (active_session u d) rs)) else None)"

definition evicted :: "uuid option \<Rightarrow> instant \<Rightarrow> refresh_token list \<Rightarrow> refresh_token list" where
  "evicted ev d rs = (case ev of None \<Rightarrow> rs | Some i \<Rightarrow> map (revoke_row i d) rs)"

text \<open>Rows revoked or deleted, none created or revived: logout, password change, clean-up.\<close>

definition released :: "refresh_token list \<Rightarrow> refresh_token list \<Rightarrow> bool" where
  "released rs rs' \<longleftrightarrow> (\<exists>f p. rs' = map f (filter p rs) \<and> (\<forall>r. rt_id (f r) = rt_id r \<and> rt_userId (f r) = rt_userId r
     \<and> expiresAt (f r) = expiresAt r \<and> (revokedAt (f r) = None \<longrightarrow> revokedAt r = None)))"

text \<open>\<open>rotation\<close> tells whether refresh tokens are rotated as well.\<close>

inductive session_step :: "nat \<Rightarrow> bool \<Rightarrow> sessions \<Rightarrow> sessions \<Rightarrow> bool" for m rotation where
  arrives: "session_step m rotation (d, rs, ls) (d, rs, waiting u h x # ls)"
| locks: "lg_phase l = Waits \<Longrightarrow> lock_free (lg_user l) (as @ bs) \<Longrightarrow>
    session_step m rotation (d, rs, as @ l # bs) (d, rs, as @ l\<lparr>lg_phase := Holds\<rparr> # bs)"
| counts: "lg_phase l = Holds \<Longrightarrow>
    session_step m rotation (d, rs, as @ l # bs)
      (d, rs, as @ l\<lparr>lg_phase := Counted (active_count (lg_user l) d rs)\<rparr> # bs)"
| chooses: "lg_phase l = Counted c \<Longrightarrow>
    session_step m rotation (d, rs, as @ l # bs)
      (d, rs, as @ l\<lparr>lg_phase := Chosen (choose_evicted m c (lg_user l) d rs)\<rparr> # bs)"
| commits: "lg_phase l = Chosen ev \<Longrightarrow> (\<forall>k. ev = Some k \<longrightarrow> k \<in> rt_id ` set rs) \<Longrightarrow> \<forall>r \<in> set rs. rt_id r \<noteq> i \<and> tokenHash r \<noteq> lg_hash l \<Longrightarrow>
    session_step m rotation (d, rs, as @ l # bs)
      (d, evicted ev d rs @ [new_refreshToken (lg_user l) (lg_hash l) (lg_expires l) i d], as @ bs)"
| gives_up: "session_step m rotation (d, rs, as @ l # bs) (d, rs, as @ bs)"
| releases: "released rs rs' \<Longrightarrow> session_step m rotation (d, rs, ls) (d, rs', ls)"
| rotates: "rotation \<Longrightarrow> r \<in> set rs \<Longrightarrow> revokedAt r = None \<Longrightarrow> \<forall>s \<in> set rs. rt_id s \<noteq> i \<and> tokenHash s \<noteq> h \<Longrightarrow>
    session_step m rotation (d, rs, ls)
      (d, map (revoke_row (rt_id r) d) rs @ [new_refreshToken (rt_userId r) h x i d], ls)"
| ticks: "d \<le> d' \<Longrightarrow> session_step m rotation (d, rs, ls) (d', rs, ls)"

section \<open>A transaction that runs alone is the block\<close>

lemma evicted_sessions_after:
  "evicted (choose_evicted m (active_count u d rs) u d rs) d rs = snd (sessions_after u d m rs)"
  by (simp add: evicted_def choose_evicted_def sessions_after_def active_count_def Let_def)

lemma choose_evicted_in: "choose_evicted m c u d rs = Some k \<Longrightarrow> k \<in> rt_id ` set rs"
  by (auto simp: choose_evicted_def split: if_splits dest: oldest_session_in)

lemma createSessionAtomic_steps:
  assumes "createSessionAtomic u h x m w = (Inr r, w')"
  shows "(session_step m rotation)\<^sup>*\<^sup>* (clock w, refreshTokens (db w), [waiting u h x]) (clock w, refreshTokens (db w'), [])"
proof -
  let ?d = "clock w" and ?rs = "refreshTokens (db w)"
  let ?c = "active_count u ?d ?rs" and ?l = "waiting u h x"
  from wp_returnsD [OF createSessionAtomic_run assms] obtain i where
    i: "\<forall>t \<in> set ?rs. rt_id t \<noteq> i \<and> tokenHash t \<noteq> h"
    and w': "refreshTokens (db w') = snd (sessions_after u ?d m ?rs) @ [new_refreshToken u h x i ?d]"
    by (auto split: prod.splits)
  have "session_step m rotation (?d, ?rs, [] @ ?l # []) (?d, ?rs, [] @ ?l\<lparr>lg_phase := Holds\<rparr> # [])"
    by (rule locks) (simp_all add: waiting_def lock_free_def)
  moreover have "session_step m rotation (?d, ?rs, [] @ ?l\<lparr>lg_phase := Holds\<rparr> # []) (?d, ?rs, [] @ ?l\<lparr>lg_phase := Counted ?c\<rparr> # [])"
    using counts [of "?l\<lparr>lg_phase := Holds\<rparr>" m rotation ?d ?rs "[]" "[]"] by (simp add: waiting_def)
  moreover have "session_step m rotation (?d, ?rs, [] @ ?l\<lparr>lg_phase := Counted ?c\<rparr> # [])
      (?d, ?rs, [] @ ?l\<lparr>lg_phase := Chosen (choose_evicted m ?c u ?d ?rs)\<rparr> # [])"
    using chooses [of "?l\<lparr>lg_phase := Counted ?c\<rparr>" ?c m rotation ?d ?rs "[]" "[]"] by (simp add: waiting_def)
  moreover have "session_step m rotation (?d, ?rs, [] @ ?l\<lparr>lg_phase := Chosen (choose_evicted m ?c u ?d ?rs)\<rparr> # [])
      (?d, refreshTokens (db w'), [] @ [])"
    using commits [of "?l\<lparr>lg_phase := Chosen (choose_evicted m ?c u ?d ?rs)\<rparr>" "choose_evicted m ?c u ?d ?rs" ?rs i m rotation ?d "[]" "[]"] i
    by (simp add: waiting_def w' evicted_sessions_after choose_evicted_in)
  ultimately show ?thesis by simp
qed

section \<open>The limit holds\<close>

text \<open>The active sessions of a user that stay when \<open>ev\<close> is evicted.\<close>

definition staying :: "uuid option \<Rightarrow> uuid \<Rightarrow> instant \<Rightarrow> refresh_token list \<Rightarrow> nat" where
  "staying ev u d rs = length (filter (\<lambda>r. active_session u d r \<and> Some (rt_id r) \<noteq> ev) rs)"

lemma staying_evicted: "active_count u d (evicted ev e rs) = staying ev u d rs"
proof (cases ev)
  case None
  then show ?thesis by (simp add: active_count_def staying_def evicted_def)
next
  case (Some i)
  have "active_count u d (map (revoke_row i e) rs) = length (filter (\<lambda>r. active_session u d r \<and> rt_id r \<noteq> i) rs)"
    by (induction rs) (auto simp: active_count_def active_session_def revoke_row_def)
  with Some show ?thesis by (simp add: staying_def evicted_def)
qed

lemma staying_None: "staying None u d rs = active_count u d rs"
  by (simp add: staying_def active_count_def)

lemma staying_le: "staying ev u d rs \<le> active_count u d rs"
  unfolding staying_def active_count_def by (induction rs) auto

lemma staying_released: "released rs rs' \<Longrightarrow> staying ev u d rs' \<le> staying ev u d rs"
proof -
  assume "released rs rs'"
  then obtain f p where f: "rs' = map f (filter p rs)" "\<And>r. rt_id (f r) = rt_id r" "\<And>r. rt_userId (f r) = rt_userId r"
    "\<And>r. expiresAt (f r) = expiresAt r" "\<And>r. revokedAt (f r) = None \<longrightarrow> revokedAt r = None"
    unfolding released_def by blast
  show "staying ev u d rs' \<le> staying ev u d rs"
    unfolding staying_def f(1) by (induction rs) (use f(2-5) in \<open>auto simp: active_session_def\<close>)
qed

lemma staying_later: "d \<le> d' \<Longrightarrow> staying ev u d' rs \<le> staying ev u d rs"
  unfolding staying_def by (induction rs) (auto simp: active_session_def)

lemma staying_chosen:
  assumes "oldest_session (filter (active_session u d) rs) = Some r"
  shows "staying (Some (rt_id r)) u d rs < active_count u d rs"
proof -
  have "r \<in> set rs" "active_session u d r" using oldest_session_in [OF assms] by auto
  then show ?thesis
  proof (induction rs)
    case (Cons x xs)
    then show ?case
      using staying_le [of "Some (rt_id r)" u d xs]
      by (cases "x = r") (auto simp: staying_def active_count_def)
  qed simp
qed

text \<open>What a transaction that holds the lock knows, whatever is released meanwhile.\<close>

definition knows :: "nat \<Rightarrow> instant \<Rightarrow> refresh_token list \<Rightarrow> login_run \<Rightarrow> bool" where
  "knows m d rs l = (case lg_phase l of
     Counted c \<Rightarrow> active_count (lg_user l) d rs \<le> c
   | Chosen ev \<Rightarrow> staying ev (lg_user l) d rs < m
   | _ \<Rightarrow> True)"

definition compatible :: "login_run \<Rightarrow> login_run \<Rightarrow> bool" where
  "compatible l k \<longleftrightarrow> (lg_user l = lg_user k \<longrightarrow> lg_phase l = Waits \<or> lg_phase k = Waits)"

definition in_limit :: "nat \<Rightarrow> sessions \<Rightarrow> bool" where
  "in_limit m s \<longleftrightarrow> (case s of (d, rs, ls) \<Rightarrow>
     (\<forall>u. active_count u d rs \<le> m) \<and> sorted_wrt compatible ls \<and> (\<forall>l \<in> set ls. knows m d rs l))"

lemma compatible_middle:
  "sorted_wrt compatible (as @ l # bs) \<longleftrightarrow> sorted_wrt compatible (as @ bs) \<and> (\<forall>k \<in> set (as @ bs). compatible l k)"
  by (auto simp: sorted_wrt_append compatible_def)

lemma in_limit_middle:
  "in_limit m (d, rs, as @ l # bs) \<longleftrightarrow>
     in_limit m (d, rs, as @ bs) \<and> knows m d rs l \<and> (\<forall>k \<in> set (as @ bs). compatible l k)"
  by (auto simp: in_limit_def compatible_middle)

lemma knows_less:
  assumes "knows m d rs l" and "\<And>ev. staying ev (lg_user l) d' rs' \<le> staying ev (lg_user l) d rs"
  shows "knows m d' rs' l"
  using assms(1) assms(2) [of None] assms(2)
  by (auto simp: knows_def staying_None split: phase.splits intro: le_trans le_less_trans)

lemma in_limit_less:
  assumes "in_limit m (d, rs, ls)" and "\<And>ev u. staying ev u d' rs' \<le> staying ev u d rs"
  shows "in_limit m (d', rs', ls)"
proof -
  have "active_count u d' rs' \<le> m" for u
    using assms(1) assms(2) [of None u] by (auto simp: in_limit_def staying_None intro: le_trans)
  with assms show ?thesis by (auto simp: in_limit_def intro: knows_less)
qed

lemma choose_staying:
  assumes "active_count u d rs \<le> c" and "active_count u d rs \<le> m" and "0 < m"
  shows "staying (choose_evicted m c u d rs) u d rs < m"
proof (cases "m \<le> c")
  case True
  show ?thesis
  proof (cases "oldest_session (filter (active_session u d) rs)")
    case None
    then have "active_count u d rs = 0" by (simp add: oldest_session_None active_count_def)
    with True None assms(3) show ?thesis by (simp add: choose_evicted_def staying_None)
  next
    case (Some r)
    with True assms(2) staying_chosen [OF Some] show ?thesis by (simp add: choose_evicted_def)
  qed
next
  case False
  with assms(1) show ?thesis by (simp add: choose_evicted_def staying_None)
qed

lemma staying_new:
  "staying ev u d (rs @ [new_refreshToken v h x i d]) \<le> staying ev u d rs + (if u = v then 1 else 0)"
  by (simp add: staying_def new_refreshToken_def active_session_def)

lemma staying_evicted_le: "staying ev' u d (evicted ev e rs) \<le> staying ev' u d rs"
  unfolding staying_def evicted_def
  by (induction rs) (auto simp: active_session_def revoke_row_def split: option.splits)

lemma commit_in_limit:
  assumes ok: "in_limit m (d, rs, as @ l # bs)" and l: "lg_phase l = Chosen ev"
  shows "in_limit m (d, evicted ev d rs @ [new_refreshToken (lg_user l) h x i d], as @ bs)"
proof -
  let ?rs = "evicted ev d rs @ [new_refreshToken (lg_user l) h x i d]"
  have le: "staying e u d ?rs \<le> staying e u d rs + (if u = lg_user l then 1 else 0)" for e u
    using staying_new [of e u d "evicted ev d rs" "lg_user l" h x i] staying_evicted_le [of e u d ev d rs] by simp
  have room: "staying ev (lg_user l) d rs < m" using ok l by (simp add: in_limit_middle knows_def)
  have "active_count u d ?rs \<le> m" for u
  proof (cases "u = lg_user l")
    case True
    have "active_count u d ?rs \<le> Suc (active_count u d (evicted ev d rs))" by (rule active_count_snoc)
    with True room show ?thesis by (simp add: staying_evicted)
  next
    case False
    then show ?thesis using ok le [of None u] by (auto simp: in_limit_def staying_None intro: le_trans)
  qed
  moreover have "knows m d ?rs k" if k: "k \<in> set (as @ bs)" for k
  proof (cases "lg_user k = lg_user l")
    case True
    with ok k l have "lg_phase k = Waits" by (auto simp: in_limit_middle compatible_def)
    then show ?thesis by (simp add: knows_def)
  next
    case False
    have "knows m d rs k" using ok k by (auto simp: in_limit_def)
    moreover have "staying e (lg_user k) d ?rs \<le> staying e (lg_user k) d rs" for e
      using le [of e "lg_user k"] False by simp
    ultimately show ?thesis by (rule knows_less)
  qed
  ultimately show ?thesis using ok by (simp add: in_limit_def compatible_middle)
qed

lemma session_step_in_limit:
  assumes "session_step m False s s'" and "in_limit m s" and "0 < m"
  shows "in_limit m s'"
  using assms
proof (induction rule: session_step.induct)
  case (arrives d rs ls u h x)
  then show ?case by (simp add: in_limit_def waiting_def knows_def compatible_def)
next
  case (locks l as bs d rs)
  then show ?case by (simp add: in_limit_middle knows_def compatible_def lock_free_def)
next
  case (counts l d rs as bs)
  then show ?case by (simp add: in_limit_middle knows_def compatible_def)
next
  case (chooses l c d rs as bs)
  then have "active_count (lg_user l) d rs \<le> m" "active_count (lg_user l) d rs \<le> c"
    by (simp_all add: in_limit_middle knows_def) (simp add: in_limit_def)
  with chooses show ?case by (simp add: in_limit_middle knows_def compatible_def choose_staying)
next
  case (commits l ev rs i d as bs)
  then show ?case by (blast intro: commit_in_limit)
next
  case (gives_up d rs as l bs)
  then show ?case by (simp add: in_limit_middle)
next
  case (releases rs rs' d ls)
  from releases(2) show ?case by (rule in_limit_less) (rule staying_released [OF releases(1)])
next
  case (ticks d d' rs ls)
  from ticks(2) show ?case by (rule in_limit_less) (rule staying_later [OF ticks(1)])
qed simp

lemma session_steps_in_limit:
  "(session_step m False)\<^sup>*\<^sup>* s s' \<Longrightarrow> in_limit m s \<Longrightarrow> 0 < m \<Longrightarrow> in_limit m s'"
  by (induction rule: rtranclp_induct) (auto intro: session_step_in_limit)

text \<open>
  C31. The session limit survives races: while any number of logins run their transactions
  statement by statement under the advisory lock of their user, and sessions are revoked,
  deleted and expire in between, no user ever has more active sessions than the limit.
\<close>

theorem session_limit_under_races:
  assumes "(session_step m False)\<^sup>*\<^sup>* (d0, rs0, []) (d, rs, ls)" and "0 < m" and "\<forall>u. active_count u d0 rs0 \<le> m"
  shows "active_count u d rs \<le> m"
proof -
  have "in_limit m (d0, rs0, [])" using assms(3) by (simp add: in_limit_def)
  from session_steps_in_limit [OF assms(1) this assms(2)] show ?thesis by (simp add: in_limit_def)
qed

text \<open>
  A session of Ann while one is allowed, and her second login.
\<close>

definition ann_session :: "string \<Rightarrow> uuid \<Rightarrow> refresh_token" where
  "ann_session h i = new_refreshToken ''id0'' h 100000 i 1000"

lemma demo_login:
  "(session_step 1 rotation)\<^sup>*\<^sup>* (1000, [ann_session ''h1'' ''id1''], [])
     (1000, [ann_session ''h1'' ''id1''],
      [(waiting ''id0'' ''h2'' 100000)\<lparr>lg_phase := Chosen (Some ''id1'')\<rparr>])"
proof -
  let ?rs = "[ann_session ''h1'' ''id1'']" and ?l = "waiting ''id0'' ''h2'' 100000"
  have "session_step 1 rotation (1000, ?rs, []) (1000, ?rs, [] @ ?l # [])"
    using arrives [of 1 rotation 1000 ?rs "[]" "''id0''" "''h2''" 100000] by simp
  moreover have "session_step 1 rotation (1000, ?rs, [] @ ?l # []) (1000, ?rs, [] @ ?l\<lparr>lg_phase := Holds\<rparr> # [])"
    by (rule locks) (simp_all add: waiting_def lock_free_def)
  moreover have "session_step 1 rotation (1000, ?rs, [] @ ?l\<lparr>lg_phase := Holds\<rparr> # [])
      (1000, ?rs, [] @ ?l\<lparr>lg_phase := Counted 1\<rparr> # [])"
    using counts [of "?l\<lparr>lg_phase := Holds\<rparr>" 1 rotation 1000 ?rs "[]" "[]"]
    by (simp add: waiting_def ann_session_def new_refreshToken_def active_count_def active_session_def)
  moreover have "session_step 1 rotation (1000, ?rs, [] @ ?l\<lparr>lg_phase := Counted 1\<rparr> # [])
      (1000, ?rs, [] @ ?l\<lparr>lg_phase := Chosen (Some ''id1'')\<rparr> # [])"
    using chooses [of "?l\<lparr>lg_phase := Counted 1\<rparr>" 1 1 rotation 1000 ?rs "[]" "[]"]
    by (simp add: waiting_def ann_session_def new_refreshToken_def active_session_def choose_evicted_def oldest_session_def)
  ultimately show ?thesis by simp
qed

theorem session_limit_under_races_witness:
  "active_count ''id0'' 1000 [revoke_row ''id1'' 1000 (ann_session ''h1'' ''id1''), ann_session ''h2'' ''id2''] \<le> 1"
proof -
  let ?l = "(waiting ''id0'' ''h2'' 100000)\<lparr>lg_phase := Chosen (Some ''id1'')\<rparr>"
  have "session_step 1 False (1000, [ann_session ''h1'' ''id1''], [] @ ?l # [])
      (1000, [revoke_row ''id1'' 1000 (ann_session ''h1'' ''id1''), ann_session ''h2'' ''id2''], [] @ [])"
    using commits [of ?l "Some ''id1''" "[ann_session ''h1'' ''id1'']" "''id2''" 1 False 1000 "[]" "[]"]
    by (simp add: waiting_def ann_session_def new_refreshToken_def evicted_def)
  with demo_login [of False] have "(session_step 1 False)\<^sup>*\<^sup>* (1000, [ann_session ''h1'' ''id1''], [])
      (1000, [revoke_row ''id1'' 1000 (ann_session ''h1'' ''id1''), ann_session ''h2'' ''id2''], [])"
    by simp
  moreover have "\<forall>u. active_count u 1000 [ann_session ''h1'' ''id1''] \<le> 1" by (simp add: active_count_def)
  ultimately show ?thesis using session_limit_under_races [of 1 1000 "[ann_session ''h1'' ''id1'']"] by simp
qed

section \<open>Rotation takes no lock\<close>

text \<open>
  A refresh token rotated between the choice and the eviction: the login revokes the token
  that was already replaced, and the user has one session too many.
\<close>

theorem rotation_breaks_limit:
  "\<exists>rs. (session_step 1 True)\<^sup>*\<^sup>* (1000, [ann_session ''h1'' ''id1''], []) (1000, rs, [])
    \<and> active_count ''id0'' 1000 rs = 2"
proof -
  let ?l = "(waiting ''id0'' ''h2'' 100000)\<lparr>lg_phase := Chosen (Some ''id1'')\<rparr>"
  let ?old = "revoke_row ''id1'' 1000 (ann_session ''h1'' ''id1'')"
  have "session_step 1 True (1000, [ann_session ''h1'' ''id1''], [?l])
      (1000, [?old, ann_session ''h3'' ''id3''], [] @ ?l # [])"
    using rotates [of True "ann_session ''h1'' ''id1''" "[ann_session ''h1'' ''id1'']" "''id3''" "''h3''" 1 1000 "[?l]" 100000]
    by (simp add: ann_session_def new_refreshToken_def)
  moreover have "session_step 1 True (1000, [?old, ann_session ''h3'' ''id3''], [] @ ?l # [])
      (1000, [revoke_row ''id1'' 1000 ?old, ann_session ''h3'' ''id3'', ann_session ''h2'' ''id2''], [] @ [])"
    using commits [of ?l "Some ''id1''" "[?old, ann_session ''h3'' ''id3'']" "''id2''" 1 True 1000 "[]" "[]"]
    by (simp add: waiting_def ann_session_def new_refreshToken_def evicted_def revoke_row_def)
  ultimately have "(session_step 1 True)\<^sup>*\<^sup>* (1000, [ann_session ''h1'' ''id1''], [])
      (1000, [revoke_row ''id1'' 1000 ?old, ann_session ''h3'' ''id3'', ann_session ''h2'' ''id2''], [])"
    using demo_login [of True] by simp
  moreover have "active_count ''id0'' 1000 [revoke_row ''id1'' 1000 ?old, ann_session ''h3'' ''id3'', ann_session ''h2'' ''id2''] = 2"
    by (simp add: active_count_def active_session_def ann_session_def new_refreshToken_def revoke_row_def)
  ultimately show ?thesis by blast
qed

end
