(* ===== verification/Job_Locks.thy ===== *)
theory Job_Locks
  imports Demo Writes
begin

text \<open>
  The two scheduled jobs on several instances of the service. Each takes a Redis key with
  \<open>SET NX\<close> and an expiry, works, and deletes the key. A job is first taken apart into its
  calls (\<open>job_code\<close>), and running the calls of one instance alone is shown to be the job;
  then the calls of any number of instances are interleaved. Runs exclude each other as long
  as each ends before its key expires; a run that takes longer deletes the key another
  instance holds by then.
\<close>

section \<open>The calls of a job\<close>

text \<open>
  \<open>SET key '1' EX ttl NX\<close> with what follows for each answer, the work under the lock (which
  may not end), and \<open>DEL key\<close>.
\<close>

datatype job_code =
    Finished
  | Acquire string int "bool \<Rightarrow> job_code"
  | Work "world \<Rightarrow> world option" job_code
  | Release string job_code

primrec run_job :: "job_code \<Rightarrow> world \<Rightarrow> ((exn + unit) \<times> world) option" where
  "run_job Finished = (\<lambda>w. Some (Inr (), w))"
| "run_job (Acquire key ttl f) = (\<lambda>w. case redis_set_nx key ''1'' ttl w of
     (Inl e, w') \<Rightarrow> Some (Inl e, w') | (Inr acquired, w') \<Rightarrow> run_job (f acquired) w')"
| "run_job (Work m c) = (\<lambda>w. case m w of None \<Rightarrow> None | Some w' \<Rightarrow> run_job c w')"
| "run_job (Release key c) = (\<lambda>w. case redis_del key w of
     (Inl e, w') \<Rightarrow> Some (Inl e, w') | (Inr _, w') \<Rightarrow> run_job c w')"

definition outbox_job :: "registry \<Rightarrow> job_code" where
  "outbox_job registry = Acquire PROCESSOR_LOCK_KEY PROCESSOR_LOCK_TTL_SECONDS (\<lambda>acquired.
     if \<not> acquired then Finished
     else Work (\<lambda>w. Some (snd (processBatch registry w))) (Release PROCESSOR_LOCK_KEY Finished))"

definition cleanup_job :: "nat \<Rightarrow> job_code" where
  "cleanup_job batchSize = Acquire CLEANUP_LOCK_KEY CLEANUP_LOCK_TTL_SECONDS (\<lambda>acquired.
     if \<not> acquired then Finished
     else Work (\<lambda>w. map_option snd (deleteAllExpiredTokens batchSize w)) (Release CLEANUP_LOCK_KEY Finished))"

lemma outbox_job_run: "run_job (outbox_job registry) w = Some (processOutbox registry w)"
  by (auto simp: outbox_job_def processOutbox_def bindP_def finallyP_def catchP_def ret_def
    split: prod.splits sum.splits)

lemma cleanup_job_run: "run_job (cleanup_job n) w = cleanupExpiredTokens n w"
  by (auto simp: cleanup_job_def cleanupExpiredTokens_def split: prod.splits sum.splits option.splits)

text \<open>The key a run holds: the one it will still delete without asking again.\<close>

primrec held_key :: "job_code \<Rightarrow> string option" where
  "held_key Finished = None"
| "held_key (Acquire key ttl f) = None"
| "held_key (Work m c) = held_key c"
| "held_key (Release key c) = Some key"

section \<open>Many instances\<close>

text \<open>The shared world, and for every run the time of its last Redis answer and the calls it has left.\<close>

type_synonym run = "instant \<times> job_code"
type_synonym jobs = "world \<times> run list"

definition in_time :: "(string \<Rightarrow> int) \<Rightarrow> jobs \<Rightarrow> bool" where
  "in_time due s = list_all (\<lambda>(t, c). case held_key c of None \<Rightarrow> True | Some key \<Rightarrow> clock (fst s) < t + due key) (snd s)"

text \<open>The runs that hold a key.\<close>

definition at_work :: "string \<Rightarrow> run list \<Rightarrow> run list" where
  "at_work key rs = filter (\<lambda>(t, c). held_key c = Some key) rs"

lemma at_work_simps [simp]:
  "at_work key [] = []"
  "at_work key ((t, c) # rs) = (if held_key c = Some key then (t, c) # at_work key rs else at_work key rs)"
  "at_work key (as @ bs) = at_work key as @ at_work key bs"
  by (simp_all add: at_work_def)

text \<open>
  An instance starts a job; a run makes its next call, which Redis may fail; an instance is
  killed; and everything else in the system changes anything but the keys that runs hold, while
  time passes.
  In \<open>timely\<close> schedules no run still holds its key when the time of that key is over.
\<close>

inductive job_step :: "job_code set \<Rightarrow> (string \<Rightarrow> int) \<Rightarrow> bool \<Rightarrow> jobs \<Rightarrow> jobs \<Rightarrow> bool" for codes due timely where
  starts: "c \<in> codes \<Longrightarrow> job_step codes due timely (w, rs) (w, (clock w, c) # rs)"
| answered: "redis_set_nx key ''1'' ttl w = (Inr acquired, w') \<Longrightarrow>
    job_step codes due timely (w, as @ (t, Acquire key ttl f) # bs) (w', as @ (clock w', f acquired) # bs)"
| unanswered: "redis_set_nx key ''1'' ttl w = (Inl e, w') \<Longrightarrow>
    job_step codes due timely (w, as @ (t, Acquire key ttl f) # bs) (w', as @ bs)"
| works: "m w = Some w' \<Longrightarrow> timely \<longrightarrow> in_time due (w', as @ (t, c) # bs) \<Longrightarrow>
    job_step codes due timely (w, as @ (t, Work m c) # bs) (w', as @ (t, c) # bs)"
| releases: "redis_del key w = (Inr u, w') \<Longrightarrow>
    job_step codes due timely (w, as @ (t, Release key c) # bs) (w', as @ (t, c) # bs)"
| unreleased: "redis_del key w = (Inl e, w') \<Longrightarrow>
    job_step codes due timely (w, as @ (t, Release key c) # bs) (w', as @ bs)"
| dies: "job_step codes due timely (w, as @ r # bs) (w, as @ bs)"
| elsewhere: "(\<forall>key. at_work key rs \<noteq> [] \<longrightarrow> redis w' key = redis w key) \<Longrightarrow> clock w \<le> clock w' \<Longrightarrow> timely \<longrightarrow> in_time due (w', rs) \<Longrightarrow>
    job_step codes due timely (w, rs) (w', rs)"

section \<open>Exclusion\<close>

text \<open>What a code must be for its lock to work: it takes a key for the time of that key and works under it alone.\<close>

primrec well_locked :: "(string \<Rightarrow> int) \<Rightarrow> job_code \<Rightarrow> bool" where
  "well_locked due Finished = True"
| "well_locked due (Acquire key ttl f) \<longleftrightarrow> 0 < ttl \<and> due key = ttl * 1000 \<and> held_key (f False) = None
     \<and> (held_key (f True) = None \<or> held_key (f True) = Some key) \<and> (\<forall>b. well_locked due (f b))"
| "well_locked due (Work m c) \<longleftrightarrow>
     (\<forall>w w'. m w = Some w' \<longrightarrow> redis w' = redis w \<and> clock w \<le> clock w') \<and> well_locked due c"
| "well_locked due (Release key c) \<longleftrightarrow> held_key c = None \<and> well_locked due c"

text \<open>At most one run is at work under a key, and Redis keeps the key until its time is over.\<close>

definition kept_key :: "(string \<Rightarrow> int) \<Rightarrow> world \<Rightarrow> string \<Rightarrow> run list \<Rightarrow> bool" where
  "kept_key due w key rs \<longleftrightarrow> (case rs of [] \<Rightarrow> True
     | [(t, c)] \<Rightarrow> (\<exists>v. redis w key = Some (v, Some (t + due key))) \<and> clock w < t + due key | _ \<Rightarrow> False)"

definition guarded :: "(string \<Rightarrow> int) \<Rightarrow> jobs \<Rightarrow> bool" where
  "guarded due s \<longleftrightarrow> (case s of (w, rs) \<Rightarrow> list_all (\<lambda>(t, c). well_locked due c) rs
     \<and> (\<forall>key. kept_key due w key (at_work key rs)))"

lemma kept_key_Nil [simp]: "kept_key due w key []"
  by (simp add: kept_key_def)

lemma kept_key_drop: "kept_key due w key (as @ r # bs) \<Longrightarrow> kept_key due w key (as @ bs)"
  by (cases as; cases bs) (auto simp: kept_key_def split: list.splits)

lemma kept_key_same:
  "kept_key due w key (as @ (t, c) # bs) \<Longrightarrow> kept_key due w key (as @ (t, c') # bs)"
  by (cases as; cases bs) (auto simp: kept_key_def split: list.splits)

lemma kept_key_one: "kept_key due w key (as @ r # bs) \<Longrightarrow> as = [] \<and> bs = []"
  by (cases as; cases bs) (auto simp: kept_key_def split: list.splits)

lemma kept_key_free: "kept_key due w key rs \<Longrightarrow> redis_live w key = None \<Longrightarrow> rs = []"
  by (auto simp: kept_key_def redis_live_def split: list.splits)

lemma kept_key_world:
  "redis w' key = redis w key \<Longrightarrow> clock w' = clock w \<Longrightarrow> kept_key due w' key rs = kept_key due w key rs"
  by (auto simp: kept_key_def split: list.splits)

lemma guarded_append:
  "guarded due (w, as @ r # bs) \<longleftrightarrow> list_all (\<lambda>(t, c). well_locked due c) (as @ bs) \<and> well_locked due (snd r)
     \<and> (\<forall>key. kept_key due w key (at_work key as @ (if held_key (snd r) = Some key then [r] else []) @ at_work key bs))"
  by (cases r) (auto simp: guarded_def)

lemma guarded_rest:
  "guarded due (w, as @ bs) \<longleftrightarrow> list_all (\<lambda>(t, c). well_locked due c) (as @ bs)
     \<and> (\<forall>key. kept_key due w key (at_work key as @ at_work key bs))"
  by (simp add: guarded_def)

lemma set_nx_answer:
  assumes "redis_set_nx key v ttl w = (Inr acquired, w')"
  shows "clock w' = clock w \<and> (if acquired then redis_live w key = None
      \<and> redis w' = (redis w)(key \<mapsto> (v, Some (clock w + ttl * 1000))) else redis w' = redis w)"
  using assms by (auto simp: redis_set_nx_def redis_call_def Let_def split: if_splits)

lemma redis_failed:
  "redis_set_nx key v ttl w = (Inl e, w') \<Longrightarrow> redis w' = redis w \<and> clock w' = clock w"
  "redis_del key w = (Inl e, w') \<Longrightarrow> redis w' = redis w \<and> clock w' = clock w"
  by (auto simp: redis_set_nx_def redis_del_def redis_call_def Let_def split: if_splits)

lemma del_answer:
  "redis_del key w = (Inr u, w') \<Longrightarrow> redis w' = (redis w)(key := None) \<and> clock w' = clock w"
  by (auto simp: redis_del_def redis_call_def Let_def split: if_splits)

text \<open>A run that goes leaves the others guarded.\<close>

lemma guarded_drop: "guarded due (w, as @ r # bs) \<Longrightarrow> guarded due (w, as @ bs)"
proof -
  assume g: "guarded due (w, as @ r # bs)"
  have "kept_key due w key (at_work key as @ at_work key bs)" for key
  proof (cases "held_key (snd r) = Some key")
    case True
    with g have "kept_key due w key (at_work key as @ r # at_work key bs)" unfolding guarded_append by (metis append_Cons append_Nil)
    then show ?thesis by (rule kept_key_drop)
  next
    case False
    with g show ?thesis unfolding guarded_append by (metis append_Nil)
  qed
  with g show ?thesis unfolding guarded_append guarded_rest [of due w as bs] by blast
qed

lemma guarded_world: "guarded due (w, rs) \<Longrightarrow> redis w' = redis w \<Longrightarrow> clock w' = clock w \<Longrightarrow> guarded due (w', rs)"
  by (simp add: guarded_def kept_key_world [of w' _ w])

lemma guarded_later:
  assumes "guarded due (w, rs)" and "\<And>key. at_work key rs \<noteq> [] \<Longrightarrow> redis w' key = redis w key"
    and "in_time due (w', rs)"
  shows "guarded due (w', rs)"
proof -
  have "kept_key due w' key (at_work key rs)" for key
  proof -
    have "clock w' < t + due key" if "(t, c) \<in> set (at_work key rs)" for t c
      using that assms(3) by (auto simp: in_time_def list_all_iff at_work_def)
    moreover have "kept_key due w key (at_work key rs)" using assms(1) by (simp add: guarded_def)
    ultimately show ?thesis using assms(2) [of key] by (auto simp: kept_key_def split: list.splits)
  qed
  with assms(1) show ?thesis by (simp add: guarded_def)
qed

lemma guarded_same_key:
  assumes "guarded due (w, as @ (t, c) # bs)" and "held_key c' = held_key c" and "well_locked due c'"
  shows "guarded due (w, as @ (t, c') # bs)"
proof -
  have "kept_key due w key (at_work key as @ (if held_key c' = Some key then [(t, c')] else []) @ at_work key bs)" for key
  proof (cases "held_key c = Some key")
    case True
    with assms(1) have "kept_key due w key (at_work key as @ (t, c) # at_work key bs)"
      unfolding guarded_append snd_conv by (metis append_Cons append_Nil)
    with True assms(2) show ?thesis by (simp add: kept_key_same)
  next
    case False
    with assms(1,2) show ?thesis unfolding guarded_append snd_conv by metis
  qed
  with assms(1,3) show ?thesis unfolding guarded_append snd_conv by blast
qed

text \<open>A run that holds nothing may change its time.\<close>

lemma guarded_idle:
  "guarded due (w, as @ bs) \<Longrightarrow> held_key c = None \<Longrightarrow> well_locked due c \<Longrightarrow> guarded due (w, as @ (t, c) # bs)"
  by (simp add: guarded_rest guarded_append)

lemma guarded_acquired:
  assumes "guarded due (w, as @ bs)" and "redis_live w key = None" and "well_locked due c" and "0 < due key"
    and "held_key c = None \<or> held_key c = Some key"
    and "redis w' = (redis w)(key \<mapsto> (v, Some (clock w + due key)))" and "clock w' = clock w"
  shows "guarded due (w', as @ (clock w', c) # bs)"
proof -
  have kept: "kept_key due w k (at_work k as @ at_work k bs)" for k using assms(1) unfolding guarded_rest by blast
  have free: "at_work key as @ at_work key bs = []" by (rule kept_key_free [OF kept assms(2)])
  have "kept_key due w' k (at_work k as @ (if held_key c = Some k then [(clock w', c)] else []) @ at_work k bs)" for k
  proof (cases "k = key")
    case True
    with free assms(4,6,7) show ?thesis by (simp add: kept_key_def)
  next
    case False
    then have "kept_key due w' k (at_work k as @ at_work k bs)" using kept_key_world [of w' k w] assms(6,7) kept by simp
    with False assms(5) show ?thesis by auto
  qed
  with assms(1,3) show ?thesis unfolding guarded_append guarded_rest [of due w as bs] snd_conv by blast
qed

lemma guarded_released:
  assumes "guarded due (w, as @ (t, Release key c) # bs)"
    and "redis w' = (redis w)(key := None)" and "clock w' = clock w"
  shows "guarded due (w', as @ (t, c) # bs)"
proof -
  have c: "held_key c = None" "well_locked due c" using assms(1) unfolding guarded_append by simp_all
  have rest: "guarded due (w, as @ bs)" using assms(1) by (rule guarded_drop)
  have "\<forall>k. kept_key due w k (at_work k as @ (if held_key (Release key c) = Some k then [(t, Release key c)] else []) @ at_work k bs)"
    using assms(1) unfolding guarded_append snd_conv by blast
  from spec [OF this, of key] have "kept_key due w key (at_work key as @ (t, Release key c) # at_work key bs)" by simp
  from kept_key_one [OF this] have free: "at_work key as @ at_work key bs = []" by simp
  have "kept_key due w' k (at_work k as @ at_work k bs)" for k
  proof (cases "k = key")
    case True
    with free show ?thesis by simp
  next
    case False
    with rest kept_key_world [of w' k w] assms(2,3) show ?thesis unfolding guarded_rest by simp
  qed
  with rest have "guarded due (w', as @ bs)" unfolding guarded_rest by blast
  then show ?thesis using c by (rule guarded_idle)
qed

locale locked_jobs =
  fixes codes :: "job_code set" and due :: "string \<Rightarrow> int"
  assumes codes_locked: "c \<in> codes \<Longrightarrow> well_locked due c \<and> held_key c = None"
begin

lemma step_guarded: "job_step codes due True s s' \<Longrightarrow> guarded due s \<Longrightarrow> guarded due s'"
proof (induction rule: job_step.induct)
  case (starts c w rs)
  with codes_locked guarded_idle [of due w "[]" rs c "clock w"] show ?case by simp
next
  case (answered key ttl w acquired w' as t f bs)
  have f: "well_locked due (Acquire key ttl f)" using answered(2) unfolding guarded_append by simp
  have rest: "guarded due (w, as @ bs)" using answered(2) by (rule guarded_drop)
  show ?case
  proof (cases acquired)
    case True
    with set_nx_answer [OF answered(1)] rest f show ?thesis by (intro guarded_acquired) auto
  next
    case False
    with set_nx_answer [OF answered(1)] have "redis w' = redis w" "clock w' = clock w" by simp_all
    with rest have "guarded due (w', as @ bs)" by (rule guarded_world)
    with f False show ?thesis by (intro guarded_idle) auto
  qed
next
  case (unanswered key ttl w e w' as t f bs)
  with redis_failed(1) [OF unanswered(1)] guarded_drop show ?case by (blast intro: guarded_world)
next
  case (works m w w' as t c bs)
  have m: "redis w' = redis w" "well_locked due c"
    using works(1,3) unfolding guarded_append by auto
  then have "guarded due (w, as @ (t, c) # bs)" by (intro guarded_same_key [OF works(3)]) simp_all
  with m works(2) show ?case by (auto intro: guarded_later)
next
  case (releases key w u w' as t c bs)
  with del_answer [OF releases(1)] show ?case by (auto intro: guarded_released)
next
  case (unreleased key w e w' as t c bs)
  with redis_failed(2) [OF unreleased(1)] guarded_drop show ?case by (blast intro: guarded_world)
next
  case (dies w as r bs)
  then show ?case by (rule guarded_drop)
next
  case (elsewhere w' w rs)
  then show ?case by (auto intro: guarded_later)
qed

lemma exclusive:
  assumes "(job_step codes due True)\<^sup>*\<^sup>* (w0, []) (w, rs)"
  shows "length (at_work key rs) \<le> 1"
proof -
  have "guarded due (w0, [])" by (simp add: guarded_def)
  with assms have "guarded due (w, rs)"
    by (induction rule: rtranclp_induct) (auto intro: step_guarded)
  then have "kept_key due w key (at_work key rs)" by (simp add: guarded_def)
  then show ?thesis by (auto simp: kept_key_def split: list.splits)
qed

end

section \<open>The work of the jobs\<close>

text \<open>Neither job touches a key of Redis while it works, and time only moves forward.\<close>

definition leaves_keys :: "world \<Rightarrow> world \<Rightarrow> bool" where
  "leaves_keys w w' \<longleftrightarrow> redis w' = redis w \<and> clock w' = clock w"

interpretation keys: effect_order leaves_keys
  by unfold_locales (auto simp: leaves_keys_def)

lemma table_quiet:
  "within leaves_keys (t_create T mk)" "within leaves_keys (t_update T P f)" "within leaves_keys (t_updateMany T P f)"
  "within leaves_keys (t_find T P)" "within leaves_keys (t_filter T P)" "within leaves_keys now"
  by (rule within_wpI; simp add: wp_simps leaves_keys_def now_def Let_def split: option.splits)+

lemma local_quiet:
  "within leaves_keys (audit_log ev m)" "within leaves_keys (audit_warn ev m)" "within leaves_keys (call_gateway n g b)"
  "within leaves_keys (from_sum r)" "within leaves_keys (modP (\<lambda>w. w\<lparr>paypalToken := p w\<rparr>))"
  by (rule within_wpI; simp add: wp_simps leaves_keys_def split: sum.splits)+

lemma transaction_quiet: "within leaves_keys m \<Longrightarrow> within leaves_keys (withTransaction m)"
  by (erule within_withTransaction) (simp add: leaves_keys_def)

lemma quiet_json:
  "(\<And>s. within R (f s)) \<Longrightarrow> within R g \<Longrightarrow> within R (case v of Some (JStr s) \<Rightarrow> f s | _ \<Rightarrow> g)"
  by (simp split: option.splits json.splits)

lemmas quiet_intros = keys.within_intros table_quiet local_quiet transaction_quiet

lemma path_quiet:
  "within leaves_keys (settleDeposit_path c i r)" "within leaves_keys (settleWithdrawal_path c i r)"
  "within leaves_keys (failDeposit_path c i r)" "within leaves_keys (failWithdrawal_path c i r)"
  unfolding settleDeposit_path_def settleWithdrawal_path_def failDeposit_path_def failWithdrawal_path_def
    required_def stampProviderRef_def setProviderRef_def persistCustomerId_def upsertBraintreeCustomerId_def
    find_user_def settlePending_def settleWithdrawal_def ledgerEntry_create_def createPaymentLog_def markDelivered_def
  by (intro quiet_intros quiet_json)+

lemma dispatch_quiet: "within leaves_keys (dispatch c i r)"
  unfolding dispatch_def settle_def fail_def markDelivered_def Let_def by (intro quiet_intros path_quiet)

lemma adapters_quiet:
  "within leaves_keys (stripe_process api to_cents p ty)" "within leaves_keys (paypal_process bt oauth payouts cfg p ty)"
  unfolding stripe_process_def stripe_confirmDeposit_def stripe_createPayout_def
    paypal_process_def paypal_confirmDeposit_def paypal_createPayout_def getAccessToken_def
    fetchAndCacheToken_def Let_def
  by (intro quiet_intros case_intros)+

lemma processBatch_quiet:
  "within leaves_keys (processBatch (payment_registry (StripeProvider api to_cents) (PaypalProvider bt oauth payouts cfg)))"
proof -
  let ?reg = "payment_registry (StripeProvider api to_cents) (PaypalProvider bt oauth payouts cfg)"
  have event: "within leaves_keys (incrementRetry i)" "within leaves_keys (findTransactionById i)" for i
    unfolding incrementRetry_def findTransactionById_def by (intro quiet_intros)+
  have "within leaves_keys (process (StripeProvider api to_cents) x ty)"
    "within leaves_keys (process (PaypalProvider bt oauth payouts cfg) x ty)" for x ty
    using adapters_quiet by (simp_all add: StripeProvider_def PaypalProvider_def)
  then have "within leaves_keys (bindP (process (StripeProvider api to_cents) x ty) (dispatch c i))"
    "within leaves_keys (bindP (process (PaypalProvider bt oauth payouts cfg) x ty) (dispatch c i))" for x ty c i
    by (intro quiet_intros dispatch_quiet; blast)+
  then have "within leaves_keys (call_provider ?reg e u p t)" for e u p t
    by (cases p) (simp_all add: call_provider_def resolve_def payment_registry_def Let_def within_def bindP_def
      ret_def throw_def keys.R_refl)
  then have "within leaves_keys (processEvent ?reg e)" for e
    unfolding processEvent_def processEvent_body_def by (intro quiet_intros quiet_json event)
  then show ?thesis
    unfolding processBatch_def findPendingProviderEvents_def by (intro quiet_intros)
qed

lemma cleanup_work:
  "deleteAllExpiredTokens n w = Some (k, w') \<Longrightarrow> redis w' = redis w \<and> clock w \<le> clock w'"
proof (cases "n = 0")
  case False
  assume run: "deleteAllExpiredTokens n w = Some (k, w')"
  obtain k' v where v: "cleanup_loop n 0 w = Some (0 + k', v)" "clock w \<le> clock v"
    "v = w\<lparr>clock := clock v, db := (db w)\<lparr>refreshTokens := refreshTokens (db v)\<rparr>\<rparr>"
    using cleanup_loop_returns [of n 0 w] False by auto
  have "redis v = redis w" by (subst v(3)) simp
  with run v(1,2) show ?thesis by (simp add: deleteAllExpiredTokens_def)
qed (simp add: deleteAllExpiredTokens_def cleanup_loop_zero)

text \<open>The time of each key, in milliseconds.\<close>

definition lock_time :: "string \<Rightarrow> int" where
  "lock_time key = (if key = ''locks:payment_processor'' then 900000 else if key = ''locks:token_cleanup'' then 600000 else 0)"

interpretation scheduled: locked_jobs
  "{outbox_job (payment_registry (StripeProvider api to_cents) (PaypalProvider bt oauth payouts cfg)), cleanup_job n}" lock_time
  for api to_cents bt oauth payouts cfg n
proof
  fix c
  have batch: "redis (snd (processBatch (payment_registry (StripeProvider api to_cents) (PaypalProvider bt oauth payouts cfg)) w)) = redis w"
    "clock (snd (processBatch (payment_registry (StripeProvider api to_cents) (PaypalProvider bt oauth payouts cfg)) w)) = clock w" for w
    using processBatch_quiet by (simp_all add: within_def leaves_keys_def)
  assume "c \<in> {outbox_job (payment_registry (StripeProvider api to_cents) (PaypalProvider bt oauth payouts cfg)), cleanup_job n}"
  then show "well_locked lock_time c \<and> held_key c = None"
    using batch cleanup_work [of n]
    by (auto simp: outbox_job_def cleanup_job_def lock_time_def PROCESSOR_LOCK_KEY_def PROCESSOR_LOCK_TTL_SECONDS_def
      CLEANUP_LOCK_KEY_def CLEANUP_LOCK_TTL_SECONDS_def)
qed

text \<open>
  C35. A scheduled job runs on one instance at a time. The calls of each job, run alone, are
  the job; and however many instances start either job, make their calls in any order, fail
  to reach Redis or are killed, and whatever else happens between, at most one run of the
  processor and at most one of the clean-up holds its lock, as long as each run has deleted
  its lock within 15 minutes (10 for the clean-up).
\<close>

theorem jobs_exclude_each_other:
  fixes api to_cents bt oauth payouts cfg n
  defines "registry \<equiv> payment_registry (StripeProvider api to_cents) (PaypalProvider bt oauth payouts cfg)"
  shows "run_job (outbox_job registry) v = Some (processOutbox registry v)
   \<and> run_job (cleanup_job n) v = cleanupExpiredTokens n v
   \<and> ((job_step {outbox_job registry, cleanup_job n} lock_time True)\<^sup>*\<^sup>* (w0, []) (w, rs) \<longrightarrow>
       length (at_work ''locks:payment_processor'' rs) \<le> 1 \<and> length (at_work ''locks:token_cleanup'' rs) \<le> 1)"
  unfolding registry_def using outbox_job_run cleanup_job_run scheduled.exclusive by blast

section \<open>Two schedules\<close>

definition demo_jobs :: "job_code set" where
  "demo_jobs = {outbox_job demo_registry, cleanup_job 1000}"

definition outbox_work :: job_code where
  "outbox_work = Work (\<lambda>w. Some (snd (processBatch demo_registry w))) (Release PROCESSOR_LOCK_KEY Finished)"

definition job_locked :: "world \<Rightarrow> world" where
  "job_locked w = w\<lparr>redis_calls := Suc (redis_calls w),
     redis := (redis w)(PROCESSOR_LOCK_KEY \<mapsto> (''1'', Some (clock w + 900000)))\<rparr>"

definition job_unlocked :: "world \<Rightarrow> world" where
  "job_unlocked w = w\<lparr>redis_calls := Suc (redis_calls w), redis := (redis w)(PROCESSOR_LOCK_KEY := None)\<rparr>"

definition later :: "instant \<Rightarrow> world \<Rightarrow> world" where
  "later n w = w\<lparr>clock := clock w + n\<rparr>"

lemmas demo_job_worlds = job_locked_def job_unlocked_def later_def

lemma held_outbox_work [simp]: "held_key outbox_work = Some PROCESSOR_LOCK_KEY"
  by (simp add: outbox_work_def)

text \<open>A run of the processor starts and gets the lock.\<close>

lemma outbox_begins:
  assumes "redis_ok w (redis_calls w)" and "redis_live w PROCESSOR_LOCK_KEY = None"
  shows "(job_step demo_jobs lock_time timely)\<^sup>*\<^sup>* (w, rs) (job_locked w, (clock w, outbox_work) # rs)"
proof -
  have "job_step demo_jobs lock_time timely (w, rs) (w, (clock w, outbox_job demo_registry) # rs)"
    by (rule starts) (simp add: demo_jobs_def)
  moreover have "job_step demo_jobs lock_time timely (w, [] @ (clock w, outbox_job demo_registry) # rs)
      (job_locked w, [] @ (clock (job_locked w), outbox_work) # rs)"
    unfolding outbox_job_def outbox_work_def
    using answered [where key = PROCESSOR_LOCK_KEY and ttl = PROCESSOR_LOCK_TTL_SECONDS and w = w and acquired = True
      and w' = "job_locked w" and as = "[]" and t = "clock w" and bs = rs and f = "\<lambda>acquired. if \<not> acquired then Finished
        else Work (\<lambda>w. Some (snd (processBatch demo_registry w))) (Release PROCESSOR_LOCK_KEY Finished)"
      and codes = demo_jobs and due = lock_time and timely = timely] assms
    by (simp add: redis_set_nx_def redis_call_def Let_def job_locked_def PROCESSOR_LOCK_TTL_SECONDS_def)
  ultimately show ?thesis by (simp add: job_locked_def)
qed

text \<open>It has nothing to do, and deletes the key.\<close>

lemma outbox_finishes:
  assumes "redis_ok w (redis_calls w)" and "outboxEvents (db w) = []"
  shows "(job_step demo_jobs lock_time False)\<^sup>*\<^sup>* (w, as @ (t, outbox_work) # bs) (job_unlocked w, as @ (t, Finished) # bs)"
proof -
  have "processBatch demo_registry w = (Inr (), w)"
    using assms(2) by (simp add: processBatch_def findPendingProviderEvents_def t_filter_def getP_def bindP_def
      outboxEvents_t_def oldest_first_def ret_def)
  then have "job_step demo_jobs lock_time False (w, as @ (t, outbox_work) # bs)
      (w, as @ (t, Release PROCESSOR_LOCK_KEY Finished) # bs)"
    unfolding outbox_work_def by (intro works) simp_all
  moreover have "job_step demo_jobs lock_time False (w, as @ (t, Release PROCESSOR_LOCK_KEY Finished) # bs)
      (job_unlocked w, as @ (t, Finished) # bs)"
    by (rule releases) (use assms in \<open>simp add: redis_del_def redis_call_def Let_def job_unlocked_def\<close>)
  ultimately show ?thesis by simp
qed

lemma demo_lock_key: "PROCESSOR_LOCK_KEY = ''locks:payment_processor''"
  by (simp add: PROCESSOR_LOCK_KEY_def)

theorem jobs_exclude_each_other_witness:
  "(job_step demo_jobs lock_time True)\<^sup>*\<^sup>* (demo_start, []) (job_locked demo_start, [(clock demo_start, outbox_work)])
   \<and> length (at_work ''locks:payment_processor'' [(clock demo_start, outbox_work)]) \<le> 1"
proof -
  have run: "(job_step demo_jobs lock_time True)\<^sup>*\<^sup>* (demo_start, []) (job_locked demo_start, [(clock demo_start, outbox_work)])"
    by (rule outbox_begins) (simp_all add: demo_start_def redis_live_def)
  show ?thesis
  proof
    show "length (at_work ''locks:payment_processor'' [(clock demo_start, outbox_work)]) \<le> 1"
      using jobs_exclude_each_other [THEN conjunct2, THEN conjunct2, rule_format, THEN conjunct1,
        OF run [unfolded demo_jobs_def demo_registry_def]] .
  qed (rule run)
qed

text \<open>
  A run outlives its key; a second starts, the first ends and deletes the second's key, and a
  third starts: two runs are at work, both within their time.
\<close>

theorem overlong_run_breaks_exclusion:
  "\<exists>w rs. (job_step demo_jobs lock_time False)\<^sup>*\<^sup>* (demo_start, []) (w, rs)
    \<and> length (at_work PROCESSOR_LOCK_KEY rs) = 2 \<and> in_time lock_time (w, rs)"
proof -
  let ?S = "(job_step demo_jobs lock_time False)\<^sup>*\<^sup>*"
  let ?w1 = "later 900000 (job_locked demo_start)"
  let ?w2 = "job_unlocked (job_locked ?w1)"
  let ?a = "(clock demo_start, outbox_work)" and ?b = "(clock ?w1, outbox_work)" and ?c = "(clock ?w2, outbox_work)"
  let ?a' = "(clock demo_start, Finished)"
  have "?S (demo_start, []) (job_locked demo_start, [?a])"
    by (rule outbox_begins) (simp_all add: demo_start_def redis_live_def)
  also have "?S (job_locked demo_start, [?a]) (?w1, [?a])"
    by (rule r_into_rtranclp, rule elsewhere) (simp_all add: demo_job_worlds)
  also have "?S (?w1, [?a]) (job_locked ?w1, [?b, ?a])"
    by (rule outbox_begins) (simp_all add: demo_job_worlds demo_start_def redis_live_def)
  also have "?S (job_locked ?w1, [?b, ?a]) (?w2, [?b, ?a'])"
    using outbox_finishes [of "job_locked ?w1" "[?b]" "clock demo_start" "[]"]
    by (simp add: demo_job_worlds demo_start_def empty_db_def)
  also have "?S (?w2, [?b, ?a']) (job_locked ?w2, [?c, ?b, ?a'])"
    by (rule outbox_begins) (simp_all add: demo_job_worlds demo_start_def redis_live_def)
  finally have "?S (demo_start, []) (job_locked ?w2, [?c, ?b, ?a'])" .
  moreover have "in_time lock_time (job_locked ?w2, [?c, ?b, ?a'])"
    by (simp add: in_time_def demo_job_worlds lock_time_def demo_lock_key)
  ultimately show ?thesis by (intro exI [of _ "job_locked ?w2"] exI [of _ "[?c, ?b, ?a']"]) simp
qed

end
