(* ===== verification/Wiring.thy ===== *)
theory Wiring
  imports Configuration
begin

text \<open>
  The module graph: every \<open>*.module.ts\<close> and \<open>app.module.ts\<close> with what it imports, provides and
  exports, the constructor parameters of every injectable class, and the framework's rules
  for finding a provider. Shown is that every dependency is found, that only three tokens are
  left to the framework's own modules, and that the providers can be created one after
  another. Then \<open>bootstrap\<close> of \<open>main.ts\<close> and the options of the Redis, Prisma and JWT libraries.
\<close>

section \<open>Modules\<close>

record nest_module =
  m_name :: string
  m_global :: bool
  m_imports :: "string list"
  m_controllers :: "string list"
  m_providers :: "string list"
  m_exports :: "string list"

definition PrismaModule :: nest_module where
  "PrismaModule = \<lparr>m_name = ''PrismaModule'', m_global = True,
     m_imports = [],
     m_controllers = [],
     m_providers = [''PrismaService''],
     m_exports = [''PrismaService'']\<rparr>"

definition RedisModule :: nest_module where
  "RedisModule = \<lparr>m_name = ''RedisModule'', m_global = True,
     m_imports = [],
     m_controllers = [],
     m_providers = [''REDIS_CLIENT''],
     m_exports = [''REDIS_CLIENT'']\<rparr>"

definition CryptoModule :: nest_module where
  "CryptoModule = \<lparr>m_name = ''CryptoModule'', m_global = True,
     m_imports = [],
     m_controllers = [],
     m_providers = [''CryptoService''],
     m_exports = [''CryptoService'']\<rparr>"

definition AuditModule :: nest_module where
  "AuditModule = \<lparr>m_name = ''AuditModule'', m_global = True,
     m_imports = [],
     m_controllers = [],
     m_providers = [''AuditLogger''],
     m_exports = [''AuditLogger'']\<rparr>"

definition AuthModule :: nest_module where
  "AuthModule = \<lparr>m_name = ''AuthModule'', m_global = False,
     m_imports = [''PassportModule'', ''JwtModule''],
     m_controllers = [''AuthController''],
     m_providers = [''AuthService'', ''AuthRepository'', ''JwtStrategy'', ''TokenDenylistService'',
       ''TokenCleanupService'', ''TokenService'', ''SessionService''],
     m_exports = [''TokenService'', ''TokenDenylistService'']\<rparr>"

definition HealthModule :: nest_module where
  "HealthModule = \<lparr>m_name = ''HealthModule'', m_global = False,
     m_imports = [],
     m_controllers = [''HealthController''],
     m_providers = [''HealthService''],
     m_exports = []\<rparr>"

definition UsersModule :: nest_module where
  "UsersModule = \<lparr>m_name = ''UsersModule'', m_global = False,
     m_imports = [''AuthModule''],
     m_controllers = [''UsersController''],
     m_providers = [''UsersService'', ''UsersRepository''],
     m_exports = [''UsersRepository'']\<rparr>"

definition WalletModule :: nest_module where
  "WalletModule = \<lparr>m_name = ''WalletModule'', m_global = False,
     m_imports = [],
     m_controllers = [''WalletController''],
     m_providers = [''WalletService'', ''WalletRepository''],
     m_exports = [''WalletRepository'']\<rparr>"

definition TransactionModule :: nest_module where
  "TransactionModule = \<lparr>m_name = ''TransactionModule'', m_global = False,
     m_imports = [''WalletModule''],
     m_controllers = [''TransactionController''],
     m_providers = [''TransactionService'', ''TransactionRepository''],
     m_exports = [''TransactionRepository'']\<rparr>"

definition StripeConnectModule :: nest_module where
  "StripeConnectModule = \<lparr>m_name = ''StripeConnectModule'', m_global = False,
     m_imports = [],
     m_controllers = [''StripeConnectController'', ''StripeConnectWebhookController''],
     m_providers = [''StripeConnectService'', ''StripeConnectWebhookService'', ''StripeConnectRepository'',
       ''StripeConnectClient''],
     m_exports = [''StripeConnectRepository'', ''StripeConnectClient'']\<rparr>"

definition PaymentModule :: nest_module where
  "PaymentModule = \<lparr>m_name = ''PaymentModule'', m_global = False,
     m_imports = [''WalletModule'', ''UsersModule'', ''StripeConnectModule'', ''TransactionModule''],
     m_controllers = [''PaymentController''],
     m_providers = [''PaymentService'', ''PaymentProcessorService'', ''PaymentSettlementService'',
       ''PaymentRepository'', ''StripeProvider'', ''PaypalProvider'', ''PaypalTokenClient'',
       ''PaymentProviderRegistry'', ''ProviderConfigService'', ''AuditLogger''],
     m_exports = [''PaymentService'', ''PaymentRepository'', ''StripeProvider'', ''PaypalProvider'',
       ''PaypalTokenClient'', ''PaymentProviderRegistry'']\<rparr>"

definition AppModule :: nest_module where
  "AppModule = \<lparr>m_name = ''AppModule'', m_global = False,
     m_imports = [''ConfigModule'', ''ScheduleModule'', ''ThrottlerModule'', ''PrismaModule'', ''RedisModule'',
       ''CryptoModule'', ''AuditModule'', ''AuthModule'', ''HealthModule'', ''UsersModule'', ''WalletModule'',
       ''TransactionModule'', ''StripeConnectModule'', ''PaymentModule''],
     m_controllers = [''AppController''],
     m_providers = [''ThrottlerGuard'', ''JwtAuthGuard'', ''RolesGuard'', ''RequestContextInterceptor'',
       ''ResponseInterceptor''],
     m_exports = []\<rparr>"

section \<open>Constructor parameters\<close>

definition JwtAuthGuard_injects :: "string list" where
  "JwtAuthGuard_injects = [''Reflector'']"

definition RolesGuard_injects :: "string list" where
  "RolesGuard_injects = [''Reflector'']"

definition AuthController_injects :: "string list" where
  "AuthController_injects = [''AuthService'']"

definition AuthRepository_injects :: "string list" where
  "AuthRepository_injects = [''PrismaService'']"

definition AuthService_injects :: "string list" where
  "AuthService_injects = [''AuthRepository'', ''TokenService'', ''SessionService'', ''AuditLogger'']"

definition SessionService_injects :: "string list" where
  "SessionService_injects = [''TokenService'', ''AuthRepository'', ''TokenDenylistService'', ''CryptoService'',
    ''AuditLogger'', ''ConfigService'', ''REDIS_CLIENT'']"

definition JwtStrategy_injects :: "string list" where
  "JwtStrategy_injects = [''ConfigService'', ''AuthRepository'', ''TokenDenylistService'']"

definition TokenCleanupService_injects :: "string list" where
  "TokenCleanupService_injects = [''AuthRepository'', ''REDIS_CLIENT'']"

definition TokenDenylistService_injects :: "string list" where
  "TokenDenylistService_injects = [''REDIS_CLIENT'', ''AuditLogger'']"

definition TokenService_injects :: "string list" where
  "TokenService_injects = [''JwtService'', ''ConfigService'']"

definition CryptoService_injects :: "string list" where
  "CryptoService_injects = [''ConfigService'']"

definition HealthController_injects :: "string list" where
  "HealthController_injects = [''HealthService'']"

definition HealthService_injects :: "string list" where
  "HealthService_injects = [''REDIS_CLIENT'', ''PrismaService'']"

definition PaymentProcessorService_injects :: "string list" where
  "PaymentProcessorService_injects = [''PaymentRepository'', ''PaymentSettlementService'',
    ''PaymentProviderRegistry'', ''REDIS_CLIENT'']"

definition PaymentSettlementService_injects :: "string list" where
  "PaymentSettlementService_injects = [''WalletRepository'', ''PaymentRepository'', ''UsersRepository'',
    ''AuditLogger'']"

definition PaymentController_injects :: "string list" where
  "PaymentController_injects = [''PaymentService'']"

definition PaymentRepository_injects :: "string list" where
  "PaymentRepository_injects = [''PrismaService'']"

definition PaymentService_injects :: "string list" where
  "PaymentService_injects = [''PaymentRepository'', ''TransactionRepository'', ''WalletRepository'',
    ''UsersRepository'', ''PaymentProviderRegistry'', ''StripeConnectRepository'', ''AuditLogger'']"

definition ProviderConfigService_injects :: "string list" where
  "ProviderConfigService_injects = [''ConfigService'']"

definition PaypalTokenClient_injects :: "string list" where
  "PaypalTokenClient_injects = [''ConfigService'']"

definition PaypalProvider_injects :: "string list" where
  "PaypalProvider_injects = [''ProviderConfigService'', ''PaypalTokenClient'']"

definition PaymentProviderRegistry_injects :: "string list" where
  "PaymentProviderRegistry_injects = [''StripeProvider'', ''PaypalProvider'']"

definition StripeProvider_injects :: "string list" where
  "StripeProvider_injects = [''ProviderConfigService'']"

definition StripeConnectWebhookController_injects :: "string list" where
  "StripeConnectWebhookController_injects = [''StripeConnectClient'', ''StripeConnectWebhookService'',
    ''ConfigService'']"

definition StripeConnectWebhookService_injects :: "string list" where
  "StripeConnectWebhookService_injects = [''StripeConnectRepository'', ''AuditLogger'']"

definition StripeConnectClient_injects :: "string list" where
  "StripeConnectClient_injects = [''ConfigService'']"

definition StripeConnectController_injects :: "string list" where
  "StripeConnectController_injects = [''StripeConnectService'', ''ConfigService'']"

definition StripeConnectRepository_injects :: "string list" where
  "StripeConnectRepository_injects = [''PrismaService'']"

definition StripeConnectService_injects :: "string list" where
  "StripeConnectService_injects = [''StripeConnectClient'', ''StripeConnectRepository'', ''ConfigService'',
    ''AuditLogger'']"

definition TransactionController_injects :: "string list" where
  "TransactionController_injects = [''TransactionService'']"

definition TransactionRepository_injects :: "string list" where
  "TransactionRepository_injects = [''PrismaService'']"

definition TransactionService_injects :: "string list" where
  "TransactionService_injects = [''TransactionRepository'', ''WalletRepository'', ''AuditLogger'']"

definition UsersController_injects :: "string list" where
  "UsersController_injects = [''UsersService'']"

definition UsersRepository_injects :: "string list" where
  "UsersRepository_injects = [''PrismaService'']"

definition UsersService_injects :: "string list" where
  "UsersService_injects = [''UsersRepository'', ''TokenDenylistService'', ''TokenService'', ''AuditLogger'']"

definition WalletController_injects :: "string list" where
  "WalletController_injects = [''WalletService'']"

definition WalletRepository_injects :: "string list" where
  "WalletRepository_injects = [''PrismaService'']"

definition WalletService_injects :: "string list" where
  "WalletService_injects = [''WalletRepository'']"

definition PrismaService_injects :: "string list" where
  "PrismaService_injects = [''ConfigService'']"

definition REDIS_CLIENT_injects :: "string list" where
  "REDIS_CLIENT_injects = [''ConfigService'']"

text \<open>Classes without constructor parameters are not in the table.\<close>

definition injects :: "string \<Rightarrow> string list" where
  "injects c = (
     if c = ''JwtAuthGuard'' then JwtAuthGuard_injects
     else if c = ''RolesGuard'' then RolesGuard_injects
     else if c = ''AuthController'' then AuthController_injects
     else if c = ''AuthRepository'' then AuthRepository_injects
     else if c = ''AuthService'' then AuthService_injects
     else if c = ''SessionService'' then SessionService_injects
     else if c = ''JwtStrategy'' then JwtStrategy_injects
     else if c = ''TokenCleanupService'' then TokenCleanupService_injects
     else if c = ''TokenDenylistService'' then TokenDenylistService_injects
     else if c = ''TokenService'' then TokenService_injects
     else if c = ''CryptoService'' then CryptoService_injects
     else if c = ''HealthController'' then HealthController_injects
     else if c = ''HealthService'' then HealthService_injects
     else if c = ''PaymentProcessorService'' then PaymentProcessorService_injects
     else if c = ''PaymentSettlementService'' then PaymentSettlementService_injects
     else if c = ''PaymentController'' then PaymentController_injects
     else if c = ''PaymentRepository'' then PaymentRepository_injects
     else if c = ''PaymentService'' then PaymentService_injects
     else if c = ''ProviderConfigService'' then ProviderConfigService_injects
     else if c = ''PaypalTokenClient'' then PaypalTokenClient_injects
     else if c = ''PaypalProvider'' then PaypalProvider_injects
     else if c = ''PaymentProviderRegistry'' then PaymentProviderRegistry_injects
     else if c = ''StripeProvider'' then StripeProvider_injects
     else if c = ''StripeConnectWebhookController'' then StripeConnectWebhookController_injects
     else if c = ''StripeConnectWebhookService'' then StripeConnectWebhookService_injects
     else if c = ''StripeConnectClient'' then StripeConnectClient_injects
     else if c = ''StripeConnectController'' then StripeConnectController_injects
     else if c = ''StripeConnectRepository'' then StripeConnectRepository_injects
     else if c = ''StripeConnectService'' then StripeConnectService_injects
     else if c = ''TransactionController'' then TransactionController_injects
     else if c = ''TransactionRepository'' then TransactionRepository_injects
     else if c = ''TransactionService'' then TransactionService_injects
     else if c = ''UsersController'' then UsersController_injects
     else if c = ''UsersRepository'' then UsersRepository_injects
     else if c = ''UsersService'' then UsersService_injects
     else if c = ''WalletController'' then WalletController_injects
     else if c = ''WalletRepository'' then WalletRepository_injects
     else if c = ''WalletService'' then WalletService_injects
     else if c = ''PrismaService'' then PrismaService_injects
     else if c = ''REDIS_CLIENT'' then REDIS_CLIENT_injects
     else [])"

definition app_modules :: "nest_module list" where
  "app_modules = [PrismaModule, RedisModule, CryptoModule, AuditModule, AuthModule, HealthModule, UsersModule,
     WalletModule, TransactionModule, StripeConnectModule, PaymentModule, AppModule]"

section \<open>Finding a provider\<close>

text \<open>
  The framework's rule for a constructor parameter of a class of a module: the module's own
  provider, one exported by an imported module, or one exported by a global module.
\<close>

definition find_provider :: "nest_module list \<Rightarrow> nest_module \<Rightarrow> string \<Rightarrow> string option" where
  "find_provider ms m d =
     (if List.member (m_providers m) d then Some (m_name m)
      else case find (\<lambda>n. List.member (m_imports m) (m_name n) \<and> List.member (m_exports n) d) ms of
        Some n \<Rightarrow> Some (m_name n)
      | None \<Rightarrow> map_option m_name (find (\<lambda>n. m_global n \<and> List.member (m_exports n) d) ms))"

definition classes :: "nest_module \<Rightarrow> string list" where
  "classes m = m_providers m @ m_controllers m"

definition unresolved :: "nest_module list \<Rightarrow> (string \<times> string) list" where
  "unresolved ms = concat (map (\<lambda>m. concat (map (\<lambda>c.
     map (Pair (m_name m)) (filter (\<lambda>d. find_provider ms m d = None) (injects c))) (classes m))) ms)"

section \<open>Creating the providers\<close>

text \<open>
  The framework creates a class once everything its constructor takes has been created; each
  round below creates all that are ready, until nothing is left or the rounds are used up.
\<close>

fun create :: "nat \<Rightarrow> 'a list \<Rightarrow> ('a \<times> 'a list) list \<Rightarrow> 'a list option" where
  "create n made [] = Some made"
| "create 0 made (x # xs) = None"
| "create (Suc n) made (x # xs) =
     (case partition (\<lambda>y. list_all (List.member made) (snd y)) (x # xs) of (ready, waiting) \<Rightarrow>
      create n (made @ map fst ready) waiting)"

text \<open>Every class after all it needs.\<close>

fun in_order :: "('a \<Rightarrow> 'a set) \<Rightarrow> 'a set \<Rightarrow> 'a list \<Rightarrow> bool" where
  "in_order needs made [] = True"
| "in_order needs made (x # xs) = (needs x \<subseteq> made \<and> in_order needs (insert x made) xs)"

lemma in_order_append: "in_order needs D (xs @ ys) \<longleftrightarrow> in_order needs D xs \<and> in_order needs (D \<union> set xs) ys"
  by (induction xs arbitrary: D) simp_all

lemma in_order_ready: "(\<And>y. y \<in> set ys \<Longrightarrow> needs y \<subseteq> D) \<Longrightarrow> in_order needs D ys"
  by (induction ys arbitrary: D) (auto simp: subset_insertI2)

lemma create_in_order:
  assumes "create n made todo = Some xs'" and "in_order needs {} made"
    and "\<And>x ds. (x, ds) \<in> set todo \<Longrightarrow> needs x = set ds"
  shows "in_order needs {} xs' \<and> set xs' = set made \<union> fst ` set todo"
  using assms
proof (induction n made todo rule: create.induct)
  case (3 n made x xs)
  let ?p = "\<lambda>y. list_all (List.member made) (snd y)"
  let ?ready = "filter ?p (x # xs)" and ?waiting = "filter (Not \<circ> ?p) (x # xs)"
  have ready: "needs (fst y) \<subseteq> set made" if y: "y \<in> set ?ready" for y
  proof -
    have "(fst y, snd y) \<in> set (x # xs)" and "list_all (List.member made) (snd y)"
      using y by (auto split: if_splits)
    from this(2) 3(4) [OF this(1)] show ?thesis by (auto simp: list_all_iff)
  qed
  have "in_order needs (set made) (map fst ?ready)"
    by (rule in_order_ready) (use ready in \<open>auto simp del: filter.simps\<close>)
  then have "in_order needs {} (made @ map fst ?ready)" using 3(3) by (simp add: in_order_append)
  moreover have "needs y = set ds" if "(y, ds) \<in> set ?waiting" for y ds
    using that 3(4) by (auto simp del: filter.simps)
  moreover have "create n (made @ map fst ?ready) ?waiting = Some xs'"
    using 3(2) by (simp del: filter.simps)
  ultimately have "in_order needs {} xs' \<and> set xs' = set (made @ map fst ?ready) \<union> fst ` set ?waiting"
    by (intro 3(1)) (simp_all del: filter.simps)
  then show ?case by (auto simp del: filter.simps)
qed auto

text \<open>The classes of all modules, each with the providers it takes.\<close>

definition takes :: "nest_module list \<Rightarrow> nest_module \<Rightarrow> string \<Rightarrow> (string \<times> string) list" where
  "takes ms m c = List.map_filter (\<lambda>d. map_option (Pair d) (find_provider ms m d)) (injects c)"

definition class_graph :: "nest_module list \<Rightarrow> ((string \<times> string) \<times> (string \<times> string) list) list" where
  "class_graph ms = concat (map (\<lambda>m. map (\<lambda>c. ((c, m_name m), takes ms m c)) (classes m)) ms)"

text \<open>Seven rounds create the classes of this service.\<close>

definition all_created :: "('a \<times> 'a list) list \<Rightarrow> bool" where
  "all_created g \<longleftrightarrow> distinct (map fst g) \<and> create 7 [] g \<noteq> None"

lemma app_created: "all_created (class_graph app_modules)"
  by code_simp

text \<open>
  The dependency graph of the service has no cycle: there is an order of all its providers and
  controllers in which each comes after everything its constructor takes.
\<close>

theorem providers_can_be_created:
  "\<exists>xs. in_order (\<lambda>x. set (the (map_of (class_graph app_modules) x))) {} xs
    \<and> set xs = fst ` set (class_graph app_modules)"
proof -
  from app_created obtain xs where xs: "create 7 [] (class_graph app_modules) = Some xs"
    and keys: "distinct (map fst (class_graph app_modules))" unfolding all_created_def by blast
  show ?thesis
    using create_in_order [OF xs, where needs = "\<lambda>x. set (the (map_of (class_graph app_modules) x))"]
    by (auto simp: keys)
qed

text \<open>
  Every constructor parameter is found, but for what the framework itself provides:
  \<open>ConfigService\<close> from its global module, \<open>Reflector\<close>, and \<open>JwtService\<close> from the \<open>JwtModule\<close> that
  \<open>AuthModule\<close> imports.
\<close>

theorem dependencies_found:
  "list_all (\<lambda>(m, d). d = ''ConfigService'' \<or> d = ''Reflector'' \<or> (m, d) = (''AuthModule'', ''JwtService''))
     (unresolved app_modules)"
  by code_simp

text \<open>What a module exports it provides.\<close>

lemma exports_provided: "list_all (\<lambda>m. list_all (List.member (m_providers m)) (m_exports m)) app_modules"
  by code_simp

end
