(* ===== verification/Bootstrap.thy ===== *)
theory Bootstrap
  imports Configuration
begin

text \<open>
  \<open>bootstrap\<close> of \<open>main.ts\<close> as the server it sets up from the configuration, or the error it
  throws, and the options the Redis client, the Prisma client and the JWT module are
  constructed with. What the libraries do with these options is theirs.
\<close>

section \<open>The server\<close>

record cors_options =
  cors_origin :: "string list"
  cors_methods :: "string list"
  cors_allowedHeaders :: "string list"
  cors_credentials :: bool

record validation_options =
  whitelist :: bool
  forbidNonWhitelisted :: bool
  transform_values :: bool
  enableImplicitConversion :: bool

text \<open>The description is the list of its lines.\<close>

record docs_options =
  docs_protected :: "string list"
  docs_users :: "(string \<times> string) list"
  docs_challenge :: bool
  docs_realm :: string
  docs_title :: string
  docs_description :: "string list"
  docs_version :: string
  docs_bearer :: bool
  docs_tags :: "(string \<times> string) list"
  docs_path :: string

record server =
  sv_rawBody :: bool
  sv_helmet :: bool
  sv_trustProxy :: nat
  sv_cors :: cors_options
  sv_pipe :: validation_options
  sv_filter :: string
  sv_docs :: "docs_options option"
  sv_port :: int

definition bootstrap_cors :: "app_config \<Rightarrow> cors_options" where
  "bootstrap_cors c = \<lparr>cors_origin = allowedOrigins c,
     cors_methods = [''GET'', ''POST'', ''PUT'', ''PATCH'', ''DELETE''],
     cors_allowedHeaders = [''Content-Type'', ''Authorization'', ''X-Request-ID''],
     cors_credentials = True\<rparr>"

definition bootstrap_pipe :: validation_options where
  "bootstrap_pipe = \<lparr>whitelist = True, forbidNonWhitelisted = True, transform_values = True,
     enableImplicitConversion = True\<rparr>"

definition bootstrap_docs :: "string \<Rightarrow> string \<Rightarrow> docs_options" where
  "bootstrap_docs swaggerUser swaggerPassword = \<lparr>docs_protected = [''/api'', ''/api-json''],
     docs_users = [(swaggerUser, swaggerPassword)], docs_challenge = True, docs_realm = ''Swagger UI'',
     docs_title = ''Payment Wallet System'',
     docs_description = [''### Payment Wallet API v1'',
       ''Ledger-based wallet system with double-entry bookkeeping.'', [],
       ''**Key Features:**'',
       ''- Ledger as source of truth (double-entry)'',
       ''- Atomic deposit, withdrawal, and P2P transfer'',
       ''- Idempotency keys on all mutations'',
       ''- Outbox pattern for async provider calls'', [],
       ''_All endpoints require a Bearer token unless marked public._''],
     docs_version = ''1.0'', docs_bearer = True,
     docs_tags = [(''Auth'', ''Registration, login, token refresh''), (''Users'', ''User profile management''),
       (''Wallets'', ''Wallet balances and ledger statement''),
       (''Transactions'', ''Deposit, withdrawal, transfer''), (''Admin'', ''Admin-only operations'')],
     docs_path = ''api''\<rparr>"

definition bootstrap :: "app_config \<Rightarrow> string + server" where
  "bootstrap c =
     (if app_env c = ''production'' \<and> allowedOrigins c = []
      then Inl ''ALLOWED_ORIGINS must be configured in production''
      else
        let listening = (\<lambda>docs. Inr \<lparr>sv_rawBody = True, sv_helmet = True, sv_trustProxy = 1,
          sv_cors = bootstrap_cors c, sv_pipe = bootstrap_pipe, sv_filter = ''HttpExceptionFilter'',
          sv_docs = docs, sv_port = app_port c\<rparr>) in
        if app_env c \<noteq> ''production'' then
          (case (swagger_user c, swagger_password c) of
             (Some u, Some p) \<Rightarrow>
               if u = [] \<or> p = []
               then Inl ''SWAGGER_USER and SWAGGER_PASSWORD must be set in non-production environments. The Swagger UI exposes the full API surface and must not be publicly accessible.''
               else listening (Some (bootstrap_docs u p))
           | _ \<Rightarrow> Inl ''SWAGGER_USER and SWAGGER_PASSWORD must be set in non-production environments. The Swagger UI exposes the full API surface and must not be publicly accessible.'')
        else listening None)"

text \<open>The server starts exactly when the two checks pass, with the same errors.\<close>

lemma bootstrap_checked: "map_sum id (\<lambda>_. ()) (bootstrap c) = bootstrap_checks c"
  by (cases "swagger_user c"; cases "swagger_password c")
     (auto simp: bootstrap_def bootstrap_checks_def truthy_def Let_def)

theorem accepted_environment_listens:
  assumes "config_accepted number uri env"
  shows "\<exists>s. bootstrap (configuration env) = Inr s \<and> sv_port s = app_port (configuration env)"
  using bootstrap_checked [of "configuration env"] accepted_environment_starts(1) [OF assms]
  by (cases "bootstrap (configuration env)")
     (auto simp: bootstrap_def Let_def split: if_splits option.splits)

text \<open>
  The API document is served only outside production, and there only behind a user name and
  a password; in production no origin is admitted that was not configured.
\<close>

theorem documents_protected:
  "(case bootstrap c of
      Inl e \<Rightarrow> True
    | Inr s \<Rightarrow> (case sv_docs s of
          None \<Rightarrow> app_env c = ''production'' \<and> cors_origin (sv_cors s) \<noteq> []
        | Some d \<Rightarrow> app_env c \<noteq> ''production'' \<and> list_all (\<lambda>(u, p). u \<noteq> [] \<and> p \<noteq> []) (docs_users d)
            \<and> docs_protected d = [''/api'', ''/api-json'']))"
  by (auto simp: bootstrap_def bootstrap_docs_def bootstrap_cors_def Let_def split: option.splits)

section \<open>Clients\<close>

record redis_options =
  rc_host :: string
  rc_port :: int
  rc_password :: "string option"
  rc_maxRetriesPerRequest :: nat
  rc_connectTimeout :: int
  rc_lazyConnect :: bool

definition redis_client :: "app_config \<Rightarrow> redis_options" where
  "redis_client c = \<lparr>rc_host = redis_host c, rc_port = redis_port c, rc_password = redis_password c,
     rc_maxRetriesPerRequest = 3, rc_connectTimeout = 5000, rc_lazyConnect = True\<rparr>"

text \<open>Reconnecting is given up after ten attempts, within 2.75 seconds of waiting.\<close>

lemma redis_gives_up:
  "list_all (\<lambda>n. retryStrategy n \<noteq> None) [1..<11] \<and> sum_list (map (the \<circ> retryStrategy) [1..<11]) = 2750"
  "10 < n \<Longrightarrow> retryStrategy n = None"
  by (simp_all add: retryStrategy_def upt_rec)

record prisma_options =
  po_connectionString :: "string option"
  po_max :: int
  po_idleTimeoutMillis :: int
  po_connectionTimeoutMillis :: int
  po_log :: "string list"

definition prisma_client :: "app_config \<Rightarrow> prisma_options" where
  "prisma_client c = \<lparr>po_connectionString = database_url c, po_max = database_poolSize c,
     po_idleTimeoutMillis = 30000, po_connectionTimeoutMillis = 10000, po_log = [''error'', ''warn'', ''query'']\<rparr>"

definition prisma_query_event :: "(string \<Rightarrow> string) \<Rightarrow> app_config \<Rightarrow> int \<Rightarrow> string \<Rightarrow> string option" where
  "prisma_query_event sha256 c duration q =
     (let isDev = (app_env c = ''development''); threshold = slowQueryThresholdMs c in
      slow_query_log sha256 isDev threshold duration q)"

text \<open>Outside development the log line depends on a query only through eight digits of its hash.\<close>

theorem query_text_stays_out:
  assumes "app_env c \<noteq> ''development''" and "take 8 (sha256 p) = take 8 (sha256 q)"
  shows "prisma_query_event sha256 c duration p = prisma_query_event sha256 c duration q"
  using assms by (simp add: prisma_query_event_def slow_query_log_def Let_def)

record jwt_options =
  jo_secret :: "string option"
  jo_expiresIn :: string

definition jwt_module :: "app_config \<Rightarrow> jwt_options" where
  "jwt_module c = \<lparr>jo_secret = jwt_accessSecret c, jo_expiresIn = jwt_accessExpiry c\<rparr>"

end
