(* ===== verification/Spec2Isabelle.thy ===== *)
theory Spec2Isabelle
  imports Isolation Money_Properties Session_Properties Service_Properties Guarantees Ledger Session_Races Job_Locks Wiring Bootstrap
begin

text \<open>
  A verification development for the payment wallet system, a NestJS service over a Prisma
  (PostgreSQL) database and Redis. All file names below are under \<open>src/src\<close>.

  \<^bold>\<open>The program and how its parts interact.\<close> A request passes the guards of \<open>app.module.ts\<close>
  (throttler, JWT guard, role guard), the interceptors, the validation pipes and a controller,
  which calls one service method; whatever is thrown becomes an error answer in the exception
  filter. Users register and log in (\<open>modules/auth\<close>), which gives a short-lived access token
  and a refresh token that is rotated on use; Redis holds the denylist of access tokens, the
  encrypted cache of the last rotation and the locks of the two jobs. A wallet has an
  available, a locked and a pending balance. A deposit first adds to the pending balance and
  a withdrawal moves available funds to the locked balance; both write a transaction and an
  outbox event in one database transaction. Every 30 seconds \<open>payment-processor.service.ts\<close>
  takes a batch of events, asks the payment provider's adapter, and settles or fails the
  transaction. A transfer between two wallets settles at once. Stripe Connect accounts are
  linked to users by onboarding and cleared by a signed webhook.

  \<^bold>\<open>Which theory models what.\<close>
  \<^item> \<open>Prelude\<close>: exceptions, methods as state transformers with \<open>await\<close>, \<open>try/catch\<close> and
    \<open>finally\<close>, the weakest preconditions of these combinators, and the locale \<open>effect_order\<close>
    by which frames, invariants and refinements are carried through method bodies.
  \<^item> \<open>Schema\<close>, \<open>World\<close>, \<open>Store\<close>: \<open>prisma/schema.prisma\<close> as records, the world (database, Redis,
    clock, supply of ids, audit trail, requests sent to providers), Prisma's table operations
    with unique keys, foreign keys and the range of \<open>Decimal(18,4)\<close>, and \<open>$transaction\<close>.
  \<^item> \<open>Audit_Log\<close>, \<open>Decimal\<close>, \<open>Encoding\<close>, \<open>Json_Text\<close>, \<open>Dates\<close>: audit records; amounts as
    text, and base64, JSON and ISO date texts with their round trips.
  \<^item> \<open>Wallet_Repo\<close>, \<open>Transaction_Repo\<close>, \<open>Users_Repo\<close>, \<open>Payment_Repo\<close>, \<open>Auth_Repo\<close>: the repositories
    of \<open>modules/wallet\<close>, \<open>transaction\<close>, \<open>user\<close> and \<open>stripe-connect\<close>, \<open>payment\<close>, \<open>auth\<close>.
  \<^item> \<open>Transaction_Service\<close>, \<open>Payment_Service\<close>, \<open>Payment_Settlement\<close>, \<open>Processor\<close>, \<open>Providers\<close>:
    the money services, the processor, the registry and the Stripe and PayPal adapters
    (locale \<open>payment_adapter\<close>, interpreted for both). What a method runs inside
    \<open>withTransaction\<close> is a definition of its own, \<open>..._block\<close>.
  \<^item> \<open>Token_Service\<close>, \<open>Crypto_Service\<close>, \<open>Session_Service\<close>, \<open>Auth_Service\<close>, \<open>Users_Service\<close>: tokens,
    AES-GCM, rotation cache, denylist, sessions, clean-up, the auth and account endpoints, and
    the guards.
  \<^item> \<open>Wallet_Service\<close>, \<open>Stripe_Connect\<close>, \<open>Http_Layer\<close>, \<open>Configuration\<close>: the paged listings (locale
    \<open>keyset_listing\<close>, interpreted for wallets and for ledger entries), onboarding and webhook,
    filter, envelope, request context and health check, the configuration object, its schema
    and the start-up checks.
  \<^item> \<open>Validation\<close>, \<open>Controllers\<close>, \<open>Requests\<close>: the rules of the request bodies, what each
    controller method declares and calls, and a request from the guards to its answer.
  \<^item> \<open>Wiring\<close>, \<open>Bootstrap\<close>: the modules with what they import, provide and export, the
    constructor parameters of all classes, the search for a provider and the order of creation;
    \<open>main.ts\<close> as the server it sets up, and the options of the Redis, Prisma and JWT clients.

  \<^bold>\<open>The abstract system.\<close> \<open>Accounting\<close> states what the money code promises: each bucket of a wallet
  is the sum of its transactions' shares (\<open>books_ok\<close>). \<open>Money_Blocks\<close> proves that each block keeps
  this in any state, so also after other requests changed what the service read before.
  \<open>System\<close> is the step relation of all blocks: a request that read the database may commit its
  block after any other steps, a provider may be called again for the same event, and
  everything outside the books may change at any time. \<open>Ledger\<close> carries a second invariant over
  the same steps: the ledger entries of every transaction (\<open>entries_fit\<close>). \<open>Endpoints\<close> (locale
  \<open>idempotent_endpoint\<close>, interpreted for the five endpoints) and \<open>Simulation\<close> show that the service
  methods only do steps of the system; \<open>Requests\<close> lifts this to served requests and the jobs.

  \<^bold>\<open>The writes.\<close> \<open>Writes\<close> looks at the program from its tables: the relation \<open>table_write\<close> lists every
  single write the code performs (a row created, the columns an update may change, tokens
  revoked, evicted or deleted), and all services, requests and jobs are shown to be sequences
  of these (\<open>happen_writes\<close>). \<open>Guarantees\<close> proves, write by write, what then holds of the running
  service: append-only records, rights, and the fate of revoked tokens, with the schema's
  constraints (\<open>schema_ok\<close>, column by column; locale \<open>referencing_table\<close>, interpreted for the
  seven tables) as a lemma they rest on.

  \<^bold>\<open>Inside the blocks.\<close> \<open>Row_Locks\<close> is the database below the level of blocks: a block as the tree
  of its statements on wallet rows (\<open>SELECT ... FOR UPDATE\<close>, plain read, \<open>UPDATE\<close>, commit, rollback)
  and the step relation \<open>work\<close> of many transactions under row locks, with \<open>work_at\<close> to compute it.
  Reading under locks makes commits serialisable, locking in ascending order excludes deadlock.
  \<open>Isolation\<close> gives the statements of each money block, proves that the block does what its
  statements do, and draws both conclusions for the services. Account closing reads its
  wallet without a lock: \<open>Users_Repo\<close> keeps its check and its writes apart, the property of closed
  accounts is stated for any commits between the two, and a run shows what this admits. \<open>Session_Races\<close> does the same for
  logins: their transactions step by step under the advisory lock, with revocations, expiry
  and token rotations of other requests in between. \<open>Job_Locks\<close> takes the two jobs apart into
  their calls, proves that one instance's calls run alone are the job, and interleaves the
  calls of many instances over their Redis locks (locale \<open>locked_jobs\<close>, interpreted for both).

  \<^bold>\<open>The properties.\<close> This theory has the properties of the running system: balances, conservation, finality, row
  types and refinement. \<open>Requests\<close> has the refinement of the whole service and the
  authorisation of requests. \<open>Payment_Properties\<close> covers settlement, the outbox and the
  adapters; \<open>Isolation\<close> interleaved blocks, \<open>Session_Races\<close> and \<open>Job_Locks\<close> logins and jobs side by side; \<open>Money_Properties\<close> idempotency, atomicity, double entry and refusals;
  \<open>Session_Properties\<close> rotation, reuse, replay, logout, limits, accounts and clean-up;
  \<open>Service_Properties\<close> listings, cursors, the webhook and error answers; \<open>Guarantees\<close> what the
  tables keep whatever is served: append-only records, who grants rights, revoked tokens,
  wallet currencies; \<open>Ledger\<close> the entries of every transaction and the balance they give. The theories
  \<open>Endpoint_Total\<close>, \<open>Settlement_Total\<close> and \<open>Session_Facts\<close> hold the runs they share, and \<open>Demo\<close> a
  concrete history on which they are instantiated.

  \<^bold>\<open>Bounds.\<close> \<open>json_parse\<close> runs with the length of its text as fuel, one unit per value, which
  every nested value pays with a character. The clean-up loop is a partial function that is proved to return.
  \<open>follow\<close>, a client that pages through a listing, takes the number of pages, and the listing
  theorem says how many suffice. The outbox theorem bounds the runs by the attempts that are
  left, five per event. A money block has at most five statements on wallet rows, which bounds
  every schedule of them. \<open>create\<close> runs seven rounds, in which all classes of the service are created.

  \<^bold>\<open>Modelling choices.\<close> Amounts and \<open>Decimal(18,4)\<close> columns are integers of ten-thousandths,
  instants integer milliseconds, texts lists of bytes with ids compared by code point. A
  method runs at one clock reading. A call of Redis may fail at any point, by the pattern of
  the world; of the database, only refused writes (unique keys, foreign keys, ranges, missing
  rows) fail, so the \<open>catch\<close> of the clean-up job, which catches nothing else, is left out.
  Logger lines are left out, except those of the exception filter; audit records are kept. Code outside the repository
  is a parameter: the gateways of Stripe, Braintree and PayPal, HMAC, JWT signing and
  verification, argon2, AES-GCM (with its contract \<open>gcm_ok\<close> where a result needs it), the text
  \<open>Decimal.toString()\<close> prints (\<open>decimal_text\<close> of the world), the messages and stacks of library
  errors (\<open>error_texts\<close>), the dates
  \<open>Date.parse\<close> reads beside the ISO format, class-validator's checks of addresses, phone
  numbers, UUIDs and base64, Joi's numbers and URIs, and the throttler's verdict.

  \<^bold>\<open>Not modelled.\<close> What the framework and its libraries do with what the repository declares:
  opening connections, the middleware (helmet, CORS, basic auth), rendering the API document,
  and matching URLs to methods. Below the level of whole blocks the
  wallet rows and the sessions of a login are modelled: the other rows a money block writes
  come after its wallet rows.
\<close>

section \<open>The running system\<close>

text \<open>
  C1. In every state the system can reach, under every interleaving of requests, processor
  runs and failures, each balance bucket of each wallet is exactly the sum of the shares of
  the stored transactions (available: settled credits less debits; locked: initiated
  withdrawals; pending: initiated deposits), and no bucket is negative.
\<close>

theorem wallet_balances_explained:
  assumes "reachable reg (w, ts)" and "adapters_ok reg" and "x \<in> set (wallets (db w))"
  shows "availableBalance x = total (available_share (w_id x)) (transactions (db w))
    \<and> lockedBalance x = total (locked_share (w_id x)) (transactions (db w))
    \<and> pendingBalance x = total (pending_share (w_id x)) (transactions (db w))
    \<and> 0 \<le> availableBalance x \<and> 0 \<le> lockedBalance x \<and> 0 \<le> pendingBalance x"
proof -
  have "books_ok (db w)" using reachable_sys_ok [OF assms(1,2)] by (simp add: sys_ok_def)
  moreover from this assms(3) have "wallet_balanced (transactions (db w)) x" by (simp add: books_ok_def)
  ultimately show ?thesis using books_nonneg [OF _ assms(3)] by (simp add: wallet_balanced_def)
qed

theorem wallet_balances_explained_witness:
  "availableBalance (demo_wallet ''id0'' ''id1'' 1000000 0 0)
     = total (available_share ''id1'') (transactions demo_settled_db)
   \<and> transactions demo_settled_db \<noteq> []"
  using wallet_balances_explained [OF demo_settled_reachable demo_registry_ok,
      of "demo_wallet ''id0'' ''id1'' 1000000 0 0"]
  by (simp add: demo_settled_db_def demo_wallet_def)

text \<open>
  C2. Money is conserved: in every reachable state, per currency, the wallets together hold
  exactly the accepted deposits less the settled withdrawals; transfers neither create nor
  destroy money.
\<close>

theorem money_conserved:
  assumes "reachable reg (w, ts)" and "adapters_ok reg"
  shows "funds c (wallets (db w)) = total (net_in c) (transactions (db w))"
  by (rule books_funds) (use reachable_sys_ok [OF assms] in \<open>simp add: sys_ok_def\<close>)

theorem money_conserved_witness:
  "funds USD (wallets demo_settled_db) = total (net_in USD) (transactions demo_settled_db)
   \<and> funds USD (wallets demo_settled_db) = 1000000"
  using money_conserved [OF demo_settled_reachable demo_registry_ok, of USD]
  by (simp add: demo_settled_db_def demo_wallet_def funds_def)

text \<open>
  C3. A transaction is resolved at most once: from any reachable state, whatever steps
  follow, a stored transaction keeps its payment columns, and once it has left
  \<open>INITIATED\<close> its status never changes again.
\<close>

theorem resolved_stays_resolved:
  assumes "reachable reg (w, ts)" and "adapters_ok reg" and "(step reg)\<^sup>*\<^sup>* (w, ts) (w', ts')"
    and "t \<in> set (transactions (db w))" and "tx_status t \<noteq> INITIATED"
  shows "\<exists>t' \<in> set (transactions (db w')). same_payment t t' \<and> tx_status t' = tx_status t"
  using steps_ok [OF assms(3,2) reachable_sys_ok [OF assms(1,2)]] assms(4,5)
  by (fastforce simp: tx_kept_def status_moves_def)

theorem resolved_stays_resolved_witness:
  "\<exists>t' \<in> set (transactions (db demo_settled)).
     same_payment (demo_deposit SETTLED (Some ''sale1'') (Some 1000000)) t' \<and> tx_status t' = SETTLED"
  using resolved_stays_resolved [OF demo_settled_reachable demo_registry_ok rtranclp.rtrancl_refl,
      of "demo_deposit SETTLED (Some ''sale1'') (Some 1000000)"]
  by (simp add: demo_settled_db_def demo_deposit_def)

text \<open>
  C4. The tables stay well typed: in every reachable state wallet ids and owners, transaction
  ids and idempotency keys are unique; every transaction has a positive amount and exactly the
  wallets and statuses of its type, its wallets exist in its currency, it has a payment log
  exactly when a provider resolved it, and every payment log belongs to a transaction.
\<close>

theorem rows_well_typed:
  assumes "reachable reg (w, ts)" and "adapters_ok reg"
  shows "distinct (map w_id (wallets (db w))) \<and> distinct (map w_userId (wallets (db w)))
    \<and> distinct (map tx_id (transactions (db w))) \<and> distinct (map idempotencyKey (transactions (db w)))
    \<and> list_all (\<lambda>t. tx_ok t \<and> tx_linked (wallets (db w)) t \<and> log_ok (paymentLogs (db w)) t) (transactions (db w))
    \<and> list_all (\<lambda>l. has_transaction (db w) (pl_transactionId l)) (paymentLogs (db w))"
  using reachable_sys_ok [OF assms] by (simp add: sys_ok_def books_ok_def list_all_iff)

theorem rows_well_typed_witness:
  "list_all (\<lambda>t. tx_ok t \<and> log_ok (paymentLogs demo_settled_db) t) (transactions demo_settled_db)
   \<and> paymentLogs demo_settled_db \<noteq> []"
  using rows_well_typed [OF demo_settled_reachable demo_registry_ok]
  by (auto simp: list_all_iff demo_settled_db_def)

text \<open>
  The services refine the abstract system: every endpoint and the outbox processor, run
  to its end from any world, does nothing but a sequence of the system's steps, and the
  session, token and profile endpoints never touch wallets, transactions, ledger entries or
  payment logs.
\<close>

theorem services_refine_system:
  assumes "adapters_ok reg" and "MoneyDto_valid (amount ddto)" and "MoneyDto_valid (amount tdto)"
    and "MoneyDto_valid (amount cdto)" and "MoneyDto_valid (amount pdto)"
  shows "list_all (within (runs reg)) [deposit u ddto, withdraw u ddto, transfer u tdto]
    \<and> list_all (within (runs reg)) [confirmDeposit_service u cdto, createPayout_service u pdto]
    \<and> within (runs reg) (processOutbox reg) \<and> within (runs reg) (register env rdto ua)
    \<and> list_all (within same_books) [login env ldto ua, refresh env raw ua]
    \<and> list_all (within same_books) [logout env raw u j ua, logoutAll env u j ua, changePassword env u j pwd, closeAccount env u j]
    \<and> within same_books (validate p) \<and> within same_books (updateProfile u upd)
    \<and> within same_books (updateUserStatus a u adm)"
  using assms
  by (simp add: deposit_runs withdraw_runs transfer_runs confirmDeposit_runs createPayout_runs
    processOutbox_runs register_runs auth_frames account_frames)

theorem services_refine_system_witness:
  "runs demo_registry demo_settled (snd (transfer ''id0'' demo_transfer demo_settled))
   \<and> runs demo_registry demo_pending (snd (processOutbox demo_registry demo_pending))"
proof -
  let ?d = "\<lparr>amount = 1, dto_currency = USD, dto_idempotencyKey = ''k3'', description = None\<rparr>"
  let ?p = "\<lparr>amount = 1, dto_currency = USD, dto_idempotencyKey = ''k4'', description = None, cp_provider = STRIPE\<rparr>"
  have "MoneyDto_valid (amount ?d)" "MoneyDto_valid (amount demo_transfer)"
    "MoneyDto_valid (amount demo_confirm)" "MoneyDto_valid (amount ?p)"
    by (simp_all add: MoneyDto_valid_def demo_transfer_def demo_confirm_def)
  from services_refine_system [OF demo_registry_ok this, where u = "''id0''"] show ?thesis
    by (simp add: within_def)
qed

end
